theory Spec2Isabelle
  imports Complex_Main "HOL-Library.Multiset"
begin

section \<open>Strings and numbers of the host language\<close>

text \<open>
  JavaScript strings are modelled as HOL strings, a character standing for a code unit
  below 256. \<open>toLowerCase\<close> lowers the letters among them: \<open>A\<close> to \<open>Z\<close> and the
  accented capitals from 192 to 222 except the multiplication sign 215.
  \<open>includes_str\<close> is \<open>String.prototype.includes\<close>, a substring test.
\<close>

definition toLowerChar :: "char \<Rightarrow> char" where
  "toLowerChar c =
     (let n = (of_char c :: nat)
      in if (65 \<le> n \<and> n \<le> 90) \<or> (192 \<le> n \<and> n \<le> 222 \<and> n \<noteq> 215) then char_of (n + 32)
         else c)"

definition toLowerCase :: "string \<Rightarrow> string" where
  "toLowerCase s = map toLowerChar s"

fun startsWith :: "string \<Rightarrow> string \<Rightarrow> bool" where
  "startsWith s [] = True"
| "startsWith [] (p # ps) = False"
| "startsWith (c # cs) (p # ps) = (c = p \<and> startsWith cs ps)"

fun includes_str :: "string \<Rightarrow> string \<Rightarrow> bool" where
  "includes_str [] p = (p = [])"
| "includes_str (c # cs) p = (startsWith (c # cs) p \<or> includes_str cs p)"

text \<open>Decimal rendering of a count, as a template literal prints \<open>xs.length\<close>.\<close>

definition digitChar :: "nat \<Rightarrow> char" where
  "digitChar d = char_of (48 + d)"

fun showNat :: "nat \<Rightarrow> string" where
  "showNat n = (if n < 10 then [digitChar n] else showNat (n div 10) @ [digitChar (n mod 10)])"

declare showNat.simps [simp del]

text \<open>
  A JavaScript number is a double: \<open>NaN\<close>, one of the two infinities, or a finite
  value, modelled as a real. \<open>Math.max\<close> and \<open>Math.min\<close> return \<open>NaN\<close> as soon as
  one argument is \<open>NaN\<close>. The product of two doubles is rounded by the hardware, so
  every product the code computes goes through a parameter \<open>fmul\<close> that stands for the
  multiplication of finite doubles.
\<close>

datatype number = NaN | NegInfinity | Finite real | PosInfinity

fun Math_max :: "number \<Rightarrow> number \<Rightarrow> number" where
  "Math_max NaN b = NaN"
| "Math_max a NaN = NaN"
| "Math_max PosInfinity b = PosInfinity"
| "Math_max a PosInfinity = PosInfinity"
| "Math_max NegInfinity b = b"
| "Math_max a NegInfinity = a"
| "Math_max (Finite x) (Finite y) = Finite (if x < y then y else x)"

fun Math_min :: "number \<Rightarrow> number \<Rightarrow> number" where
  "Math_min NaN b = NaN"
| "Math_min a NaN = NaN"
| "Math_min NegInfinity b = NegInfinity"
| "Math_min a NegInfinity = NegInfinity"
| "Math_min PosInfinity b = b"
| "Math_min a PosInfinity = a"
| "Math_min (Finite x) (Finite y) = Finite (if y < x then y else x)"


definition Math_ceil :: "real \<Rightarrow> int" where
  "Math_ceil x = \<lceil>x\<rceil>"

text \<open>
  A value read by \<open>JSON.parse\<close>. A number literal too large for a double is read as an
  infinity; \<open>NaN\<close> is never read. \<open>truthy\<close> is the test of \<open>v || d\<close> and of
  \<open>if (v)\<close>. \<open>ToNumber\<close> is the conversion \<open>Math.min\<close> applies to its arguments:
  on a string, an array or an object it goes through the value's string form (the empty
  string and \<open>''0.7''\<close> are numbers, \<open>''high''\<close> is \<open>NaN\<close>) and may throw a
  \<open>TypeError\<close>, for an object whose own \<open>toString\<close> is not a function. That part of
  the host language is the parameter \<open>coerce\<close>, where \<open>None\<close> is the thrown error.
\<close>

datatype json =
  JNull | JBool bool | JNumber number | JString string | JArray "json list"
| JObject "(string \<times> json) list"

fun truthy :: "json \<Rightarrow> bool" where
  "truthy JNull = False"
| "truthy (JBool b) = b"
| "truthy (JNumber n) = (n \<noteq> NaN \<and> n \<noteq> Finite 0)"
| "truthy (JString s) = (s \<noteq> [])"
| "truthy (JArray xs) = True"
| "truthy (JObject kvs) = True"

fun ToNumber :: "(json \<Rightarrow> number option) \<Rightarrow> json \<Rightarrow> number option" where
  "ToNumber coerce JNull = Some (Finite 0)"
| "ToNumber coerce (JBool b) = Some (Finite (if b then 1 else 0))"
| "ToNumber coerce (JNumber n) = Some n"
| "ToNumber coerce v = coerce v"

section \<open>Data model (shared/schema.ts)\<close>

record email =
  email_id :: int
  messageId :: string
  fromEmail :: string
  fromName :: "string option"
  toEmail :: string
  subject :: string
  textContent :: "string option"
  htmlContent :: "string option"
  receivedAt :: int
  isRead :: bool
  isImportant :: bool
  isDeleted :: bool
  attachments :: "string list"
  isForwarded :: bool
  originalFrom :: "string option"
  originalFromName :: "string option"
  originalTo :: "string option"
  originalDate :: "string option"
  originalSubject :: "string option"
  actualSenderEmail :: "string option"
  actualSenderName :: "string option"

text \<open>\<open>InsertEmail\<close>: an email without \<open>id\<close> and \<open>receivedAt\<close>; the three flags are optional.\<close>

record insert_email =
  ins_messageId :: string
  ins_fromEmail :: string
  ins_fromName :: "string option"
  ins_toEmail :: string
  ins_subject :: string
  ins_textContent :: "string option"
  ins_htmlContent :: "string option"
  ins_isRead :: "bool option"
  ins_isImportant :: "bool option"
  ins_isDeleted :: "bool option"
  ins_attachments :: "string list"
  ins_isForwarded :: bool
  ins_originalFrom :: "string option"
  ins_originalFromName :: "string option"
  ins_originalTo :: "string option"
  ins_originalDate :: "string option"
  ins_originalSubject :: "string option"
  ins_actualSenderEmail :: "string option"
  ins_actualSenderName :: "string option"

record voice_command =
  vc_id :: int
  vc_transcript :: string
  vc_intent :: string
  vc_confidence :: int
  vc_executedAt :: int
  vc_success :: bool


section \<open>The mailbox store (server/storage.ts, DatabaseStorage)\<close>

text \<open>
  The two tables are lists of rows, with the next value of each serial column; the ids
  of the emails are the primary key. A database call may be rejected, and a rejected
  call has no effect on the tables. Which calls are rejected is part of the store:
  \<open>callsUntilError\<close> is the number of calls that succeed before the next rejection
  (\<open>None\<close>: no call is rejected any more), and \<open>laterErrors\<close> holds the same number
  for each rejection after that one. Every finite pattern of accepted and rejected calls
  is such a store. A rejection caused by the arguments of a call, such as an id outside
  the range of the column, is one of these rejected calls.
\<close>

record store =
  emails :: "email list"
  voiceCommands :: "voice_command list"
  nextEmailId :: int
  nextVoiceCommandId :: int
  callsUntilError :: "nat option"
  laterErrors :: "nat list"

datatype 'a outcome = Returned 'a | Thrown

type_synonym 'a io = "store \<Rightarrow> 'a outcome \<times> store"

definition ret :: "'a \<Rightarrow> 'a io" where
  "ret x s = (Returned x, s)"

definition bind :: "'a io \<Rightarrow> ('a \<Rightarrow> 'b io) \<Rightarrow> 'b io" where
  "bind m f s = (case m s of (Returned x, s') \<Rightarrow> f x s' | (Thrown, s') \<Rightarrow> (Thrown, s'))"

text \<open>\<open>for (const x of xs) { await f(x) }\<close>: the first rejection leaves the loop.\<close>

fun forEach :: "'a list \<Rightarrow> ('a \<Rightarrow> unit io) \<Rightarrow> unit io" where
  "forEach [] f = ret ()"
| "forEach (x # xs) f = bind (f x) (\<lambda>_. forEach xs f)"

text \<open>
  One awaited database call. When it is rejected the store moves on to its next
  rejection; the calls after it succeed or not as \<open>laterErrors\<close> says.
\<close>

definition afterRejection :: "store \<Rightarrow> store" where
  "afterRejection s =
     s\<lparr>callsUntilError := (case laterErrors s of [] \<Rightarrow> None | k # ks \<Rightarrow> Some k),
       laterErrors := tl (laterErrors s)\<rparr>"

definition storeCall :: "(store \<Rightarrow> 'a outcome \<times> store) \<Rightarrow> 'a io" where
  "storeCall run s =
     (case callsUntilError s of
        None \<Rightarrow> run s
      | Some 0 \<Rightarrow> (Thrown, afterRejection s)
      | Some (Suc k) \<Rightarrow> run (s\<lparr>callsUntilError := Some k\<rparr>))"

record filters =
  f_isRead :: "bool option"
  f_isImportant :: "bool option"
  f_isDeleted :: "bool option"
  f_limit :: "nat option"
  f_offset :: "nat option"

definition noFilters :: filters where
  "noFilters = \<lparr>f_isRead = None, f_isImportant = None, f_isDeleted = None,
                 f_limit = None, f_offset = None\<rparr>"

definition conditions :: "filters \<Rightarrow> email \<Rightarrow> bool" where
  "conditions f e =
     ((case f_isRead f of None \<Rightarrow> True | Some b \<Rightarrow> isRead e = b) \<and>
      (case f_isImportant f of None \<Rightarrow> True | Some b \<Rightarrow> isImportant e = b) \<and>
      (case f_isDeleted f of None \<Rightarrow> True | Some b \<Rightarrow> isDeleted e = b))"

text \<open>
  \<open>ORDER BY received_at DESC\<close>. The database promises no order among rows with equal
  timestamps. Here such rows come out in the order of the list \<open>emails\<close>, which stands
  for the order in which the database happens to scan the table: a statement about every
  store covers every order among them, and the statements below that name a selection
  only ask that it be ordered by time of receipt.
\<close>

definition orderByReceivedAtDesc :: "email list \<Rightarrow> email list" where
  "orderByReceivedAtDesc rows = sort_key (\<lambda>e. - receivedAt e) rows"

definition applyLimit :: "nat option \<Rightarrow> 'a list \<Rightarrow> 'a list" where
  "applyLimit l rows = (case l of None \<Rightarrow> rows | Some n \<Rightarrow> if n = 0 then rows else take n rows)"

definition applyOffset :: "nat option \<Rightarrow> 'a list \<Rightarrow> 'a list" where
  "applyOffset off rows = (case off of None \<Rightarrow> rows | Some n \<Rightarrow> drop n rows)"

definition selectEmails :: "filters \<Rightarrow> email list \<Rightarrow> email list" where
  "selectEmails f rows =
     applyLimit (f_limit f) (applyOffset (f_offset f)
       (orderByReceivedAtDesc (filter (conditions f) rows)))"

definition getEmails :: "filters \<Rightarrow> email list io" where
  "getEmails f = storeCall (\<lambda>s. (Returned (selectEmails f (emails s)), s))"

definition getEmailByMessageId :: "string \<Rightarrow> email option io" where
  "getEmailByMessageId m =
     storeCall (\<lambda>s. (Returned (find (\<lambda>e. messageId e = m) (emails s)), s))"

text \<open>
  \<open>createEmail\<close>: the row takes the next serial id, the current time and the column
  defaults. \<open>message_id\<close> is declared unique, so a second row with the same value is
  rejected by the database; the serial value drawn for it is not given back.
\<close>

definition newEmail :: "int \<Rightarrow> int \<Rightarrow> insert_email \<Rightarrow> email" where
  "newEmail i now d =
     \<lparr>email_id = i, messageId = ins_messageId d, fromEmail = ins_fromEmail d,
      fromName = ins_fromName d, toEmail = ins_toEmail d, subject = ins_subject d,
      textContent = ins_textContent d, htmlContent = ins_htmlContent d, receivedAt = now,
      isRead = (case ins_isRead d of None \<Rightarrow> False | Some b \<Rightarrow> b),
      isImportant = (case ins_isImportant d of None \<Rightarrow> False | Some b \<Rightarrow> b),
      isDeleted = (case ins_isDeleted d of None \<Rightarrow> False | Some b \<Rightarrow> b),
      attachments = ins_attachments d, isForwarded = ins_isForwarded d,
      originalFrom = ins_originalFrom d, originalFromName = ins_originalFromName d,
      originalTo = ins_originalTo d, originalDate = ins_originalDate d,
      originalSubject = ins_originalSubject d,
      actualSenderEmail = ins_actualSenderEmail d,
      actualSenderName = ins_actualSenderName d\<rparr>"

definition createEmail :: "int \<Rightarrow> insert_email \<Rightarrow> email io" where
  "createEmail now d =
     storeCall (\<lambda>s.
       if \<exists>e \<in> set (emails s). messageId e = ins_messageId d
       then (Thrown, s\<lparr>nextEmailId := nextEmailId s + 1\<rparr>)
       else (let e = newEmail (nextEmailId s) now d
             in (Returned e, s\<lparr>emails := emails s @ [e], nextEmailId := nextEmailId s + 1\<rparr>)))"

text \<open>
  \<open>updateEmail(id, updates)\<close>: \<open>UPDATE ... SET updates WHERE id = ...\<close>. The
  dispatcher only ever sets the three flags, so \<open>updates\<close> carries those.
\<close>

record updates =
  u_isRead :: "bool option"
  u_isImportant :: "bool option"
  u_isDeleted :: "bool option"

definition noUpdates :: updates where
  "noUpdates = \<lparr>u_isRead = None, u_isImportant = None, u_isDeleted = None\<rparr>"

definition setUpdates :: "updates \<Rightarrow> email \<Rightarrow> email" where
  "setUpdates u e =
     e\<lparr>isRead := (case u_isRead u of None \<Rightarrow> isRead e | Some b \<Rightarrow> b),
       isImportant := (case u_isImportant u of None \<Rightarrow> isImportant e | Some b \<Rightarrow> b),
       isDeleted := (case u_isDeleted u of None \<Rightarrow> isDeleted e | Some b \<Rightarrow> b)\<rparr>"

definition updateRows :: "int \<Rightarrow> updates \<Rightarrow> email list \<Rightarrow> email list" where
  "updateRows i u rows = map (\<lambda>e. if email_id e = i then setUpdates u e else e) rows"

definition updateEmail :: "int \<Rightarrow> updates \<Rightarrow> email option io" where
  "updateEmail i u =
     storeCall (\<lambda>s.
       (Returned (find (\<lambda>e. email_id e = i) (updateRows i u (emails s))),
        s\<lparr>emails := updateRows i u (emails s)\<rparr>))"

definition deleteEmail :: "int \<Rightarrow> bool io" where
  "deleteEmail i =
     storeCall (\<lambda>s.
       (Returned (\<exists>e \<in> set (emails s). email_id e = i),
        s\<lparr>emails := filter (\<lambda>e. email_id e \<noteq> i) (emails s)\<rparr>))"

text \<open>
  \<open>ILIKE\<close> of PostgreSQL: \<open>%\<close> matches any run of characters, \<open>_\<close> any one
  character, a backslash takes the next character literally, and letter case is
  ignored; which letters the database folds depends on its locale, and they are taken
  to be those of \<open>toLowerCase\<close>. \<open>searchEmails\<close> puts the query between two \<open>%\<close>
  without escaping it. A
  pattern that ends in a lone backslash is rejected by the database; none is built here,
  as every pattern ends in \<open>%\<close>. A \<open>NULL\<close> column matches nothing.
\<close>

fun likeMatch :: "string \<Rightarrow> string \<Rightarrow> bool" where
  "likeMatch [] s = (s = [])"
| "likeMatch (p # ps) s =
     (if p = CHR ''%'' then
        (likeMatch ps s \<or> (case s of [] \<Rightarrow> False | c # t \<Rightarrow> likeMatch (p # ps) t))
      else if p = CHR ''_'' then
        (case s of [] \<Rightarrow> False | c # t \<Rightarrow> likeMatch ps t)
      else if p = CHR 0x5C then
        (case ps of [] \<Rightarrow> False
         | q # qs \<Rightarrow> (case s of [] \<Rightarrow> False | c # t \<Rightarrow> c = q \<and> likeMatch qs t))
      else (case s of [] \<Rightarrow> False | c # t \<Rightarrow> c = p \<and> likeMatch ps t))"

definition ilike :: "string \<Rightarrow> string \<Rightarrow> bool" where
  "ilike column pat = likeMatch (toLowerCase pat) (toLowerCase column)"

definition ilikeNullable :: "string option \<Rightarrow> string \<Rightarrow> bool" where
  "ilikeNullable column pat = (case column of None \<Rightarrow> False | Some c \<Rightarrow> ilike c pat)"

definition searchMatches :: "string \<Rightarrow> email \<Rightarrow> bool" where
  "searchMatches query e =
     (let searchTerm = ''%'' @ toLowerCase query @ ''%''
      in \<not> isDeleted e \<and>
         (ilike (subject e) searchTerm \<or> ilike (fromEmail e) searchTerm \<or>
          ilikeNullable (fromName e) searchTerm \<or> ilikeNullable (textContent e) searchTerm))"

definition searchEmails :: "string \<Rightarrow> email list io" where
  "searchEmails query =
     storeCall (\<lambda>s.
       (Returned (orderByReceivedAtDesc (filter (searchMatches query) (emails s))), s))"



section \<open>Intent resolution (processVoiceCommand)\<close>

text \<open>
  The parameter bag has the fields and types of the interface \<open>VoiceCommandIntent\<close>;
  an absent field is \<open>None\<close>. The action and the confidence of an intent are read from
  the provider's JSON without a check: the action the resolver returns is any JSON value
  and its confidence any number. The route handler lets only an intent whose action is a
  string reach the dispatcher. So the record of an intent is given once, for both kinds
  of action: \<open>resolved_intent\<close> is what the resolver returns and \<open>intent\<close> what the
  dispatcher sees.
\<close>

record parameters =
  p_query :: "string option"
  p_emailId :: "int option"
  p_sender :: "string option"
  p_subject :: "string option"
  p_all :: "bool option"
  p_recipient :: "string option"
  p_message :: "string option"
  p_timeframe :: "string option"
  p_tab :: "string option"

definition noParameters :: parameters where
  "noParameters = \<lparr>p_query = None, p_emailId = None, p_sender = None, p_subject = None,
                    p_all = None, p_recipient = None, p_message = None, p_timeframe = None,
                    p_tab = None\<rparr>"

record 'a voice_command_intent =
  action :: 'a
  parameters :: "parameters option"
  confidence :: number

type_synonym resolved_intent = "json voice_command_intent"

type_synonym intent = "string voice_command_intent"

text \<open>
  What the provider call and \<open>JSON.parse\<close> leave the resolver with: the call rejects
  (or the response has no choice to read), the content is null or empty, the content is
  not JSON, it is the JSON \<open>null\<close>, or it is an object whose three fields may each be
  absent. A JSON number, string or array has none of the three fields and behaves as the
  empty object. The fields \<open>action\<close> and \<open>confidence\<close> hold whatever JSON value the
  provider wrote; the parameter bag is read with the field types the interface declares.
\<close>

record raw_intent =
  raw_action :: "json option"
  raw_parameters :: "parameters option"
  raw_confidence :: "json option"

datatype provider_reply =
  ProviderError | NoContent | NotJson | JsonNull | JsonObject raw_intent

definition emptyObject :: raw_intent where
  "emptyObject = \<lparr>raw_action = None, raw_parameters = None, raw_confidence = None\<rparr>"

text \<open>\<open>x || d\<close> on a field of the parsed object, and on an optional string.\<close>

definition orValue :: "json option \<Rightarrow> json \<Rightarrow> json" where
  "orValue x d = (case x of None \<Rightarrow> d | Some v \<Rightarrow> if truthy v then v else d)"

definition orString :: "string option \<Rightarrow> string \<Rightarrow> string" where
  "orString x d = (case x of None \<Rightarrow> d | Some s \<Rightarrow> if s = [] then d else s)"

text \<open>
  The object the resolver builds from the parsed reply. \<open>Math.min\<close> converts the
  confidence to a number; when that conversion throws, nothing is built.
\<close>

definition normalizeResult :: "(json \<Rightarrow> number option) \<Rightarrow> raw_intent \<Rightarrow> resolved_intent option" where
  "normalizeResult coerce r =
     (case ToNumber coerce (orValue (raw_confidence r) (JNumber (Finite (1 / 2)))) of
        None \<Rightarrow> None
      | Some n \<Rightarrow>
          Some \<lparr>action = orValue (raw_action r) (JString ''unknown''),
                parameters = Some (case raw_parameters r of None \<Rightarrow> noParameters | Some p \<Rightarrow> p),
                confidence = Math_max (Finite 0) (Math_min (Finite 1) n)\<rparr>)"

definition unknownIntent :: resolved_intent where
  "unknownIntent = \<lparr>action = JString ''unknown'', parameters = None, confidence = Finite 0\<rparr>"

text \<open>
  The resolver: everything that is thrown inside its \<open>try\<close> block ends in the
  \<open>catch\<close>, which returns the unknown intent.
\<close>

definition processVoiceCommand ::
  "(json \<Rightarrow> number option) \<Rightarrow> (string \<Rightarrow> provider_reply) \<Rightarrow> string \<Rightarrow> resolved_intent" where
  "processVoiceCommand coerce nlu transcript =
     (case nlu transcript of
        ProviderError \<Rightarrow> unknownIntent
      | NoContent \<Rightarrow>
          (case normalizeResult coerce emptyObject of None \<Rightarrow> unknownIntent | Some i \<Rightarrow> i)
      | NotJson \<Rightarrow> unknownIntent
      | JsonNull \<Rightarrow> unknownIntent
      | JsonObject r \<Rightarrow>
          (case normalizeResult coerce r of None \<Rightarrow> unknownIntent | Some i \<Rightarrow> i))"

text \<open>
  \<open>generateEmailSummary\<close> answers the empty list itself and otherwise returns what
  the language model (or its own error handler) gives: the parameter \<open>llm\<close>.
\<close>

definition generateEmailSummary :: "(email list \<Rightarrow> string) \<Rightarrow> email list \<Rightarrow> string" where
  "generateEmailSummary llm es =
     (if es = [] then ''You don't have any emails to show you right now.'' else llm es)"

section \<open>Action dispatch (server/routes.ts, POST /api/voice/command)\<close>

record command_result =
  r_intent :: intent
  r_emails :: "email list option"
  r_summary :: "string option"
  r_switchTab :: "string option"

definition initialResult :: "intent \<Rightarrow> command_result" where
  "initialResult i = \<lparr>r_intent = i, r_emails = None, r_summary = None, r_switchTab = None\<rparr>"

text \<open>\<open>intent.parameters?.field\<close>, and the truthiness of each kind of field.\<close>

definition param :: "(parameters \<Rightarrow> 'a option) \<Rightarrow> intent \<Rightarrow> 'a option" where
  "param field i = (case parameters i of None \<Rightarrow> None | Some p \<Rightarrow> field p)"

definition truthyFlag :: "bool option \<Rightarrow> bool" where
  "truthyFlag x = (x = Some True)"

definition truthyString :: "string option \<Rightarrow> string option" where
  "truthyString x = (case x of None \<Rightarrow> None | Some s \<Rightarrow> if s = [] then None else Some s)"

definition truthyNumber :: "int option \<Rightarrow> int option" where
  "truthyNumber x = (case x of None \<Rightarrow> None | Some n \<Rightarrow> if n = 0 then None else Some n)"

definition dquote :: string where
  "dquote = [CHR 0x22]"

definition plural :: "nat \<Rightarrow> string" where
  "plural n = (if n > 1 then ''s'' else [])"

definition withSummary :: "string \<Rightarrow> command_result \<Rightarrow> command_result" where
  "withSummary t r = r\<lparr>r_summary := Some t\<rparr>"

definition withEmails :: "email list \<Rightarrow> command_result \<Rightarrow> command_result" where
  "withEmails es r = r\<lparr>r_emails := Some es\<rparr>"

text \<open>The body of every bulk loop: one awaited \<open>updateEmail\<close> whose result is dropped.\<close>

definition updateEach :: "updates \<Rightarrow> email list \<Rightarrow> unit io" where
  "updateEach u es = forEach es (\<lambda>e. bind (updateEmail (email_id e) u) (\<lambda>_. ret ()))"

definition deleteEach :: "email list \<Rightarrow> unit io" where
  "deleteEach es = forEach es (\<lambda>e. bind (deleteEmail (email_id e)) (\<lambda>_. ret ()))"

definition readEmailsCase :: "(email list \<Rightarrow> string) \<Rightarrow> intent \<Rightarrow> command_result io" where
  "readEmailsCase llm i =
     bind (getEmails (noFilters\<lparr>
             f_isRead := (if action i = ''get_unread'' then Some False
                          else if action i = ''get_read'' then Some True else None),
             f_isDeleted := Some False, f_limit := Some 5\<rparr>))
       (\<lambda>es. ret
          (if length es > 0 then
             withSummary (generateEmailSummary llm es) (withEmails es (initialResult i))
           else withSummary
             (if action i = ''get_unread''
              then ''Great news! You're all caught up - no unread emails in your inbox.''
              else if action i = ''get_read''
              then ''You don't have any read emails in your inbox.''
              else ''Your inbox is empty right now.'') (initialResult i)))"

definition searchEmailsCase :: "(email list \<Rightarrow> string) \<Rightarrow> intent \<Rightarrow> command_result io" where
  "searchEmailsCase llm i =
     (case truthyString (param p_sender i) of
        Some sender \<Rightarrow>
          bind (searchEmails sender) (\<lambda>searchResults. ret
            (withSummary
               (if length searchResults > 0 then
                  ''I found '' @ showNat (length searchResults) @ '' email'' @
                  plural (length searchResults) @ '' from '' @ sender @ ''. '' @
                  generateEmailSummary llm searchResults
                else ''I couldn't find any emails from '' @ sender @
                  ''. Double-check the name or try searching for something else.'')
               (withEmails searchResults (initialResult i))))
      | None \<Rightarrow>
         (case truthyString (param p_query i) of
            Some query \<Rightarrow>
              bind (searchEmails query) (\<lambda>searchResults. ret
                (withSummary
                   (if length searchResults > 0 then
                      ''I found '' @ showNat (length searchResults) @ '' email'' @
                      plural (length searchResults) @ '' matching '' @ dquote @ query @
                      dquote @ ''. '' @ generateEmailSummary llm searchResults
                    else ''No emails found for '' @ dquote @ query @ dquote @
                      ''. Try different keywords or check the spelling.'')
                   (withEmails searchResults (initialResult i))))
          | None \<Rightarrow> ret (withSummary
              (''What would you like me to search for? You can say something like '' @
               [CHR 0x27] @ ''find emails from Sarah' or 'search for meeting emails'.'')
              (initialResult i))))"

definition markAsReadCase :: "intent \<Rightarrow> command_result io" where
  "markAsReadCase i =
     (if truthyFlag (param p_all i) then
        bind (getEmails (noFilters\<lparr>f_isRead := Some False, f_isDeleted := Some False\<rparr>))
          (\<lambda>unreadEmails.
             bind (updateEach (noUpdates\<lparr>u_isRead := Some True\<rparr>) unreadEmails)
               (\<lambda>_. ret (withSummary
                  (if length unreadEmails > 0 then
                     ''Perfect! I've marked all '' @ showNat (length unreadEmails) @
                     '' unread emails as read. Your inbox is now clean.''
                   else ''You're already all caught up - no unread emails to mark!'')
                  (initialResult i))))
      else (case truthyNumber (param p_emailId i) of
        Some n \<Rightarrow>
          bind (updateEmail n (noUpdates\<lparr>u_isRead := Some True\<rparr>))
            (\<lambda>_. ret (withSummary ''Done! Marked that email as read.'' (initialResult i)))
      | None \<Rightarrow> ret (withSummary
          (''I'd be happy to mark emails as read. Just let me know which ones - '' @
           ''you can say 'mark all as read' or specify particular emails.'')
          (initialResult i))))"

definition deleteEmailsCase :: "intent \<Rightarrow> command_result io" where
  "deleteEmailsCase i =
     (if truthyFlag (param p_all i) then
        bind (getEmails (noFilters\<lparr>f_isDeleted := Some False\<rparr>))
          (\<lambda>allEmails.
             bind (updateEach (noUpdates\<lparr>u_isDeleted := Some True\<rparr>) allEmails)
               (\<lambda>_. ret (withSummary
                  (if length allEmails > 0 then
                     ''I've deleted all '' @ showNat (length allEmails) @
                     '' emails from your inbox. Your inbox is now completely clean.''
                   else ''Your inbox is already empty - nothing to delete.'')
                  (initialResult i))))
      else (case truthyNumber (param p_emailId i) of
        Some n \<Rightarrow>
          bind (updateEmail n (noUpdates\<lparr>u_isDeleted := Some True\<rparr>))
            (\<lambda>_. ret (withSummary ''Email deleted successfully.'' (initialResult i)))
      | None \<Rightarrow> ret (withSummary
          (''I can help you delete emails. Just specify which ones - '' @
           ''you can say 'delete all emails' or mention specific emails.'')
          (initialResult i))))"

definition markImportantCase :: "intent \<Rightarrow> command_result io" where
  "markImportantCase i =
     (if truthyFlag (param p_all i) then
        bind (getEmails (noFilters\<lparr>f_isDeleted := Some False\<rparr>))
          (\<lambda>es.
             bind (updateEach (noUpdates\<lparr>u_isImportant := Some True\<rparr>) es)
               (\<lambda>_. ret (withSummary
                  (''Marked all '' @ showNat (length es) @ '' emails as important.'')
                  (initialResult i))))
      else (case truthyNumber (param p_emailId i) of
        Some n \<Rightarrow>
          bind (updateEmail n (noUpdates\<lparr>u_isImportant := Some True\<rparr>))
            (\<lambda>_. ret (withSummary ''Email marked as important.'' (initialResult i)))
      | None \<Rightarrow>
          bind (getEmails (noFilters\<lparr>f_isDeleted := Some False, f_limit := Some 1\<rparr>))
            (\<lambda>recentEmails.
               (case recentEmails of
                  e # _ \<Rightarrow>
                    bind (updateEmail (email_id e) (noUpdates\<lparr>u_isImportant := Some True\<rparr>))
                      (\<lambda>_. ret (withSummary ''Most recent email marked as important.''
                                   (initialResult i)))
                | [] \<Rightarrow> ret (withSummary ''No emails found to mark as important.''
                               (initialResult i))))))"

definition getImportantCase :: "(email list \<Rightarrow> string) \<Rightarrow> intent \<Rightarrow> command_result io" where
  "getImportantCase llm i =
     bind (getEmails (noFilters\<lparr>f_isImportant := Some True, f_isDeleted := Some False\<rparr>))
       (\<lambda>importantEmails. ret
          (withSummary
             (if length importantEmails > 0 then
                ''You have '' @ showNat (length importantEmails) @ '' important email'' @
                plural (length importantEmails) @ ''. '' @
                generateEmailSummary llm importantEmails
              else ''You don't have any emails marked as important right now.'')
             (withEmails importantEmails (initialResult i))))"

definition getRecentCase :: "(email list \<Rightarrow> string) \<Rightarrow> intent \<Rightarrow> command_result io" where
  "getRecentCase llm i =
     (let timeframe = orString (param p_timeframe i) ''recent'' in
      bind (getEmails (noFilters\<lparr>f_isDeleted := Some False, f_limit := Some 10\<rparr>))
        (\<lambda>recentEmails. ret
           (withSummary
              (if length recentEmails > 0 then
                 ''Here are your '' @ timeframe @ '' emails. '' @
                 generateEmailSummary llm recentEmails
               else ''No recent emails found.'')
              (withEmails recentEmails (initialResult i)))))"

definition archiveEmailsCase :: "intent \<Rightarrow> command_result io" where
  "archiveEmailsCase i =
     (if truthyFlag (param p_all i) then
        bind (getEmails (noFilters\<lparr>f_isDeleted := Some False\<rparr>))
          (\<lambda>es.
             bind (updateEach (noUpdates\<lparr>u_isDeleted := Some True\<rparr>) es)
               (\<lambda>_. ret (withSummary
                  (''Archived all '' @ showNat (length es) @
                   '' emails. Your inbox is now clean.'')
                  (initialResult i))))
      else (case truthyString (param p_query i) of
        Some query \<Rightarrow>
          bind (searchEmails query)
            (\<lambda>searchResults.
               bind (updateEach (noUpdates\<lparr>u_isDeleted := Some True\<rparr>) searchResults)
                 (\<lambda>_. ret (withSummary
                    (''Archived '' @ showNat (length searchResults) @
                     '' emails matching '' @ dquote @ query @ dquote @ ''.'')
                    (initialResult i))))
      | None \<Rightarrow> ret (withSummary
          (''Which emails would you like to archive? You can say '' @
           [CHR 0x27] @ ''archive all emails' or 'archive emails from Sarah'.'')
          (initialResult i))))"

definition composeEmailCase :: "intent \<Rightarrow> command_result io" where
  "composeEmailCase i =
     (let recipient = orString (param p_recipient i) ''someone'' in
      ret (withSummary
        (''I'd love to help you compose an email to '' @ recipient @
         ''. Email composition features are coming soon. '' @
         ''For now, you can manage your existing emails.'')
        (initialResult i)))"

definition replyEmailCase :: "intent \<Rightarrow> command_result io" where
  "replyEmailCase i =
     ret (withSummary
       (''Email reply features are coming soon. '' @
        ''I can help you read, search, and organize your current emails.'')
       (initialResult i))"

definition forwardEmailCase :: "intent \<Rightarrow> command_result io" where
  "forwardEmailCase i =
     (let forwardRecipient = orString (param p_recipient i) ''someone'' in
      ret (withSummary
        (''Email forwarding to '' @ forwardRecipient @
         '' will be available soon. I can help you manage your current inbox.'')
        (initialResult i)))"

text \<open>
  The \<open>sender\<close> branch of restore: \<open>fromEmail\<close> or \<open>fromName\<close> contains the sender,
  letter case ignored.
\<close>

definition fromSender :: "string \<Rightarrow> email \<Rightarrow> bool" where
  "fromSender senderName e =
     (includes_str (toLowerCase (fromEmail e)) (toLowerCase senderName) \<or>
      (case fromName e of
         None \<Rightarrow> False
       | Some n \<Rightarrow> n \<noteq> [] \<and> includes_str (toLowerCase n) (toLowerCase senderName)))"

definition restoreEmailsCase :: "intent \<Rightarrow> command_result io" where
  "restoreEmailsCase i =
     (if truthyFlag (param p_all i) then
        bind (getEmails (noFilters\<lparr>f_isDeleted := Some True\<rparr>))
          (\<lambda>archivedEmails.
             bind (updateEach (noUpdates\<lparr>u_isDeleted := Some False\<rparr>) archivedEmails)
               (\<lambda>_. ret (withSummary
                  (''Restored '' @ showNat (length archivedEmails) @
                   '' emails from archive back to your inbox.'')
                  (initialResult i))))
      else (case truthyString (param p_sender i) of
        Some senderName \<Rightarrow>
          bind (getEmails (noFilters\<lparr>f_isDeleted := Some True\<rparr>))
            (\<lambda>archivedEmails.
               (let senderEmails = filter (fromSender senderName) archivedEmails in
                bind (updateEach (noUpdates\<lparr>u_isDeleted := Some False\<rparr>) senderEmails)
                  (\<lambda>_. ret (withSummary
                     (''Restored '' @ showNat (length senderEmails) @
                      '' archived emails from '' @ senderName @ '' back to your inbox.'')
                     (initialResult i)))))
      | None \<Rightarrow>
         (case truthyString (param p_query i) of
            Some query \<Rightarrow>
              bind (searchEmails query)
                (\<lambda>searchResults.
                   (let archivedResults = filter isDeleted searchResults in
                    bind (updateEach (noUpdates\<lparr>u_isDeleted := Some False\<rparr>) archivedResults)
                      (\<lambda>_. ret (withSummary
                         (''Restored '' @ showNat (length archivedResults) @
                          '' archived emails matching '' @ dquote @ query @ dquote @
                          '' back to your inbox.'')
                         (initialResult i)))))
          | None \<Rightarrow> ret (withSummary
              (''Which archived emails would you like to restore? You can say '' @
               [CHR 0x27] @ ''restore all archived emails' or 'restore emails from Sarah'.'')
              (initialResult i)))))"

definition markUnreadCase :: "intent \<Rightarrow> command_result io" where
  "markUnreadCase i =
     (if truthyFlag (param p_all i) then
        bind (getEmails (noFilters\<lparr>f_isDeleted := Some False\<rparr>))
          (\<lambda>es.
             bind (updateEach (noUpdates\<lparr>u_isRead := Some False\<rparr>) es)
               (\<lambda>_. ret (withSummary
                  (''Marked all '' @ showNat (length es) @ '' emails as unread.'')
                  (initialResult i))))
      else (case truthyNumber (param p_emailId i) of
        Some n \<Rightarrow>
          bind (updateEmail n (noUpdates\<lparr>u_isRead := Some False\<rparr>))
            (\<lambda>_. ret (withSummary ''Email marked as unread.'' (initialResult i)))
      | None \<Rightarrow>
          bind (getEmails (noFilters\<lparr>f_isDeleted := Some False, f_limit := Some 1\<rparr>))
            (\<lambda>recentEmails.
               (case recentEmails of
                  e # _ \<Rightarrow>
                    bind (updateEmail (email_id e) (noUpdates\<lparr>u_isRead := Some False\<rparr>))
                      (\<lambda>_. ret (withSummary ''Most recent email marked as unread.''
                                   (initialResult i)))
                | [] \<Rightarrow> ret (withSummary ''No emails found to mark as unread.''
                               (initialResult i))))))"

definition removeImportantCase :: "intent \<Rightarrow> command_result io" where
  "removeImportantCase i =
     (if truthyFlag (param p_all i) then
        bind (getEmails (noFilters\<lparr>f_isImportant := Some True, f_isDeleted := Some False\<rparr>))
          (\<lambda>importantEmails.
             bind (updateEach (noUpdates\<lparr>u_isImportant := Some False\<rparr>) importantEmails)
               (\<lambda>_. ret (withSummary
                  (''Removed important flag from '' @ showNat (length importantEmails) @
                   '' emails.'')
                  (initialResult i))))
      else (case truthyNumber (param p_emailId i) of
        Some n \<Rightarrow>
          bind (updateEmail n (noUpdates\<lparr>u_isImportant := Some False\<rparr>))
            (\<lambda>_. ret (withSummary ''Removed important flag from email.'' (initialResult i)))
      | None \<Rightarrow>
          bind (getEmails (noFilters\<lparr>f_isImportant := Some True, f_isDeleted := Some False,
                                      f_limit := Some 1\<rparr>))
            (\<lambda>importantEmails.
               (case importantEmails of
                  e # _ \<Rightarrow>
                    bind (updateEmail (email_id e) (noUpdates\<lparr>u_isImportant := Some False\<rparr>))
                      (\<lambda>_. ret (withSummary
                         ''Removed important flag from most recent important email.''
                         (initialResult i)))
                | [] \<Rightarrow> ret (withSummary ''No important emails found to modify.''
                               (initialResult i))))))"

definition getArchivedCase :: "(email list \<Rightarrow> string) \<Rightarrow> intent \<Rightarrow> command_result io" where
  "getArchivedCase llm i =
     bind (getEmails (noFilters\<lparr>f_isDeleted := Some True\<rparr>))
       (\<lambda>archivedEmails. ret
          (withSummary
             (if length archivedEmails > 0 then
                ''You have '' @ showNat (length archivedEmails) @ '' archived email'' @
                plural (length archivedEmails) @ ''. '' @
                generateEmailSummary llm archivedEmails
              else ''You don't have any archived emails.'')
             (withEmails archivedEmails (initialResult i))))"

definition matchesTerm :: "string \<Rightarrow> email \<Rightarrow> bool" where
  "matchesTerm queryTerm e =
     (includes_str (toLowerCase (subject e)) (toLowerCase queryTerm) \<or>
      (case textContent e of
         None \<Rightarrow> False
       | Some t \<Rightarrow> t \<noteq> [] \<and> includes_str (toLowerCase t) (toLowerCase queryTerm)))"

definition permanentlyDeleteCase :: "intent \<Rightarrow> command_result io" where
  "permanentlyDeleteCase i =
     (if truthyFlag (param p_all i) then
        bind (getEmails (noFilters\<lparr>f_isDeleted := Some True\<rparr>))
          (\<lambda>archivedEmails.
             bind (deleteEach archivedEmails)
               (\<lambda>_. ret (withSummary
                  (''Permanently deleted '' @ showNat (length archivedEmails) @
                   '' archived emails. This action cannot be undone.'')
                  (initialResult i))))
      else (case truthyString (param p_query i) of
        Some queryTerm \<Rightarrow>
          bind (getEmails (noFilters\<lparr>f_isDeleted := Some True\<rparr>))
            (\<lambda>archivedEmails.
               (let matchingEmails = filter (matchesTerm queryTerm) archivedEmails in
                bind (deleteEach matchingEmails)
                  (\<lambda>_. ret (withSummary
                     (''Permanently deleted '' @ showNat (length matchingEmails) @
                      '' emails matching '' @ dquote @ queryTerm @ dquote @
                      ''. This action cannot be undone.'')
                     (initialResult i)))))
      | None \<Rightarrow> ret (withSummary
          (''Which emails would you like to permanently delete? You can say '' @
           [CHR 0x27] @ ''permanently delete all archived emails' or specify a search term.'')
          (initialResult i))))"

definition switchTabCase :: "intent \<Rightarrow> command_result io" where
  "switchTabCase i =
     (let tabName = orString (param p_tab i) ''all'' in
      ret ((withSummary
        (''Switched to '' @ tabName @ '' tab. You can now see your '' @ tabName @ '' emails.'')
        (initialResult i))\<lparr>r_switchTab := Some tabName\<rparr>))"

definition defaultCase :: "intent \<Rightarrow> command_result io" where
  "defaultCase i =
     ret (withSummary
       (''I can help you read emails, search, mark as read/unread/important, '' @
        ''archive/restore emails, switch tabs, or permanently delete them. '' @
        ''What would you like me to do?'')
       (initialResult i))"

text \<open>The \<open>switch (intent.action)\<close>.\<close>

definition execute :: "(email list \<Rightarrow> string) \<Rightarrow> intent \<Rightarrow> command_result io" where
  "execute llm i =
     (let a = action i in
      if a = ''read_emails'' \<or> a = ''get_unread'' \<or> a = ''get_read'' then readEmailsCase llm i
      else if a = ''search_emails'' then searchEmailsCase llm i
      else if a = ''mark_as_read'' then markAsReadCase i
      else if a = ''delete_emails'' then deleteEmailsCase i
      else if a = ''mark_important'' then markImportantCase i
      else if a = ''get_important'' then getImportantCase llm i
      else if a = ''get_recent'' then getRecentCase llm i
      else if a = ''archive_emails'' then archiveEmailsCase i
      else if a = ''compose_email'' then composeEmailCase i
      else if a = ''reply_email'' then replyEmailCase i
      else if a = ''forward_email'' then forwardEmailCase i
      else if a = ''restore_emails'' \<or> a = ''unarchive_emails'' then restoreEmailsCase i
      else if a = ''mark_unread'' then markUnreadCase i
      else if a = ''remove_important'' then removeImportantCase i
      else if a = ''get_archived'' then getArchivedCase llm i
      else if a = ''permanently_delete'' then permanentlyDeleteCase i
      else if a = ''switch_tab'' then switchTabCase i
      else defaultCase i)"

text \<open>
  The route handler. A missing, non-string or empty transcript is answered 400. The log
  entry goes through \<open>insertVoiceCommandSchema.parse\<close>, which throws unless the action
  is a string and \<open>Math.round(confidence * 100)\<close> a number; that value is \<open>NaN\<close>
  when the confidence is, and an infinite confidence, which the resolver never returns,
  would be refused by the integer column at the latest. The command is logged before the
  switch runs, and the switch compares the action with its string labels. Whatever is
  thrown inside the \<open>try\<close> block is answered 500 by the \<open>catch\<close>, and what the store
  has already written stays written.
\<close>

datatype 'a response = Status200 'a | Status400 string | Status500 string



text \<open>\<open>res.json(result)\<close> at the end of the \<open>try\<close> block, and the \<open>catch\<close>.\<close>

definition respond :: "command_result outcome \<times> store \<Rightarrow> command_result response \<times> store" where
  "respond r =
     (case r of
        (Returned result, s') \<Rightarrow> (Status200 result, s')
      | (Thrown, s') \<Rightarrow> (Status500 ''Failed to process voice command'', s'))"


section \<open>Ingestion (server/lib/postmark.ts and POST /api/webhooks/postmark)\<close>

record postmark_webhook_data =
  MessageID :: string
  From :: string
  FromName :: "string option"
  To :: string
  Subject :: string
  TextBody :: "string option"
  HtmlBody :: "string option"
  Date :: string
  Attachments :: "string list option"

record forwarded_email_info =
  fw_originalFrom :: "string option"
  fw_originalFromName :: "string option"
  fw_originalTo :: "string option"
  fw_originalDate :: "string option"
  fw_originalSubject :: "string option"

record processed_email =
  pe_messageId :: string
  pe_fromEmail :: string
  pe_fromName :: "string option"
  pe_toEmail :: string
  pe_subject :: string
  pe_textContent :: "string option"
  pe_htmlContent :: "string option"
  pe_attachments :: "string list"
  pe_isForwarded :: bool
  pe_forwardedInfo :: "forwarded_email_info option"
  pe_actualSenderEmail :: "string option"
  pe_actualSenderName :: "string option"

text \<open>
  \<open>parseForwardedEmailInfo\<close> is a chain of regular expressions over the text body; it
  is the parameter \<open>parse\<close>. \<open>Attachments\<close> holds the attachment names. The parsed
  \<open>receivedAt\<close> date is left out: the route does not store it.
\<close>

definition forwardedField ::
  "forwarded_email_info option \<Rightarrow> (forwarded_email_info \<Rightarrow> string option) \<Rightarrow> string option" where
  "forwardedField info field = (case info of None \<Rightarrow> None | Some fi \<Rightarrow> field fi)"

definition processPostmarkWebhook ::
  "(string option \<Rightarrow> forwarded_email_info option) \<Rightarrow> postmark_webhook_data \<Rightarrow> processed_email" where
  "processPostmarkWebhook parse webhookData =
     (let forwardedInfo = parse (TextBody webhookData);
          isForwarded = (forwardedInfo \<noteq> None)
      in \<lparr>pe_messageId = MessageID webhookData,
          pe_fromEmail =
            (case truthyString (forwardedField forwardedInfo fw_originalFrom) of
               Some x \<Rightarrow> x | None \<Rightarrow> From webhookData),
          pe_fromName =
            (case truthyString (forwardedField forwardedInfo fw_originalFromName) of
               Some x \<Rightarrow> Some x | None \<Rightarrow> FromName webhookData),
          pe_toEmail = To webhookData,
          pe_subject =
            (case truthyString (forwardedField forwardedInfo fw_originalSubject) of
               Some x \<Rightarrow> x | None \<Rightarrow> Subject webhookData),
          pe_textContent = TextBody webhookData,
          pe_htmlContent = HtmlBody webhookData,
          pe_attachments = (case Attachments webhookData of None \<Rightarrow> [] | Some names \<Rightarrow> names),
          pe_isForwarded = isForwarded,
          pe_forwardedInfo = forwardedInfo,
          pe_actualSenderEmail = (if isForwarded then Some (From webhookData) else None),
          pe_actualSenderName = (if isForwarded then FromName webhookData else None)\<rparr>)"

text \<open>The object the route passes through \<open>insertEmailSchema.parse\<close>.\<close>

definition emailData :: "processed_email \<Rightarrow> insert_email" where
  "emailData p =
     \<lparr>ins_messageId = pe_messageId p, ins_fromEmail = pe_fromEmail p,
      ins_fromName = pe_fromName p, ins_toEmail = pe_toEmail p, ins_subject = pe_subject p,
      ins_textContent = pe_textContent p, ins_htmlContent = pe_htmlContent p,
      ins_isRead = None, ins_isImportant = None, ins_isDeleted = None,
      ins_attachments = pe_attachments p, ins_isForwarded = pe_isForwarded p,
      ins_originalFrom = forwardedField (pe_forwardedInfo p) fw_originalFrom,
      ins_originalFromName = forwardedField (pe_forwardedInfo p) fw_originalFromName,
      ins_originalTo = forwardedField (pe_forwardedInfo p) fw_originalTo,
      ins_originalDate = forwardedField (pe_forwardedInfo p) fw_originalDate,
      ins_originalSubject = forwardedField (pe_forwardedInfo p) fw_originalSubject,
      ins_actualSenderEmail = None, ins_actualSenderName = None\<rparr>"

record webhook_reply =
  wr_message :: string
  wr_emailId :: "int option"

text \<open>
  The request body is \<open>None\<close> when \<open>validatePostmarkWebhook\<close> refuses it (one of the five
  required strings is missing) and the typed payload otherwise.
\<close>

definition postmarkWebhook ::
  "(string option \<Rightarrow> forwarded_email_info option) \<Rightarrow> int \<Rightarrow> postmark_webhook_data option \<Rightarrow>
   store \<Rightarrow> webhook_reply response \<times> store" where
  "postmarkWebhook parse now body s =
     (case body of
        None \<Rightarrow> (Status400 ''Invalid webhook data'', s)
      | Some webhookData \<Rightarrow>
         (let processedEmail = processPostmarkWebhook parse webhookData in
          case bind (getEmailByMessageId (pe_messageId processedEmail))
                 (\<lambda>existingEmail.
                    case existingEmail of
                      Some _ \<Rightarrow> ret \<lparr>wr_message = ''Email already processed'', wr_emailId = None\<rparr>
                    | None \<Rightarrow>
                        bind (createEmail now (emailData processedEmail))
                          (\<lambda>e. ret \<lparr>wr_message = ''Email processed successfully'',
                                     wr_emailId = Some (email_id e)\<rparr>)) s of
            (Returned r, s') \<Rightarrow> (Status200 r, s')
          | (Thrown, s') \<Rightarrow> (Status500 ''Failed to process webhook'', s')))"

section \<open>Audio delivery (server/lib/voice-manager.ts)\<close>

record quota_info =
  charactersUsed :: int
  charactersLimit :: int
  charactersRemaining :: int
  lastChecked :: int

text \<open>
  The manager holds the cached quota. \<open>requests\<close> records, in order, every network
  call the manager has issued; the source keeps no such list, it is here so that "no
  call was made" can be stated.
\<close>

datatype net_call = SubscriptionRequest | TextToSpeechRequest

record voice_manager =
  quotaInfo :: "quota_info option"
  requests :: "net_call list"

text \<open>
  The surroundings of one call: the credential in the process environment, the clock,
  the provider's answer to the subscription request (the fetch rejects or its body is
  not JSON; a status that is not ok; an ok body with its two counters, each possibly
  absent) and its answer to a speech request.
\<close>

datatype subscription_reply = FetchFails | NotOk | OkBody "int option" "int option"

datatype speech_reply = Audio "nat list" | SpeechFails

record tts_env =
  apiKey :: "string option"
  clock :: int
  subscription :: subscription_reply
  speech :: "string \<Rightarrow> speech_reply"

definition quotaCacheTime :: int where
  "quotaCacheTime = 5 * 60 * 1000"

definition orInt :: "int option \<Rightarrow> int \<Rightarrow> int" where
  "orInt x d = (case x of None \<Rightarrow> d | Some n \<Rightarrow> if n = 0 then d else n)"

definition cacheFresh :: "tts_env \<Rightarrow> voice_manager \<Rightarrow> quota_info option" where
  "cacheFresh env vm =
     (case quotaInfo vm of
        None \<Rightarrow> None
      | Some q \<Rightarrow> if clock env - lastChecked q < quotaCacheTime then Some q else None)"

definition checkQuotaStatus :: "tts_env \<Rightarrow> voice_manager \<Rightarrow> quota_info option \<times> voice_manager" where
  "checkQuotaStatus env vm =
     (case truthyString (apiKey env) of
        None \<Rightarrow> (None, vm)
      | Some key \<Rightarrow>
         (case cacheFresh env vm of
            Some q \<Rightarrow> (Some q, vm)
          | None \<Rightarrow>
             (let vm' = vm\<lparr>requests := requests vm @ [SubscriptionRequest]\<rparr> in
              case subscription env of
                OkBody character_count character_limit \<Rightarrow>
                  (let q = \<lparr>charactersUsed = orInt character_count 0,
                            charactersLimit = orInt character_limit 10000,
                            charactersRemaining =
                              orInt character_limit 10000 - orInt character_count 0,
                            lastChecked = clock env\<rparr>
                   in (Some q, vm'\<lparr>quotaInfo := Some q\<rparr>))
              | NotOk \<Rightarrow> (None, vm')
              | FetchFails \<Rightarrow> (None, vm'))))"

definition canHandleRequest ::
  "(real \<Rightarrow> real \<Rightarrow> real) \<Rightarrow> tts_env \<Rightarrow> nat \<Rightarrow> voice_manager \<Rightarrow> bool \<times> voice_manager" where
  "canHandleRequest fmul env textLength vm =
     (case checkQuotaStatus env vm of
        (None, vm') \<Rightarrow> (False, vm')
      | (Some quota, vm') \<Rightarrow>
         (let requiredChars = Math_ceil (fmul (real textLength) (11 / 10))
          in (charactersRemaining quota \<ge> requiredChars, vm')))"

record speech_result =
  success :: bool
  audioBuffer :: "nat list option"
  useWebSpeech :: "bool option"
  message :: "string option"

text \<open>
  \<open>generateSpeech\<close> of elevenlabs.ts, as the manager reaches it (the credential is
  set): one request to the provider, whose failure is thrown.
\<close>

definition generateSpeech :: "tts_env \<Rightarrow> string \<Rightarrow> voice_manager \<Rightarrow> speech_reply \<times> voice_manager" where
  "generateSpeech env t vm = (speech env t, vm\<lparr>requests := requests vm @ [TextToSpeechRequest]\<rparr>)"

definition generateSpeechWithFallback ::
  "(real \<Rightarrow> real \<Rightarrow> real) \<Rightarrow> tts_env \<Rightarrow> string \<Rightarrow> voice_manager \<Rightarrow> speech_result \<times> voice_manager" where
  "generateSpeechWithFallback fmul env t vm =
     (case canHandleRequest fmul env (length t) vm of
        (False, vm') \<Rightarrow>
          (\<lparr>success = True, audioBuffer = None, useWebSpeech = Some True,
            message = Some ''Using browser speech synthesis due to service quota limitations''\<rparr>,
           vm')
      | (True, vm') \<Rightarrow>
         (case generateSpeech env t vm' of
            (Audio buffer, vm'') \<Rightarrow>
              (\<lparr>success = True, audioBuffer = Some buffer, useWebSpeech = None,
                message = None\<rparr>, vm'')
          | (SpeechFails, vm'') \<Rightarrow>
              (\<lparr>success = True, audioBuffer = None, useWebSpeech = Some True,
                message = Some ''Using browser speech synthesis due to service limitations''\<rparr>,
               vm'')))"

section \<open>Specification-level notions\<close>

text \<open>
  \<open>updateAll u es rows\<close> is the table after the updates of a bulk loop over \<open>es\<close>
  have all been applied, one after the other.
\<close>

definition updateAll :: "updates \<Rightarrow> email list \<Rightarrow> email list \<Rightarrow> email list" where
  "updateAll u es rows = foldl (\<lambda>t e. updateRows (email_id e) u t) rows es"

text \<open>
  \<open>keeps f m\<close>: whatever the store and whether or not it fails, running \<open>m\<close> leaves
  the observation \<open>f\<close> of the store as it was.
\<close>

definition keeps :: "(store \<Rightarrow> 'b) \<Rightarrow> 'a io \<Rightarrow> bool" where
  "keeps f m = (\<forall>s. f (snd (m s)) = f s)"

definition rowIds :: "store \<Rightarrow> int list" where
  "rowIds s = map email_id (emails s)"

text \<open>
  \<open>mostRecent n P rows found\<close>: \<open>found\<close> holds the \<open>n\<close> most recently received of the
  rows that satisfy \<open>P\<close> (all of them when there are fewer), newest first. The rows
  satisfying \<open>P\<close> are \<open>found\<close> together with some \<open>older\<close> ones, none of which was
  received after an email of \<open>found\<close>.
\<close>

definition newestFirst :: "email list \<Rightarrow> bool" where
  "newestFirst es = sorted_wrt (\<lambda>a b. receivedAt b \<le> receivedAt a) es"

definition mostRecent :: "nat \<Rightarrow> (email \<Rightarrow> bool) \<Rightarrow> email list \<Rightarrow> email list \<Rightarrow> bool" where
  "mostRecent n P rows found =
     (length found = min n (length (filter P rows)) \<and> newestFirst found \<and>
      (\<exists>older. mset (found @ older) = mset (filter P rows) \<and>
         (\<forall>e \<in> set found. \<forall>e' \<in> set older. receivedAt e' \<le> receivedAt e)))"

definition notDeleted :: "email \<Rightarrow> bool" where
  "notDeleted e = (\<not> isDeleted e)"

text \<open>
  The local-synthesis directive: a successful result that carries no audio and tells the
  caller to use the browser's speech synthesis. \<open>speechCalls\<close> counts the speech
  requests a manager has sent to the provider.
\<close>

definition localSynthesis :: "speech_result \<Rightarrow> bool" where
  "localSynthesis r = (success r \<and> audioBuffer r = None \<and> useWebSpeech r = Some True)"

definition speechCalls :: "voice_manager \<Rightarrow> nat" where
  "speechCalls vm = length (filter (\<lambda>c. c = TextToSpeechRequest) (requests vm))"

definition unread :: "email \<Rightarrow> bool" where
  "unread e = (\<not> isRead e \<and> \<not> isDeleted e)"

definition important :: "email \<Rightarrow> bool" where
  "important e = (isImportant e \<and> \<not> isDeleted e)"

text \<open>
  The eight actions whose \<open>all\<close> branch sets a flag on every email it selects: for
  each of them the emails it selects, the flag it sets, and the summary it gives for \<open>n\<close>
  selected emails.
\<close>

definition bulkActions :: "string list" where
  "bulkActions = [''mark_as_read'', ''delete_emails'', ''mark_important'', ''archive_emails'',
                  ''restore_emails'', ''unarchive_emails'', ''mark_unread'', ''remove_important'']"

definition bulkFilter :: "string \<Rightarrow> email \<Rightarrow> bool" where
  "bulkFilter a =
     (if a = ''mark_as_read'' then unread
      else if a = ''remove_important'' then important
      else if a = ''restore_emails'' \<or> a = ''unarchive_emails'' then isDeleted
      else notDeleted)"

definition bulkUpdate :: "string \<Rightarrow> updates" where
  "bulkUpdate a =
     (if a = ''mark_as_read'' then noUpdates\<lparr>u_isRead := Some True\<rparr>
      else if a = ''mark_unread'' then noUpdates\<lparr>u_isRead := Some False\<rparr>
      else if a = ''mark_important'' then noUpdates\<lparr>u_isImportant := Some True\<rparr>
      else if a = ''remove_important'' then noUpdates\<lparr>u_isImportant := Some False\<rparr>
      else if a = ''restore_emails'' \<or> a = ''unarchive_emails''
      then noUpdates\<lparr>u_isDeleted := Some False\<rparr>
      else noUpdates\<lparr>u_isDeleted := Some True\<rparr>)"

definition bulkSummary :: "string \<Rightarrow> nat \<Rightarrow> string" where
  "bulkSummary a n =
     (if a = ''mark_as_read'' then
        (if 0 < n then ''Perfect! I've marked all '' @ showNat n @
                       '' unread emails as read. Your inbox is now clean.''
         else ''You're already all caught up - no unread emails to mark!'')
      else if a = ''delete_emails'' then
        (if 0 < n then ''I've deleted all '' @ showNat n @
                       '' emails from your inbox. Your inbox is now completely clean.''
         else ''Your inbox is already empty - nothing to delete.'')
      else if a = ''mark_important'' then ''Marked all '' @ showNat n @ '' emails as important.''
      else if a = ''archive_emails'' then
        ''Archived all '' @ showNat n @ '' emails. Your inbox is now clean.''
      else if a = ''mark_unread'' then ''Marked all '' @ showNat n @ '' emails as unread.''
      else if a = ''remove_important'' then
        ''Removed important flag from '' @ showNat n @ '' emails.''
      else ''Restored '' @ showNat n @ '' emails from archive back to your inbox.'')"

text \<open>
  \<open>changedFlags old new\<close>: the number of rows one of whose three flags differs between
  two states of the table.
\<close>

definition flags :: "email \<Rightarrow> bool \<times> bool \<times> bool" where
  "flags e = (isRead e, isImportant e, isDeleted e)"

definition changedFlags :: "email list \<Rightarrow> email list \<Rightarrow> nat" where
  "changedFlags old new = length (filter (\<lambda>(a, b). flags a \<noteq> flags b) (zip old new))"

text \<open>
  The four flag actions of claim C3 and, for each, the summary after a single email was
  addressed by id. Three of them fall back to the most recent email when neither \<open>all\<close>
  nor an id is given; these have a summary for that case and one for an empty selection.
\<close>

definition flagActions :: "string list" where
  "flagActions = [''mark_as_read'', ''mark_unread'', ''mark_important'', ''remove_important'']"

definition fallbackActions :: "string list" where
  "fallbackActions = [''mark_unread'', ''mark_important'', ''remove_important'']"

definition pointSummary :: "string \<Rightarrow> string" where
  "pointSummary a =
     (if a = ''mark_as_read'' then ''Done! Marked that email as read.''
      else if a = ''mark_unread'' then ''Email marked as unread.''
      else if a = ''mark_important'' then ''Email marked as important.''
      else ''Removed important flag from email.'')"

definition recentSummary :: "string \<Rightarrow> string" where
  "recentSummary a =
     (if a = ''mark_unread'' then ''Most recent email marked as unread.''
      else if a = ''mark_important'' then ''Most recent email marked as important.''
      else ''Removed important flag from most recent important email.'')"

definition nothingSummary :: "string \<Rightarrow> string" where
  "nothingSummary a =
     (if a = ''mark_unread'' then ''No emails found to mark as unread.''
      else if a = ''mark_important'' then ''No emails found to mark as important.''
      else ''No important emails found to modify.'')"

definition markAsReadClarification :: string where
  "markAsReadClarification =
     ''I'd be happy to mark emails as read. Just let me know which ones - '' @
     ''you can say 'mark all as read' or specify particular emails.''"

text \<open>The clarification prompts of archive and delete.\<close>

definition archiveClarification :: string where
  "archiveClarification =
     ''Which emails would you like to archive? You can say '' @
     [CHR 0x27] @ ''archive all emails' or 'archive emails from Sarah'.''"

definition deleteClarification :: string where
  "deleteClarification =
     ''I can help you delete emails. Just specify which ones - '' @
     ''you can say 'delete all emails' or mention specific emails.''"

text \<open>
  Every branch of the switch that loops over emails, with what it does: the emails it
  selects, what it does to each of them, and the summary it gives for \<open>n\<close> selected
  emails. These are the \<open>all\<close> branches of the eight actions above and of
  \<open>permanently_delete\<close>, the query branches of \<open>archive_emails\<close>, of the two restore
  actions and of \<open>permanently_delete\<close>, and the sender branch of the two restore actions.
  Every other branch of the switch makes at most two store calls.
\<close>

datatype bulk_op = SetFlags updates | RemoveRow

record bulk =
  selects :: "email \<Rightarrow> bool"
  applies :: bulk_op
  reports :: "nat \<Rightarrow> string"

definition bulkBranch :: "intent \<Rightarrow> bulk option" where
  "bulkBranch i =
     (let a = action i; query = truthyString (param p_query i) in
      if a \<in> set bulkActions \<and> truthyFlag (param p_all i) then
        Some \<lparr>selects = bulkFilter a, applies = SetFlags (bulkUpdate a), reports = bulkSummary a\<rparr>
      else if a = ''archive_emails'' then
        (case query of
           None \<Rightarrow> None
         | Some q \<Rightarrow>
             Some \<lparr>selects = searchMatches q,
                   applies = SetFlags (noUpdates\<lparr>u_isDeleted := Some True\<rparr>),
                   reports = (\<lambda>n. ''Archived '' @ showNat n @ '' emails matching '' @
                                  dquote @ q @ dquote @ ''.'')\<rparr>)
      else if a = ''restore_emails'' \<or> a = ''unarchive_emails'' then
        (case truthyString (param p_sender i) of
           Some senderName \<Rightarrow>
             Some \<lparr>selects = (\<lambda>e. isDeleted e \<and> fromSender senderName e),
                   applies = SetFlags (noUpdates\<lparr>u_isDeleted := Some False\<rparr>),
                   reports = (\<lambda>n. ''Restored '' @ showNat n @ '' archived emails from '' @
                                  senderName @ '' back to your inbox.'')\<rparr>
         | None \<Rightarrow>
            (case query of
               None \<Rightarrow> None
             | Some q \<Rightarrow>
                 Some \<lparr>selects = (\<lambda>e. searchMatches q e \<and> isDeleted e),
                       applies = SetFlags (noUpdates\<lparr>u_isDeleted := Some False\<rparr>),
                       reports = (\<lambda>n. ''Restored '' @ showNat n @ '' archived emails matching '' @
                                      dquote @ q @ dquote @ '' back to your inbox.'')\<rparr>))
      else if a = ''permanently_delete'' then
        (if truthyFlag (param p_all i) then
           Some \<lparr>selects = isDeleted, applies = RemoveRow,
                 reports = (\<lambda>n. ''Permanently deleted '' @ showNat n @
                                '' archived emails. This action cannot be undone.'')\<rparr>
         else
           (case query of
              None \<Rightarrow> None
            | Some q \<Rightarrow>
                Some \<lparr>selects = (\<lambda>e. isDeleted e \<and> matchesTerm q e), applies = RemoveRow,
                      reports = (\<lambda>n. ''Permanently deleted '' @ showNat n @ '' emails matching '' @
                                     dquote @ q @ dquote @ ''. This action cannot be undone.'')\<rparr>))
      else None)"

text \<open>
  \<open>selection P rows found\<close>: \<open>found\<close> holds the rows that satisfy \<open>P\<close>, each once,
  ordered by time of receipt, newest first; nothing is said about the order of two rows
  received at the same time. \<open>applyTo op targets rows\<close> is the table after \<open>op\<close> has
  been done to the rows in \<open>targets\<close> and to no other row; \<open>applyAll op es rows\<close> is
  the table after the store calls of a loop over \<open>es\<close>, one after the other, each
  addressing its row by id. \<open>altered u targets\<close> counts the targets one of whose flags
  the update \<open>u\<close> changes.
\<close>

definition applyOp :: "bulk_op \<Rightarrow> email \<Rightarrow> email list \<Rightarrow> email list" where
  "applyOp op e rows =
     (case op of
        SetFlags u \<Rightarrow> updateRows (email_id e) u rows
      | RemoveRow \<Rightarrow> filter (\<lambda>r. email_id r \<noteq> email_id e) rows)"

definition applyAll :: "bulk_op \<Rightarrow> email list \<Rightarrow> email list \<Rightarrow> email list" where
  "applyAll op es rows = foldl (\<lambda>t e. applyOp op e t) rows es"

definition selection :: "(email \<Rightarrow> bool) \<Rightarrow> email list \<Rightarrow> email list \<Rightarrow> bool" where
  "selection P rows found = (newestFirst found \<and> mset found = mset (filter P rows))"

definition applyTo :: "bulk_op \<Rightarrow> email list \<Rightarrow> email list \<Rightarrow> email list" where
  "applyTo op targets rows =
     (case op of
        SetFlags u \<Rightarrow> map (\<lambda>r. if r \<in> set targets then setUpdates u r else r) rows
      | RemoveRow \<Rightarrow> filter (\<lambda>r. r \<notin> set targets) rows)"

definition altered :: "updates \<Rightarrow> email list \<Rightarrow> nat" where
  "altered u targets = length (filter (\<lambda>e. flags (setUpdates u e) \<noteq> flags e) targets)"

text \<open>
  The program every such branch runs: one read, then one store call for each email
  read, then the summary. \<open>runOp\<close> is the body of the loop.
\<close>

definition runOp :: "bulk_op \<Rightarrow> email \<Rightarrow> unit io" where
  "runOp op e =
     (case op of
        SetFlags u \<Rightarrow> bind (updateEmail (email_id e) u) (\<lambda>_. ret ())
      | RemoveRow \<Rightarrow> bind (deleteEmail (email_id e)) (\<lambda>_. ret ()))"

definition bulkProgram :: "bulk \<Rightarrow> intent \<Rightarrow> command_result io" where
  "bulkProgram b i =
     bind (storeCall (\<lambda>s. (Returned (orderByReceivedAtDesc (filter (selects b) (emails s))), s)))
       (\<lambda>es. bind (forEach es (runOp (applies b)))
          (\<lambda>_. ret (withSummary (reports b (length es)) (initialResult i))))"

text \<open>
  \<open>callsAtMost n m\<close>: on a store that accepts its next \<open>n\<close> calls or more, \<open>m\<close>
  returns and has made at most \<open>n\<close> store calls.
\<close>

definition callsAtMost :: "nat \<Rightarrow> 'a io \<Rightarrow> bool" where
  "callsAtMost n m =
     (\<forall>s k. callsUntilError s = Some k \<and> n \<le> k \<longrightarrow>
        (\<exists>x s' k'. m s = (Returned x, s') \<and> callsUntilError s' = Some k' \<and> k \<le> k' + n))"

text \<open>
  \<open>numericConfidence reply\<close>: the reply is not an object, or the \<open>confidence\<close> field
  of the object is absent, null, a boolean or a number.
\<close>

definition numericConfidence :: "provider_reply \<Rightarrow> bool" where
  "numericConfidence reply =
     (case reply of
        JsonObject r \<Rightarrow>
          (case raw_confidence r of
             None \<Rightarrow> True
           | Some JNull \<Rightarrow> True
           | Some (JBool b) \<Rightarrow> True
           | Some (JNumber n) \<Rightarrow> True
           | Some v \<Rightarrow> False)
      | _ \<Rightarrow> True)"

section \<open>Example data\<close>

text \<open>Concrete providers, stores and intents at which the theorems below are evaluated.\<close>

definition silentProvider :: "string \<Rightarrow> provider_reply" where
  "silentProvider t = NoContent"

definition failingProvider :: "string \<Rightarrow> provider_reply" where
  "failingProvider t = ProviderError"

definition overconfidentProvider :: "string \<Rightarrow> provider_reply" where
  "overconfidentProvider t =
     JsonObject \<lparr>raw_action = Some (JString ''get_unread''), raw_parameters = None,
                 raw_confidence = Some (JNumber (Finite (17 / 10)))\<rparr>"

definition underconfidentProvider :: "string \<Rightarrow> provider_reply" where
  "underconfidentProvider t =
     JsonObject \<lparr>raw_action = Some (JString ''get_unread''), raw_parameters = None,
                 raw_confidence = Some (JNumber (Finite (- 3 / 10)))\<rparr>"

text \<open>
  A host in which no string, array or object reads as a number, a provider that answers
  with the confidence \<open>"high"\<close>, and one that answers with the action \<open>7\<close>.
\<close>

definition notANumber :: "json \<Rightarrow> number option" where
  "notANumber v = Some NaN"

definition vagueProvider :: "string \<Rightarrow> provider_reply" where
  "vagueProvider t =
     JsonObject \<lparr>raw_action = Some (JString ''get_unread''), raw_parameters = None,
                 raw_confidence = Some (JString ''high'')\<rparr>"


text \<open>
  An email with the given id, message id, sender, subject, body, time of receipt and
  flags; every other column is empty.
\<close>

definition mkEmail ::
  "int \<Rightarrow> string \<Rightarrow> string \<Rightarrow> string \<Rightarrow> string \<Rightarrow> int \<Rightarrow> bool \<Rightarrow> bool \<Rightarrow> bool \<Rightarrow> email" where
  "mkEmail i mid sender subj body t rd imp del =
     \<lparr>email_id = i, messageId = mid, fromEmail = sender, fromName = None,
      toEmail = ''user@voicemail.app'', subject = subj, textContent = Some body,
      htmlContent = None, receivedAt = t, isRead = rd, isImportant = imp, isDeleted = del,
      attachments = [], isForwarded = False, originalFrom = None, originalFromName = None,
      originalTo = None, originalDate = None, originalSubject = None,
      actualSenderEmail = None, actualSenderName = None\<rparr>"

definition mkStore :: "email list \<Rightarrow> nat option \<Rightarrow> store" where
  "mkStore rows budget =
     \<lparr>emails = rows, voiceCommands = [], nextEmailId = 1 + int (length rows),
      nextVoiceCommandId = 1, callsUntilError = budget, laterErrors = []\<rparr>"

definition mkIntent :: "string \<Rightarrow> parameters \<Rightarrow> intent" where
  "mkIntent a p = \<lparr>action = a, parameters = Some p, confidence = Finite 1\<rparr>"

definition exampleLlm :: "email list \<Rightarrow> string" where
  "exampleLlm es = ''digest''"

text \<open>An archived invoice and one still in the inbox; the command "restore invoices".\<close>

definition archivedInvoice :: email where
  "archivedInvoice =
     mkEmail 1 ''m-1'' ''billing@shop.com'' ''Invoice March'' ''Please pay.'' 100
       True False True"

definition inboxInvoice :: email where
  "inboxInvoice =
     mkEmail 2 ''m-2'' ''billing@shop.com'' ''Invoice April'' ''Please pay.'' 200
       False False False"

definition invoiceStore :: store where
  "invoiceStore = mkStore [archivedInvoice, inboxInvoice] None"

definition restoreInvoices :: intent where
  "restoreInvoices = mkIntent ''restore_emails'' (noParameters\<lparr>p_query := Some ''invoice''\<rparr>)"

text \<open>The commands "mark email 7 as read" and "mark email 0 as read".\<close>

definition markSevenRead :: intent where
  "markSevenRead = mkIntent ''mark_as_read'' (noParameters\<lparr>p_emailId := Some 7\<rparr>)"

definition markZeroRead :: intent where
  "markZeroRead = mkIntent ''mark_as_read'' (noParameters\<lparr>p_emailId := Some 0\<rparr>)"

text \<open>Two ways of asking for recent emails.\<close>

definition recentToday :: intent where
  "recentToday = mkIntent ''get_recent'' (noParameters\<lparr>p_timeframe := Some ''today''\<rparr>)"

definition recentPlain :: intent where
  "recentPlain = \<lparr>action = ''get_recent'', parameters = None, confidence = Finite (1 / 2)\<rparr>"

text \<open>
  An inbox of three emails, received at times 100, 300 and 200; the first two are unread,
  the third is read and important. The store fails after \<open>budget\<close> calls.
\<close>

definition mailA :: email where
  "mailA = mkEmail 1 ''m-a'' ''ann@x.org'' ''Lunch'' ''Noon?'' 100 False False False"

definition mailB :: email where
  "mailB = mkEmail 2 ''m-b'' ''bob@x.org'' ''Report'' ''Attached.'' 300 False False False"

definition mailC :: email where
  "mailC = mkEmail 3 ''m-c'' ''cy@x.org'' ''Minutes'' ''See notes.'' 200 True True False"

definition inboxStore :: "nat option \<Rightarrow> store" where
  "inboxStore budget = mkStore [mailA, mailB, mailC] budget"


definition exactProduct :: "real \<Rightarrow> real \<Rightarrow> real" where
  "exactProduct a b = a * b"

text \<open>A webhook payload whose message id is already in the example inbox, and a new one.\<close>

definition noForwarding :: "string option \<Rightarrow> forwarded_email_info option" where
  "noForwarding body = None"

definition mkPayload :: "string \<Rightarrow> string \<Rightarrow> string \<Rightarrow> postmark_webhook_data" where
  "mkPayload mid sender subj =
     \<lparr>MessageID = mid, From = sender, FromName = None, To = ''user@voicemail.app'',
      Subject = subj, TextBody = Some ''Hello.'', HtmlBody = None,
      Date = ''2025-05-06T18:13:17Z'', Attachments = None\<rparr>"

definition repeatedPayload :: postmark_webhook_data where
  "repeatedPayload = mkPayload ''m-b'' ''bob@x.org'' ''Report (again)''"

definition freshPayload :: postmark_webhook_data where
  "freshPayload = mkPayload ''m-d'' ''dee@x.org'' ''Hello''"

text \<open>
  A provider whose speech endpoint fails, with or without a configured credential, and
  a manager whose cache, filled 100 seconds ago, shows the given remaining capacity.
\<close>

definition failingSpeech :: "string \<Rightarrow> speech_reply" where
  "failingSpeech t = SpeechFails"

definition ttsEnv :: "string option \<Rightarrow> tts_env" where
  "ttsEnv key = \<lparr>apiKey = key, clock = 1000000, subscription = FetchFails,
                 speech = failingSpeech\<rparr>"

definition cachedManager :: "int \<Rightarrow> voice_manager" where
  "cachedManager remaining =
     \<lparr>quotaInfo = Some \<lparr>charactersUsed = 10000 - remaining, charactersLimit = 10000,
                         charactersRemaining = remaining, lastChecked = 900000\<rparr>,
      requests = []\<rparr>"

definition markAllRead :: intent where
  "markAllRead = mkIntent ''mark_as_read'' (noParameters\<lparr>p_all := Some True\<rparr>)"

definition markAllImportant :: intent where
  "markAllImportant = mkIntent ''mark_important'' (noParameters\<lparr>p_all := Some True\<rparr>)"

text \<open>Flag commands with and without a target.\<close>

definition markReadPlain :: intent where
  "markReadPlain = mkIntent ''mark_as_read'' noParameters"

definition markImportantPlain :: intent where
  "markImportantPlain = mkIntent ''mark_important'' noParameters"

definition removeImportantThree :: intent where
  "removeImportantThree = mkIntent ''remove_important'' (noParameters\<lparr>p_emailId := Some 3\<rparr>)"

definition markAllUnread :: intent where
  "markAllUnread = mkIntent ''mark_unread'' (noParameters\<lparr>p_all := Some True\<rparr>)"

text \<open>Archive and delete commands.\<close>

definition archiveReports :: intent where
  "archiveReports = mkIntent ''archive_emails'' (noParameters\<lparr>p_query := Some ''report''\<rparr>)"

definition archiveAll :: intent where
  "archiveAll = mkIntent ''archive_emails'' (noParameters\<lparr>p_all := Some True\<rparr>)"

definition deleteSecond :: intent where
  "deleteSecond = mkIntent ''delete_emails'' (noParameters\<lparr>p_emailId := Some 2\<rparr>)"

definition deleteReports :: intent where
  "deleteReports = mkIntent ''delete_emails'' (noParameters\<lparr>p_query := Some ''report''\<rparr>)"

definition deletePlain :: intent where
  "deletePlain = mkIntent ''delete_emails'' noParameters"

section \<open>Running the store\<close>

lemma bind_ret [simp]: "bind (ret x) f s = f x s"
  by (simp add: bind_def ret_def)

lemma storeCall_healthy: "callsUntilError s = None \<Longrightarrow> storeCall run s = run s"
  by (simp add: storeCall_def)

lemma storeCall_exhausted:
  "callsUntilError s = Some 0 \<Longrightarrow> storeCall run s = (Thrown, afterRejection s)"
  by (simp add: storeCall_def)

lemma afterRejection_data [simp]:
  "emails (afterRejection s) = emails s"
  "voiceCommands (afterRejection s) = voiceCommands s"
  "nextEmailId (afterRejection s) = nextEmailId s"
  "nextVoiceCommandId (afterRejection s) = nextVoiceCommandId s"
  by (simp_all add: afterRejection_def)

lemma afterRejection_budget [simp]:
  "afterRejection (s\<lparr>callsUntilError := b\<rparr>) = afterRejection s"
  by (simp add: afterRejection_def)

lemma storeCall_counted:
  "callsUntilError s = Some (Suc k) \<Longrightarrow> storeCall run s = run (s\<lparr>callsUntilError := Some k\<rparr>)"
  by (simp add: storeCall_def)

lemma getEmails_healthy:
  "callsUntilError s = None \<Longrightarrow> getEmails f s = (Returned (selectEmails f (emails s)), s)"
  by (simp add: getEmails_def storeCall_healthy)

lemma searchEmails_healthy:
  "callsUntilError s = None \<Longrightarrow>
   searchEmails q s =
     (Returned (orderByReceivedAtDesc (filter (searchMatches q) (emails s))), s)"
  by (simp add: searchEmails_def storeCall_healthy)

lemma updateEmail_healthy:
  "callsUntilError s = None \<Longrightarrow>
   updateEmail n u s =
     (Returned (find (\<lambda>e. email_id e = n) (updateRows n u (emails s))),
      s\<lparr>emails := updateRows n u (emails s)\<rparr>)"
  by (simp add: updateEmail_def storeCall_healthy)


lemma updateAll_Nil [simp]: "updateAll u [] rows = rows"
  by (simp add: updateAll_def)

lemma updateAll_Cons [simp]:
  "updateAll u (e # es) rows = updateAll u es (updateRows (email_id e) u rows)"
  by (simp add: updateAll_def)

lemma applyAll_Nil [simp]: "applyAll op [] rows = rows"
  by (simp add: applyAll_def)

lemma applyAll_Cons [simp]: "applyAll op (e # es) rows = applyAll op es (applyOp op e rows)"
  by (simp add: applyAll_def)

lemma applyAll_SetFlags: "applyAll (SetFlags u) es rows = updateAll u es rows"
  by (induction es arbitrary: rows) (simp_all add: applyOp_def)

text \<open>One turn of a loop, and the whole loop, against any store.\<close>

lemma runOp_run:
  "runOp op e s =
     (case callsUntilError s of
        None \<Rightarrow> (Returned (), s\<lparr>emails := applyOp op e (emails s)\<rparr>)
      | Some 0 \<Rightarrow> (Thrown, afterRejection s)
      | Some (Suc k) \<Rightarrow>
          (Returned (), s\<lparr>callsUntilError := Some k, emails := applyOp op e (emails s)\<rparr>))"
  by (cases op)
    (simp_all add: runOp_def applyOp_def bind_def ret_def updateEmail_def deleteEmail_def
      storeCall_def split: option.splits nat.splits)

lemma forEach_runOp:
  "forEach es (runOp op) s =
     (case callsUntilError s of
        None \<Rightarrow> (Returned (), s\<lparr>emails := applyAll op es (emails s)\<rparr>)
      | Some k \<Rightarrow>
          if length es \<le> k
          then (Returned (), s\<lparr>emails := applyAll op es (emails s),
                                 callsUntilError := Some (k - length es)\<rparr>)
          else (Thrown, afterRejection (s\<lparr>emails := applyAll op (take k es) (emails s)\<rparr>)))"
proof (induction es arbitrary: s)
  case Nil
  then show ?case by (simp add: ret_def split: option.splits)
next
  case (Cons e es)
  note step = runOp_run [of op e s]
  show ?case
  proof (cases "callsUntilError s")
    case None
    then show ?thesis by (simp add: bind_def step Cons.IH)
  next
    case (Some k)
    then show ?thesis
      by (cases k) (simp_all add: bind_def step Cons.IH afterRejection_def)
  qed
qed

lemma updateEach_runOp: "updateEach u es = forEach es (runOp (SetFlags u))"
proof -
  have "runOp (SetFlags u) = (\<lambda>e. bind (updateEmail (email_id e) u) (\<lambda>_. ret ()))"
    by (rule ext) (simp add: runOp_def)
  then show ?thesis by (simp add: updateEach_def)
qed

lemma deleteEach_runOp: "deleteEach es = forEach es (runOp RemoveRow)"
proof -
  have "runOp RemoveRow = (\<lambda>e. bind (deleteEmail (email_id e)) (\<lambda>_. ret ()))"
    by (rule ext) (simp add: runOp_def)
  then show ?thesis by (simp add: deleteEach_def)
qed

lemma updateEach_Nil [simp]: "updateEach u [] s = (Returned (), s)"
  by (simp add: updateEach_def ret_def)

lemma updateEach_healthy:
  "callsUntilError s = None \<Longrightarrow>
   updateEach u es s = (Returned (), s\<lparr>emails := updateAll u es (emails s)\<rparr>)"
  by (simp add: updateEach_runOp forEach_runOp applyAll_SetFlags)

lemma updateEach_counted:
  "callsUntilError s = Some k \<Longrightarrow>
   updateEach u es s =
     (if length es \<le> k
      then (Returned (), s\<lparr>emails := updateAll u es (emails s),
                             callsUntilError := Some (k - length es)\<rparr>)
      else (Thrown, afterRejection (s\<lparr>emails := updateAll u (take k es) (emails s)\<rparr>)))"
  by (simp add: updateEach_runOp forEach_runOp applyAll_SetFlags)

lemma email_id_setUpdates [simp]: "email_id (setUpdates u e) = email_id e"
  by (simp add: setUpdates_def)

lemma setUpdates_idem [simp]: "setUpdates u (setUpdates u e) = setUpdates u e"
  by (simp add: setUpdates_def split: option.splits)

lemma updateAll_map:
  "updateAll u es rows =
     map (\<lambda>r. if email_id r \<in> email_id ` set es then setUpdates u r else r) rows"
proof (induction es arbitrary: rows)
  case Nil
  then show ?case by simp
next
  case (Cons e es)
  show ?case
    by (simp add: Cons.IH updateRows_def)
qed

lemma map_email_id_updateAll [simp]: "map email_id (updateAll u es rows) = map email_id rows"
  by (simp add: updateAll_map o_def)

lemma length_updateAll [simp]: "length (updateAll u es rows) = length rows"
  by (simp add: updateAll_map)

lemma set_orderByReceivedAtDesc [simp]: "set (orderByReceivedAtDesc rows) = set rows"
  by (simp add: orderByReceivedAtDesc_def)

lemma length_orderByReceivedAtDesc [simp]: "length (orderByReceivedAtDesc rows) = length rows"
  by (simp add: orderByReceivedAtDesc_def)

lemma orderByReceivedAtDesc_Nil [simp]: "orderByReceivedAtDesc [] = []"
  by (simp add: orderByReceivedAtDesc_def)

lemma orderByReceivedAtDesc_eq_Nil [simp]: "orderByReceivedAtDesc rows = [] \<longleftrightarrow> rows = []"
  by (metis length_0_conv length_orderByReceivedAtDesc)

section \<open>What a computation leaves alone\<close>

lemma keepsD: "keeps f m \<Longrightarrow> f (snd (m s)) = f s"
  by (simp add: keeps_def)

lemma keeps_ret: "keeps f (ret x)"
  by (simp add: keeps_def ret_def)

lemma keeps_bind:
  assumes "keeps f m" and "\<And>x. keeps f (g x)"
  shows "keeps f (bind m g)"
proof -
  have "f (snd (bind m g s)) = f s" for s
  proof (cases "m s")
    case (Pair r s')
    have m: "f s' = f s" using assms(1) Pair by (metis keepsD snd_conv)
    show ?thesis
    proof (cases r)
      case (Returned x)
      then show ?thesis using Pair m assms(2) by (simp add: bind_def keepsD)
    next
      case Thrown
      then show ?thesis using Pair m by (simp add: bind_def)
    qed
  qed
  then show ?thesis by (simp add: keeps_def)
qed

lemma keeps_forEach:
  assumes "\<And>x. keeps f (g x)"
  shows "keeps f (forEach xs g)"
  by (induction xs) (simp_all add: keeps_ret keeps_bind assms)

lemma keeps_storeCall:
  assumes "\<And>s. f (snd (run s)) = f s" and "\<And>s k. f (s\<lparr>callsUntilError := k\<rparr>) = f s"
    and "\<And>s l. f (s\<lparr>laterErrors := l\<rparr>) = f s"
  shows "keeps f (storeCall run)"
proof -
  have rej: "f (afterRejection s) = f s" for s
    using assms(3) [where s = "s\<lparr>callsUntilError := (case laterErrors s of [] \<Rightarrow> None | k # ks \<Rightarrow> Some k)\<rparr>"
        and l = "tl (laterErrors s)"] assms(2)
    by (simp add: afterRejection_def)
  have "f (snd (storeCall run s)) = f s" for s
  proof (cases "callsUntilError s")
    case None
    then show ?thesis by (simp add: storeCall_def assms(1))
  next
    case (Some k)
    then show ?thesis by (cases k) (simp_all add: storeCall_def assms rej)
  qed
  then show ?thesis by (simp add: keeps_def)
qed

lemma keeps_getEmails:
  "(\<And>s k. f (s\<lparr>callsUntilError := k\<rparr>) = f s) \<Longrightarrow> (\<And>s l. f (s\<lparr>laterErrors := l\<rparr>) = f s) \<Longrightarrow>
   keeps f (getEmails flt)"
  unfolding getEmails_def by (rule keeps_storeCall) simp_all

lemma keeps_searchEmails:
  "(\<And>s k. f (s\<lparr>callsUntilError := k\<rparr>) = f s) \<Longrightarrow> (\<And>s l. f (s\<lparr>laterErrors := l\<rparr>) = f s) \<Longrightarrow>
   keeps f (searchEmails q)"
  unfolding searchEmails_def by (rule keeps_storeCall) simp_all

lemma keeps_if: "keeps f a \<Longrightarrow> keeps f b \<Longrightarrow> keeps f (if c then a else b)"
  by simp

lemma keeps_case_option:
  "keeps f a \<Longrightarrow> (\<And>x. keeps f (b x)) \<Longrightarrow> keeps f (case v of None \<Rightarrow> a | Some x \<Rightarrow> b x)"
  by (cases v) simp_all

lemma keeps_case_list:
  "keeps f a \<Longrightarrow> (\<And>x xs. keeps f (b x xs)) \<Longrightarrow> keeps f (case v of [] \<Rightarrow> a | x # xs \<Rightarrow> b x xs)"
  by (cases v) simp_all

lemma keeps_Let: "(\<And>x. keeps f (b x)) \<Longrightarrow> keeps f (Let v b)"
  by (simp add: Let_def)

lemmas keeps_intros =
  keeps_ret keeps_bind keeps_forEach keeps_if keeps_case_option keeps_case_list keeps_Let







text \<open>Reads and updates leave the rows and their ids in place.\<close>

lemma keeps_rowIds_getEmails: "keeps rowIds (getEmails flt)"
  by (rule keeps_getEmails) (simp_all add: rowIds_def)

lemma keeps_rowIds_searchEmails: "keeps rowIds (searchEmails q)"
  by (rule keeps_searchEmails) (simp_all add: rowIds_def)

lemma keeps_rowIds_updateEmail: "keeps rowIds (updateEmail n u)"
  unfolding updateEmail_def
  by (rule keeps_storeCall) (simp_all add: rowIds_def updateRows_def o_def)

lemmas keeps_rowIds = keeps_rowIds_getEmails keeps_rowIds_searchEmails keeps_rowIds_updateEmail

section \<open>Ordering by time of receipt\<close>

lemma newestFirst_orderBy: "newestFirst (orderByReceivedAtDesc rows)"
proof -
  have "sorted (map (\<lambda>e. - receivedAt e) (sort_key (\<lambda>e. - receivedAt e) rows))"
    by (rule sorted_sort_key)
  then show ?thesis
    by (simp add: newestFirst_def orderByReceivedAtDesc_def sorted_map sorted_wrt_iff_nth_less)
qed

lemma mset_orderBy [simp]: "mset (orderByReceivedAtDesc rows) = mset rows"
  by (simp add: orderByReceivedAtDesc_def)

lemma newestFirst_take: "newestFirst es \<Longrightarrow> newestFirst (take n es)"
  by (simp add: newestFirst_def sorted_wrt_take)

lemma newestFirst_split:
  assumes "newestFirst es"
  shows "\<forall>e \<in> set (take n es). \<forall>e' \<in> set (drop n es). receivedAt e' \<le> receivedAt e"
proof -
  have "newestFirst (take n es @ drop n es)" using assms by simp
  then show ?thesis unfolding newestFirst_def sorted_wrt_append by blast
qed

lemma mostRecent_take:
  "mostRecent n P rows (take n (orderByReceivedAtDesc (filter P rows)))"
proof -
  let ?all = "orderByReceivedAtDesc (filter P rows)"
  have len: "length (take n ?all) = min n (length (filter P rows))"
    by (simp add: min.commute)
  have srt: "newestFirst (take n ?all)"
    by (rule newestFirst_take) (rule newestFirst_orderBy)
  have "mset (take n ?all @ drop n ?all) = mset (filter P rows)"
    by (simp del: mset_append)
  moreover have "\<forall>e \<in> set (take n ?all). \<forall>e' \<in> set (drop n ?all). receivedAt e' \<le> receivedAt e"
    by (rule newestFirst_split) (rule newestFirst_orderBy)
  ultimately have "\<exists>older. mset (take n ?all @ older) = mset (filter P rows) \<and>
         (\<forall>e \<in> set (take n ?all). \<forall>e' \<in> set older. receivedAt e' \<le> receivedAt e)"
    by blast
  with len srt show ?thesis unfolding mostRecent_def by blast
qed

section \<open>Bulk loops\<close>

lemma updateAll_members:
  assumes ids: "distinct (map email_id rows)" and sub: "set es \<subseteq> set rows"
  shows "updateAll u es rows = map (\<lambda>r. if r \<in> set es then setUpdates u r else r) rows"
proof -
  have inj: "inj_on email_id (set rows)" using ids by (simp add: distinct_map)
  have "(email_id r \<in> email_id ` set es) = (r \<in> set es)" if "r \<in> set rows" for r
  proof
    assume "email_id r \<in> email_id ` set es"
    then obtain e where e: "e \<in> set es" "email_id r = email_id e" by blast
    then have "e \<in> set rows" using sub by blast
    then have "r = e" using inj that e(2) by (simp add: inj_on_def)
    then show "r \<in> set es" using e(1) by simp
  next
    assume "r \<in> set es"
    then show "email_id r \<in> email_id ` set es" by blast
  qed
  then show ?thesis by (simp add: updateAll_map cong: map_cong)
qed

lemma updateAll_selected:
  assumes ids: "distinct (map email_id rows)"
  shows "updateAll u (orderByReceivedAtDesc (filter P rows)) rows =
           map (\<lambda>r. if P r then setUpdates u r else r) rows"
proof -
  have "updateAll u (orderByReceivedAtDesc (filter P rows)) rows =
          map (\<lambda>r. if r \<in> set (orderByReceivedAtDesc (filter P rows)) then setUpdates u r else r)
            rows"
    by (rule updateAll_members [OF ids]) auto
  also have "\<dots> = map (\<lambda>r. if P r then setUpdates u r else r) rows"
    by (simp cong: map_cong)
  finally show ?thesis .
qed

text \<open>Fetch the targets with one store call, update each, build the result.\<close>

lemma bulk_run:
  "bind (storeCall (\<lambda>s. (Returned (sel s), s)))
     (\<lambda>es. bind (updateEach u es) (\<lambda>_. ret (R es))) s =
   (case callsUntilError s of
      None \<Rightarrow> (Returned (R (sel s)), s\<lparr>emails := updateAll u (sel s) (emails s)\<rparr>)
    | Some 0 \<Rightarrow> (Thrown, afterRejection s)
    | Some (Suc k) \<Rightarrow>
        if length (sel (s\<lparr>callsUntilError := Some k\<rparr>)) \<le> k
        then (Returned (R (sel (s\<lparr>callsUntilError := Some k\<rparr>))),
              s\<lparr>emails := updateAll u (sel (s\<lparr>callsUntilError := Some k\<rparr>)) (emails s),
                callsUntilError := Some (k - length (sel (s\<lparr>callsUntilError := Some k\<rparr>)))\<rparr>)
        else (Thrown,
              afterRejection (s\<lparr>emails := updateAll u (take k (sel (s\<lparr>callsUntilError := Some k\<rparr>)))
                                            (emails s)\<rparr>)))"
proof (cases "callsUntilError s")
  case None
  then show ?thesis
    by (simp add: bind_def storeCall_healthy updateEach_healthy ret_def)
next
  case (Some j)
  show ?thesis
  proof (cases j)
    case 0
    then show ?thesis using Some by (simp add: bind_def storeCall_exhausted)
  next
    case (Suc k)
    have c: "callsUntilError (s\<lparr>callsUntilError := Some k\<rparr>) = Some k" by simp
    show ?thesis
      using Some Suc
      by (simp add: bind_def storeCall_counted updateEach_counted [OF c] ret_def
          afterRejection_def)
  qed
qed

lemma zip_map_self: "zip xs (map f xs) = map (\<lambda>x. (x, f x)) xs"
  by (induction xs) simp_all

section \<open>Shared facts about the dispatcher and the examples\<close>

lemma showNat_0: "showNat 0 = ''0''"
  by code_simp

lemma execute_restore:
  "action i = ''restore_emails'' \<or> action i = ''unarchive_emails'' \<Longrightarrow>
   execute llm i = restoreEmailsCase i"
  by (auto simp add: execute_def Let_def)

lemma updateRows_absent:
  "\<forall>e \<in> set rows. email_id e \<noteq> n \<Longrightarrow> updateRows n u rows = rows"
  by (simp add: updateRows_def map_idI)

lemma execute_mark_as_read: "action i = ''mark_as_read'' \<Longrightarrow> execute llm i = markAsReadCase i"
  by (simp add: execute_def)

lemma execute_get_recent: "action i = ''get_recent'' \<Longrightarrow> execute llm i = getRecentCase llm i"
  by (simp add: execute_def)

lemma budget_inboxStore: "callsUntilError (inboxStore b) = b"
  by (simp add: inboxStore_def mkStore_def)

lemma option_update_None: "s\<lparr>callsUntilError := None\<rparr> = s" if "callsUntilError s = None"
  using that by simp




lemma find_present:
  "\<exists>e \<in> set rows. P e \<Longrightarrow> \<exists>e. find P rows = Some e"
  by (cases "find P rows") (auto simp add: find_None_iff)

lemma setUpdates_markRead [simp]:
  "setUpdates (noUpdates\<lparr>u_isRead := Some True\<rparr>) e = e\<lparr>isRead := True\<rparr>"
  by (simp add: setUpdates_def noUpdates_def)

lemma selectEmails_unread:
  "selectEmails (noFilters\<lparr>f_isRead := Some False, f_isDeleted := Some False\<rparr>) rows =
     orderByReceivedAtDesc (filter unread rows)"
proof -
  have "conditions (noFilters\<lparr>f_isRead := Some False, f_isDeleted := Some False\<rparr>) = unread"
    by (rule ext) (simp add: conditions_def noFilters_def unread_def)
  then show ?thesis
    by (simp add: selectEmails_def applyLimit_def applyOffset_def noFilters_def)
qed

lemma emails_inboxStore: "emails (inboxStore b) = [mailA, mailB, mailC]"
  by (simp add: inboxStore_def mkStore_def)

lemma ids_inboxStore: "distinct (map email_id (emails (inboxStore b)))"
  by (simp add: emails_inboxStore mailA_def mailB_def mailC_def mkEmail_def)

lemma inbox_unread:
  "orderByReceivedAtDesc (filter unread (emails (inboxStore b))) = [mailB, mailA]"
  by (simp add: emails_inboxStore orderByReceivedAtDesc_def unread_def mailA_def mailB_def
      mailC_def mkEmail_def)

lemma inbox_unread_count: "length (filter unread (emails (inboxStore b))) = 2"
  using inbox_unread [of b] by (metis length_orderByReceivedAtDesc length_Cons list.size(3)
      numeral_2_eq_2)

lemma showNat_2: "showNat 2 = ''2''"
  by code_simp

lemma inbox_first_marked:
  "updateRows (email_id mailB) (noUpdates\<lparr>u_isRead := Some True\<rparr>) (emails (inboxStore b)) =
     [mailA, mailB\<lparr>isRead := True\<rparr>, mailC]"
  by (simp add: emails_inboxStore updateRows_def mailA_def mailB_def mailC_def mkEmail_def)

section \<open>Bulk actions\<close>

lemma selectEmails_notDeleted:
  "selectEmails (noFilters\<lparr>f_isDeleted := Some False\<rparr>) rows =
     orderByReceivedAtDesc (filter notDeleted rows)"
proof -
  have "conditions (noFilters\<lparr>f_isDeleted := Some False\<rparr>) = notDeleted"
    by (rule ext) (simp add: conditions_def noFilters_def notDeleted_def)
  then show ?thesis
    by (simp add: selectEmails_def applyLimit_def applyOffset_def noFilters_def)
qed

lemma selectEmails_isDeleted:
  "selectEmails (noFilters\<lparr>f_isDeleted := Some True\<rparr>) rows =
     orderByReceivedAtDesc (filter isDeleted rows)"
proof -
  have "conditions (noFilters\<lparr>f_isDeleted := Some True\<rparr>) = isDeleted"
    by (rule ext) (simp add: conditions_def noFilters_def)
  then show ?thesis
    by (simp add: selectEmails_def applyLimit_def applyOffset_def noFilters_def)
qed

lemma selectEmails_important:
  "selectEmails (noFilters\<lparr>f_isImportant := Some True, f_isDeleted := Some False\<rparr>) rows =
     orderByReceivedAtDesc (filter important rows)"
proof -
  have "conditions (noFilters\<lparr>f_isImportant := Some True, f_isDeleted := Some False\<rparr>) = important"
    by (rule ext) (simp add: conditions_def noFilters_def important_def)
  then show ?thesis
    by (simp add: selectEmails_def applyLimit_def applyOffset_def noFilters_def)
qed

lemmas selectEmails_bulk =
  selectEmails_unread selectEmails_notDeleted selectEmails_isDeleted selectEmails_important

lemma bulk_all_shape:
  assumes a: "action i \<in> set bulkActions" and allp: "truthyFlag (param p_all i)"
  shows "execute llm i =
           bind (storeCall (\<lambda>s. (Returned (orderByReceivedAtDesc
                                    (filter (bulkFilter (action i)) (emails s))), s)))
             (\<lambda>es. bind (updateEach (bulkUpdate (action i)) es)
                (\<lambda>_. ret (withSummary (bulkSummary (action i) (length es)) (initialResult i))))"
proof -
  consider "action i = ''mark_as_read''" | "action i = ''delete_emails''"
    | "action i = ''mark_important''" | "action i = ''archive_emails''"
    | "action i = ''restore_emails''" | "action i = ''unarchive_emails''"
    | "action i = ''mark_unread''" | "action i = ''remove_important''"
    using a by (auto simp add: bulkActions_def)
  then show ?thesis
  proof cases
    case 1
    then show ?thesis using allp
      by (simp add: execute_def markAsReadCase_def getEmails_def selectEmails_bulk bulkFilter_def
          bulkUpdate_def bulkSummary_def)
  next
    case 2
    then show ?thesis using allp
      by (simp add: execute_def deleteEmailsCase_def getEmails_def selectEmails_bulk bulkFilter_def
          bulkUpdate_def bulkSummary_def)
  next
    case 3
    then show ?thesis using allp
      by (simp add: execute_def markImportantCase_def getEmails_def selectEmails_bulk
          bulkFilter_def bulkUpdate_def bulkSummary_def)
  next
    case 4
    then show ?thesis using allp
      by (simp add: execute_def archiveEmailsCase_def getEmails_def selectEmails_bulk
          bulkFilter_def bulkUpdate_def bulkSummary_def)
  next
    case 5
    then show ?thesis using allp
      by (simp add: execute_def restoreEmailsCase_def getEmails_def selectEmails_bulk
          bulkFilter_def bulkUpdate_def bulkSummary_def)
  next
    case 6
    then show ?thesis using allp
      by (simp add: execute_def restoreEmailsCase_def getEmails_def selectEmails_bulk
          bulkFilter_def bulkUpdate_def bulkSummary_def)
  next
    case 7
    then show ?thesis using allp
      by (simp add: execute_def markUnreadCase_def getEmails_def selectEmails_bulk bulkFilter_def
          bulkUpdate_def bulkSummary_def)
  next
    case 8
    then show ?thesis using allp
      by (simp add: execute_def removeImportantCase_def getEmails_def selectEmails_bulk
          bulkFilter_def bulkUpdate_def bulkSummary_def)
  qed
qed

lemma bulk_all_run:
  assumes a: "action i \<in> set bulkActions" and allp: "truthyFlag (param p_all i)"
  shows "execute llm i s =
   (case callsUntilError s of
      None \<Rightarrow>
        (Returned (withSummary
           (bulkSummary (action i) (length (filter (bulkFilter (action i)) (emails s))))
           (initialResult i)),
         s\<lparr>emails := updateAll (bulkUpdate (action i))
                       (orderByReceivedAtDesc (filter (bulkFilter (action i)) (emails s)))
                       (emails s)\<rparr>)
    | Some 0 \<Rightarrow> (Thrown, afterRejection s)
    | Some (Suc k) \<Rightarrow>
        if length (filter (bulkFilter (action i)) (emails s)) \<le> k
        then (Returned (withSummary
           (bulkSummary (action i) (length (filter (bulkFilter (action i)) (emails s))))
           (initialResult i)),
              s\<lparr>emails := updateAll (bulkUpdate (action i))
                       (orderByReceivedAtDesc (filter (bulkFilter (action i)) (emails s)))
                       (emails s),
                callsUntilError :=
                  Some (k - length (filter (bulkFilter (action i)) (emails s)))\<rparr>)
        else (Thrown,
              afterRejection (s\<lparr>emails := updateAll (bulkUpdate (action i))
                       (take k (orderByReceivedAtDesc (filter (bulkFilter (action i)) (emails s))))
                       (emails s)\<rparr>)))"
  by (simp add: bulk_all_shape [OF a allp] bulk_run split: option.splits nat.splits)

lemma inbox_notDeleted:
  "orderByReceivedAtDesc (filter notDeleted (emails (inboxStore b))) = [mailB, mailC, mailA]"
  by (simp add: emails_inboxStore orderByReceivedAtDesc_def notDeleted_def mailA_def mailB_def
      mailC_def mkEmail_def)

lemma inbox_notDeleted_count: "length (filter notDeleted (emails (inboxStore b))) = 3"
  using inbox_notDeleted [of b]
  by (metis length_orderByReceivedAtDesc length_Cons list.size(3) numeral_3_eq_3)

lemma inbox_all_important:
  "updateAll (noUpdates\<lparr>u_isImportant := Some True\<rparr>) [mailB, mailC, mailA]
     (emails (inboxStore b)) =
   [mailA\<lparr>isImportant := True\<rparr>, mailB\<lparr>isImportant := True\<rparr>, mailC]"
  by (simp add: emails_inboxStore updateRows_def setUpdates_def noUpdates_def mailA_def
      mailB_def mailC_def mkEmail_def)

lemma showNat_3: "showNat 3 = ''3''"
  by code_simp

lemma markAllImportant_run:
  "execute exampleLlm markAllImportant (inboxStore None) =
     (Returned (withSummary ''Marked all 3 emails as important.''
        (initialResult markAllImportant)),
      (inboxStore None)\<lparr>emails :=
         [mailA\<lparr>isImportant := True\<rparr>, mailB\<lparr>isImportant := True\<rparr>, mailC]\<rparr>)"
proof -
  have a: "action markAllImportant \<in> set bulkActions"
    by (simp add: markAllImportant_def mkIntent_def bulkActions_def)
  have p: "truthyFlag (param p_all markAllImportant)"
    by (simp add: markAllImportant_def mkIntent_def truthyFlag_def param_def noParameters_def)
  have n: "action markAllImportant = ''mark_important''"
    by (simp add: markAllImportant_def mkIntent_def)
  have f: "bulkFilter ''mark_important'' = notDeleted" by (simp add: bulkFilter_def)
  have u: "bulkUpdate ''mark_important'' = noUpdates\<lparr>u_isImportant := Some True\<rparr>"
    by (simp add: bulkUpdate_def)
  have m: "bulkSummary ''mark_important'' 3 = ''Marked all 3 emails as important.''"
    by (simp add: bulkSummary_def showNat_3)
  show ?thesis
    by (simp add: bulk_all_run [OF a p] budget_inboxStore n f u inbox_notDeleted
        inbox_notDeleted_count m inbox_all_important del: updateAll_Cons updateAll_Nil)
qed

lemma selectEmails_recent:
  "selectEmails (noFilters\<lparr>f_isDeleted := Some False, f_limit := Some n\<rparr>) rows =
     (if n = 0 then orderByReceivedAtDesc (filter notDeleted rows)
      else take n (orderByReceivedAtDesc (filter notDeleted rows)))"
proof -
  have "conditions (noFilters\<lparr>f_isDeleted := Some False, f_limit := Some n\<rparr>) = notDeleted"
    by (rule ext) (simp add: conditions_def noFilters_def notDeleted_def)
  then show ?thesis
    by (simp add: selectEmails_def applyLimit_def applyOffset_def noFilters_def)
qed

section \<open>Flag actions\<close>

lemma selectEmails_important_limit:
  "selectEmails (noFilters\<lparr>f_isImportant := Some True, f_isDeleted := Some False,
                            f_limit := Some n\<rparr>) rows =
     (if n = 0 then orderByReceivedAtDesc (filter important rows)
      else take n (orderByReceivedAtDesc (filter important rows)))"
proof -
  have "conditions (noFilters\<lparr>f_isImportant := Some True, f_isDeleted := Some False,
                            f_limit := Some n\<rparr>) = important"
    by (rule ext) (simp add: conditions_def noFilters_def important_def)
  then show ?thesis
    by (simp add: selectEmails_def applyLimit_def applyOffset_def noFilters_def)
qed

lemma point_shape:
  assumes a: "action i \<in> set flagActions"
    and nall: "\<not> truthyFlag (param p_all i)"
    and idn: "truthyNumber (param p_emailId i) = Some n"
  shows "execute llm i =
           bind (updateEmail n (bulkUpdate (action i)))
             (\<lambda>_. ret (withSummary (pointSummary (action i)) (initialResult i)))"
proof -
  have "action i = ''mark_as_read'' \<or> action i = ''mark_unread'' \<or>
        action i = ''mark_important'' \<or> action i = ''remove_important''"
    using a by (simp add: flagActions_def)
  then show ?thesis
    using nall idn
    by (elim disjE)
      (simp_all add: execute_def markAsReadCase_def markUnreadCase_def markImportantCase_def
        removeImportantCase_def bulkUpdate_def pointSummary_def)
qed

lemma fallback_shape:
  assumes a: "action i \<in> set fallbackActions"
    and nall: "\<not> truthyFlag (param p_all i)"
    and idn: "truthyNumber (param p_emailId i) = None"
  shows "execute llm i =
           bind (storeCall (\<lambda>s. (Returned (take 1 (orderByReceivedAtDesc
                                    (filter (bulkFilter (action i)) (emails s)))), s)))
             (\<lambda>recent. case recent of
                [] \<Rightarrow> ret (withSummary (nothingSummary (action i)) (initialResult i))
              | e # _ \<Rightarrow>
                  bind (updateEmail (email_id e) (bulkUpdate (action i)))
                    (\<lambda>_. ret (withSummary (recentSummary (action i)) (initialResult i))))"
proof -
  have "action i = ''mark_unread'' \<or> action i = ''mark_important'' \<or>
        action i = ''remove_important''"
    using a by (simp add: fallbackActions_def)
  then show ?thesis
    using nall idn
    by (elim disjE)
      (simp_all add: execute_def markUnreadCase_def markImportantCase_def
        removeImportantCase_def getEmails_def selectEmails_recent selectEmails_important_limit
        bulkFilter_def bulkUpdate_def recentSummary_def nothingSummary_def
        cong: list.case_cong)
qed

lemma mark_as_read_clarifies:
  assumes a: "action i = ''mark_as_read''"
    and nall: "\<not> truthyFlag (param p_all i)"
    and idn: "truthyNumber (param p_emailId i) = None"
  shows "execute llm i s = (Returned (withSummary markAsReadClarification (initialResult i)), s)"
  using a nall idn
  by (simp add: execute_def markAsReadCase_def markAsReadClarification_def ret_def)

lemma updateRows_single:
  assumes ids: "distinct (map email_id rows)" and e: "e \<in> set rows"
  shows "updateRows (email_id e) u rows = map (\<lambda>r. if r = e then setUpdates u r else r) rows"
proof -
  have "updateAll u [e] rows = map (\<lambda>r. if r \<in> set [e] then setUpdates u r else r) rows"
    using ids by (rule updateAll_members) (simp add: e)
  then show ?thesis by simp
qed

lemma flag_is_bulk: "a \<in> set flagActions \<Longrightarrow> a \<in> set bulkActions"
  by (auto simp add: flagActions_def bulkActions_def)

lemma inbox_all_unread:
  "map (\<lambda>e. if bulkFilter ''mark_unread'' e then setUpdates (bulkUpdate ''mark_unread'') e else e)
     (emails (inboxStore b)) = [mailA, mailB, mailC\<lparr>isRead := False\<rparr>]"
  by (simp add: emails_inboxStore bulkFilter_def bulkUpdate_def notDeleted_def setUpdates_def
      noUpdates_def mailA_def mailB_def mailC_def mkEmail_def)

lemma inbox_third_plain:
  "map (\<lambda>e. if email_id e = 3 then setUpdates (bulkUpdate ''remove_important'') e else e)
     (emails (inboxStore b)) = [mailA, mailB, mailC\<lparr>isImportant := False\<rparr>]"
  by (simp add: emails_inboxStore bulkUpdate_def setUpdates_def noUpdates_def mailA_def
      mailB_def mailC_def mkEmail_def)

lemma inbox_newest_important:
  "updateRows (email_id mailB) (noUpdates\<lparr>u_isImportant := Some True\<rparr>) (emails (inboxStore b)) =
     [mailA, mailB\<lparr>isImportant := True\<rparr>, mailC]"
  by (simp add: emails_inboxStore updateRows_def setUpdates_def noUpdates_def mailA_def
      mailB_def mailC_def mkEmail_def)

lemma markImportantPlain_run:
  "execute exampleLlm markImportantPlain (inboxStore None) =
     (Returned (withSummary ''Most recent email marked as important.''
        (initialResult markImportantPlain)),
      (inboxStore None)\<lparr>emails := [mailA, mailB\<lparr>isImportant := True\<rparr>, mailC]\<rparr>)"
proof -
  have a: "action markImportantPlain \<in> set fallbackActions"
    by (simp add: markImportantPlain_def mkIntent_def fallbackActions_def)
  have p: "\<not> truthyFlag (param p_all markImportantPlain)"
    by (simp add: markImportantPlain_def mkIntent_def truthyFlag_def param_def noParameters_def)
  have n: "truthyNumber (param p_emailId markImportantPlain) = None"
    by (simp add: markImportantPlain_def mkIntent_def truthyNumber_def param_def
        noParameters_def)
  have m: "action markImportantPlain = ''mark_important''"
    by (simp add: markImportantPlain_def mkIntent_def)
  have f: "bulkFilter ''mark_important'' = notDeleted" by (simp add: bulkFilter_def)
  have u: "bulkUpdate ''mark_important'' = noUpdates\<lparr>u_isImportant := Some True\<rparr>"
    by (simp add: bulkUpdate_def)
  have h: "callsUntilError (inboxStore None) = None" by (simp add: budget_inboxStore)
  show ?thesis
    by (simp add: fallback_shape [OF a p n] m f u bind_def storeCall_healthy [OF h]
        inbox_notDeleted updateEmail_healthy [OF h] inbox_newest_important ret_def
        recentSummary_def)
qed

lemma inbox_newest: "mostRecent 1 notDeleted (emails (inboxStore b)) [mailB]"
  using mostRecent_take [of 1 notDeleted "emails (inboxStore b)"]
  by (simp add: inbox_notDeleted)

section \<open>Archive and delete\<close>

lemma setUpdates_archive [simp]:
  "setUpdates (noUpdates\<lparr>u_isDeleted := Some True\<rparr>) e = e\<lparr>isDeleted := True\<rparr>"
  by (simp add: setUpdates_def noUpdates_def)

lemma keeps_rowIds_archive: "keeps rowIds (archiveEmailsCase i)"
  unfolding archiveEmailsCase_def updateEach_def
  by (intro keeps_intros keeps_rowIds)

lemma keeps_rowIds_delete: "keeps rowIds (deleteEmailsCase i)"
  unfolding deleteEmailsCase_def updateEach_def
  by (intro keeps_intros keeps_rowIds)

lemma archive_query_run:
  assumes healthy: "callsUntilError s = None" and ids: "distinct (map email_id (emails s))"
    and nall: "\<not> truthyFlag (param p_all i)"
    and query: "truthyString (param p_query i) = Some q"
  shows "archiveEmailsCase i s =
           (Returned (withSummary
              (''Archived '' @ showNat (length (filter (searchMatches q) (emails s))) @
               '' emails matching '' @ dquote @ q @ dquote @ ''.'') (initialResult i)),
            s\<lparr>emails := map (\<lambda>e. if searchMatches q e then e\<lparr>isDeleted := True\<rparr> else e)
                             (emails s)\<rparr>)"
  using nall query healthy
  by (simp add: archiveEmailsCase_def searchEmails_def bulk_run updateAll_selected [OF ids])

lemma inbox_reports:
  "map (\<lambda>e. if searchMatches ''report'' e then e\<lparr>isDeleted := True\<rparr> else e)
     (emails (inboxStore b)) = [mailA, mailB\<lparr>isDeleted := True\<rparr>, mailC]"
  by code_simp

lemma inbox_reports_count:
  "length (filter (searchMatches ''report'') (emails (inboxStore b))) = 1"
  by code_simp

lemma inbox_all_archived:
  "map (\<lambda>e. if notDeleted e then e\<lparr>isDeleted := True\<rparr> else e) (emails (inboxStore b)) =
     [mailA\<lparr>isDeleted := True\<rparr>, mailB\<lparr>isDeleted := True\<rparr>, mailC\<lparr>isDeleted := True\<rparr>]"
  by (simp add: emails_inboxStore notDeleted_def mailA_def mailB_def mailC_def mkEmail_def)

lemma rowIds_inboxStore: "rowIds (inboxStore b) = [1, 2, 3]"
  by (simp add: rowIds_def emails_inboxStore mailA_def mailB_def mailC_def mkEmail_def)

lemma showNat_1: "showNat (Suc 0) = ''1''"
  by code_simp

lemma mailB_is_a_report: "searchMatches ''report'' mailB"
  by code_simp

lemma inbox_second_archived:
  "updateRows 2 (noUpdates\<lparr>u_isDeleted := Some True\<rparr>) (emails (inboxStore b)) =
     [mailA, mailB\<lparr>isDeleted := True\<rparr>, mailC]"
  by (simp add: emails_inboxStore updateRows_def mailA_def mailB_def mailC_def mkEmail_def)

section \<open>The branches that loop\<close>

lemma bind_storeCall_map:
  "bind (storeCall (\<lambda>s. (Returned (g s), s))) (\<lambda>x. F (h x)) =
   bind (storeCall (\<lambda>s. (Returned (h (g s)), s))) F"
  by (rule ext) (simp add: bind_def storeCall_def split: option.splits nat.splits)

lemma filter_orderBy:
  "filter P (orderByReceivedAtDesc rows) = orderByReceivedAtDesc (filter P rows)"
  by (simp add: orderByReceivedAtDesc_def filter_sort)

lemma bulkProgram_updates:
  "bulkProgram \<lparr>selects = P, applies = SetFlags u, reports = R\<rparr> i =
     bind (storeCall (\<lambda>s. (Returned (orderByReceivedAtDesc (filter P (emails s))), s)))
       (\<lambda>es. bind (updateEach u es) (\<lambda>_. ret (withSummary (R (length es)) (initialResult i))))"
  by (simp add: bulkProgram_def updateEach_runOp)

lemma bulkProgram_deletes:
  "bulkProgram \<lparr>selects = P, applies = RemoveRow, reports = R\<rparr> i =
     bind (storeCall (\<lambda>s. (Returned (orderByReceivedAtDesc (filter P (emails s))), s)))
       (\<lambda>es. bind (deleteEach es) (\<lambda>_. ret (withSummary (R (length es)) (initialResult i))))"
  by (simp add: bulkProgram_def deleteEach_runOp)

lemma restore_sender_shape:
  "bind (getEmails (noFilters\<lparr>f_isDeleted := Some True\<rparr>))
     (\<lambda>archivedEmails. let senderEmails = filter Q archivedEmails in F senderEmails) =
   bind (storeCall (\<lambda>s. (Returned (orderByReceivedAtDesc
                             (filter (\<lambda>e. isDeleted e \<and> Q e) (emails s))), s))) F"
  by (simp add: getEmails_def selectEmails_isDeleted Let_def
      bind_storeCall_map [where h = "filter Q" and F = F] filter_orderBy)

lemma search_archived_shape:
  "bind (searchEmails q)
     (\<lambda>searchResults. let archivedResults = filter isDeleted searchResults in F archivedResults) =
   bind (storeCall (\<lambda>s. (Returned (orderByReceivedAtDesc
                             (filter (\<lambda>e. searchMatches q e \<and> isDeleted e) (emails s))), s))) F"
  by (simp add: searchEmails_def Let_def
      bind_storeCall_map [where h = "filter isDeleted" and F = F] filter_orderBy)

lemma bulk_branch_shape:
  assumes "bulkBranch i = Some b"
  shows "execute llm i = bulkProgram b i"
proof (cases "action i \<in> set bulkActions \<and> truthyFlag (param p_all i)")
  case True
  then have b: "b = \<lparr>selects = bulkFilter (action i), applies = SetFlags (bulkUpdate (action i)),
                     reports = bulkSummary (action i)\<rparr>"
    using assms by (simp add: bulkBranch_def Let_def)
  show ?thesis
    using True by (simp add: b bulkProgram_updates bulk_all_shape)
next
  case False
  note nb = False
  show ?thesis
  proof (cases "action i = ''archive_emails''")
    case True
    then have nall: "\<not> truthyFlag (param p_all i)" using nb by (simp add: bulkActions_def)
    obtain q where q: "truthyString (param p_query i) = Some q"
      and b: "b = \<lparr>selects = searchMatches q,
                   applies = SetFlags (noUpdates\<lparr>u_isDeleted := Some True\<rparr>),
                   reports = (\<lambda>n. ''Archived '' @ showNat n @ '' emails matching '' @
                                  dquote @ q @ dquote @ ''.'')\<rparr>"
      using assms True nb by (auto simp add: bulkBranch_def Let_def split: option.splits)
    show ?thesis
      using True nall q
      by (simp add: b bulkProgram_updates execute_def archiveEmailsCase_def searchEmails_def)
  next
    case False
    note na = False
    show ?thesis
    proof (cases "action i = ''restore_emails'' \<or> action i = ''unarchive_emails''")
      case True
      then have nall: "\<not> truthyFlag (param p_all i)" using nb by (auto simp add: bulkActions_def)
      have ex: "execute llm i = restoreEmailsCase i" using True by (rule execute_restore)
      show ?thesis
      proof (cases "truthyString (param p_sender i)")
        case (Some sn)
        then have b: "b = \<lparr>selects = (\<lambda>e. isDeleted e \<and> fromSender sn e),
                   applies = SetFlags (noUpdates\<lparr>u_isDeleted := Some False\<rparr>),
                   reports = (\<lambda>n. ''Restored '' @ showNat n @ '' archived emails from '' @
                                  sn @ '' back to your inbox.'')\<rparr>"
          using assms True nb na by (auto simp add: bulkBranch_def Let_def)
        show ?thesis
          using nall Some
          by (simp add: ex b bulkProgram_updates restoreEmailsCase_def restore_sender_shape)
      next
        case None
        then obtain q where q: "truthyString (param p_query i) = Some q"
          and b: "b = \<lparr>selects = (\<lambda>e. searchMatches q e \<and> isDeleted e),
                       applies = SetFlags (noUpdates\<lparr>u_isDeleted := Some False\<rparr>),
                       reports = (\<lambda>n. ''Restored '' @ showNat n @ '' archived emails matching '' @
                                      dquote @ q @ dquote @ '' back to your inbox.'')\<rparr>"
          using assms True nb na by (auto simp add: bulkBranch_def Let_def split: option.splits)
        show ?thesis
          using nall None q
          by (simp add: ex b bulkProgram_updates restoreEmailsCase_def search_archived_shape)
      qed
    next
      case False
      then have pd: "action i = ''permanently_delete''"
        using assms nb na by (auto simp add: bulkBranch_def Let_def split: if_splits)
      then have ex: "execute llm i = permanentlyDeleteCase i" by (simp add: execute_def)
      show ?thesis
      proof (cases "truthyFlag (param p_all i)")
        case True
        then have b: "b = \<lparr>selects = isDeleted, applies = RemoveRow,
                 reports = (\<lambda>n. ''Permanently deleted '' @ showNat n @
                                '' archived emails. This action cannot be undone.'')\<rparr>"
          using assms pd nb by (auto simp add: bulkBranch_def Let_def bulkActions_def)
        show ?thesis
          using True
          by (simp add: ex b bulkProgram_deletes permanentlyDeleteCase_def getEmails_def
              selectEmails_isDeleted)
      next
        case False
        then obtain q where q: "truthyString (param p_query i) = Some q"
          and b: "b = \<lparr>selects = (\<lambda>e. isDeleted e \<and> matchesTerm q e), applies = RemoveRow,
                      reports = (\<lambda>n. ''Permanently deleted '' @ showNat n @ '' emails matching '' @
                                     dquote @ q @ dquote @ ''. This action cannot be undone.'')\<rparr>"
          using assms pd nb
          by (auto simp add: bulkBranch_def Let_def bulkActions_def split: option.splits)
        show ?thesis
          using False q
          by (simp add: ex b bulkProgram_deletes permanentlyDeleteCase_def restore_sender_shape)
      qed
    qed
  qed
qed

lemma bulkProgram_run:
  "bulkProgram b i s =
     (case callsUntilError s of
        None \<Rightarrow>
          (Returned (withSummary
             (reports b (length (filter (selects b) (emails s)))) (initialResult i)),
           s\<lparr>emails := applyAll (applies b)
                         (orderByReceivedAtDesc (filter (selects b) (emails s))) (emails s)\<rparr>)
      | Some k \<Rightarrow>
          if length (filter (selects b) (emails s)) < k
          then (Returned (withSummary
                  (reports b (length (filter (selects b) (emails s)))) (initialResult i)),
                s\<lparr>emails := applyAll (applies b)
                              (orderByReceivedAtDesc (filter (selects b) (emails s))) (emails s),
                  callsUntilError := Some (k - (length (filter (selects b) (emails s)) + 1))\<rparr>)
          else (Thrown,
                afterRejection
                  (s\<lparr>emails := applyAll (applies b)
                       (take (k - 1) (orderByReceivedAtDesc (filter (selects b) (emails s))))
                       (emails s)\<rparr>)))"
proof (cases "callsUntilError s")
  case None
  then show ?thesis
    by (simp add: bulkProgram_def bind_def storeCall_healthy forEach_runOp ret_def)
next
  case (Some k)
  show ?thesis
  proof (cases k)
    case 0
    then show ?thesis
      using Some by (simp add: bulkProgram_def bind_def storeCall_exhausted)
  next
    case (Suc j)
    then show ?thesis
      using Some
      by (simp add: bulkProgram_def bind_def storeCall_counted forEach_runOp ret_def
          afterRejection_def)
  qed
qed

lemma applyAll_RemoveRow:
  "applyAll RemoveRow es rows = filter (\<lambda>r. email_id r \<notin> email_id ` set es) rows"
proof (induction es arbitrary: rows)
  case Nil
  then show ?case by simp
next
  case (Cons e es)
  show ?case by (simp add: Cons.IH applyOp_def)
qed

lemma applyAll_members:
  assumes ids: "distinct (map email_id rows)" and sub: "set es \<subseteq> set rows"
  shows "applyAll op es rows = applyTo op es rows"
proof (cases op)
  case (SetFlags u)
  then show ?thesis
    by (simp add: applyAll_SetFlags applyTo_def updateAll_members [OF ids sub])
next
  case RemoveRow
  have inj: "inj_on email_id (set rows)" using ids by (simp add: distinct_map)
  have "(email_id r \<notin> email_id ` set es) = (r \<notin> set es)" if "r \<in> set rows" for r
    using that sub inj by (auto simp add: inj_on_def)
  then show ?thesis
    using RemoveRow by (simp add: applyAll_RemoveRow applyTo_def cong: filter_cong)
qed

lemma selection_orderBy: "selection P rows (orderByReceivedAtDesc (filter P rows))"
  by (simp add: selection_def newestFirst_orderBy)

lemma changedFlags_applyTo:
  assumes ids: "distinct (map email_id rows)" and sub: "set es \<subseteq> set rows"
    and dis: "distinct es"
  shows "changedFlags rows (applyTo (SetFlags u) es rows) = altered u es"
proof -
  have rows: "distinct rows" using ids by (rule distinct_map [THEN iffD1, THEN conjunct1])
  have "changedFlags rows (applyTo (SetFlags u) es rows) =
          length (filter (\<lambda>r. flags r \<noteq> flags (if r \<in> set es then setUpdates u r else r)) rows)"
    by (simp add: changedFlags_def applyTo_def zip_map_self filter_map o_def)
  also have "\<dots> = length (filter (\<lambda>r. r \<in> set es \<and> flags (setUpdates u r) \<noteq> flags r) rows)"
    by (rule arg_cong [where f = length], rule filter_cong) auto
  also have "\<dots> = card ({r. r \<in> set es \<and> flags (setUpdates u r) \<noteq> flags r} \<inter> set rows)"
    using rows by (rule distinct_length_filter)
  also have "{r. r \<in> set es \<and> flags (setUpdates u r) \<noteq> flags r} \<inter> set rows =
             {r. flags (setUpdates u r) \<noteq> flags r} \<inter> set es"
    using sub by auto
  also have "card \<dots> = length (filter (\<lambda>r. flags (setUpdates u r) \<noteq> flags r) es)"
    using dis by (rule distinct_length_filter [symmetric])
  finally show ?thesis by (simp add: altered_def)
qed

lemma removed_applyTo:
  assumes ids: "distinct (map email_id rows)" and sub: "set es \<subseteq> set rows"
    and dis: "distinct es"
  shows "length (applyTo RemoveRow es rows) + length es = length rows"
proof -
  have rows: "distinct rows" using ids by (rule distinct_map [THEN iffD1, THEN conjunct1])
  have "length (filter (\<lambda>r. r \<in> set es) rows) = card ({r. r \<in> set es} \<inter> set rows)"
    using rows by (rule distinct_length_filter)
  also have "{r. r \<in> set es} \<inter> set rows = set es" using sub by auto
  also have "card (set es) = length es" using dis by (rule distinct_card)
  finally have "length (filter (\<lambda>r. r \<in> set es) rows) = length es" .
  moreover have "length (filter (\<lambda>r. r \<notin> set es) rows) + length (filter (\<lambda>r. r \<in> set es) rows) =
                 length rows"
    using sum_length_filter_compl [of "\<lambda>r. r \<in> set es" rows] by simp
  ultimately show ?thesis by (simp add: applyTo_def)
qed

lemma respond_Returned [simp]: "respond (Returned r, s) = (Status200 r, s)"
  by (simp add: respond_def)

lemma respond_Thrown [simp]:
  "respond (Thrown, s) = (Status500 ''Failed to process voice command'', s)"
  by (simp add: respond_def)

section \<open>Counting store calls\<close>

lemma callsAtMost_ret: "callsAtMost n (ret x)"
  by (simp add: callsAtMost_def ret_def)

lemma callsAtMost_storeCall:
  assumes "\<And>s. \<exists>x s'. run s = (Returned x, s') \<and> callsUntilError s' = callsUntilError s"
    and "1 \<le> n"
  shows "callsAtMost n (storeCall run)"
proof -
  have "\<exists>x s' k'. storeCall run s = (Returned x, s') \<and> callsUntilError s' = Some k' \<and> k \<le> k' + n"
    if "callsUntilError s = Some k" and "n \<le> k" for s k
  proof (cases k)
    case 0
    then show ?thesis using that assms(2) by simp
  next
    case (Suc j)
    obtain x s' where r: "run (s\<lparr>callsUntilError := Some j\<rparr>) = (Returned x, s')"
      and c: "callsUntilError s' = callsUntilError (s\<lparr>callsUntilError := Some j\<rparr>)"
      using assms(1) by blast
    show ?thesis
      using that Suc r c assms(2) by (simp add: storeCall_def)
  qed
  then show ?thesis by (simp add: callsAtMost_def)
qed

lemma callsAtMost_getEmails: "1 \<le> n \<Longrightarrow> callsAtMost n (getEmails f)"
  unfolding getEmails_def by (rule callsAtMost_storeCall) simp_all

lemma callsAtMost_searchEmails: "1 \<le> n \<Longrightarrow> callsAtMost n (searchEmails q)"
  unfolding searchEmails_def by (rule callsAtMost_storeCall) simp_all

lemma callsAtMost_updateEmail: "1 \<le> n \<Longrightarrow> callsAtMost n (updateEmail j u)"
  unfolding updateEmail_def by (rule callsAtMost_storeCall) simp_all

lemma callsAtMost_bind:
  assumes m: "callsAtMost 1 m" and f: "\<And>x. callsAtMost (n - 1) (f x)" and n: "1 \<le> n"
  shows "callsAtMost n (bind m f)"
proof -
  have "\<exists>x s' k'. bind m f s = (Returned x, s') \<and> callsUntilError s' = Some k' \<and> k \<le> k' + n"
    if c: "callsUntilError s = Some k" and le: "n \<le> k" for s k
  proof -
    have "1 \<le> k" using n le by simp
    then obtain x s1 k1 where r1: "m s = (Returned x, s1)" and c1: "callsUntilError s1 = Some k1"
      and l1: "k \<le> k1 + 1"
      using m c unfolding callsAtMost_def by blast
    have "n - 1 \<le> k1" using le l1 by simp
    then obtain y s2 k2 where r2: "f x s1 = (Returned y, s2)" and c2: "callsUntilError s2 = Some k2"
      and l2: "k1 \<le> k2 + (n - 1)"
      using f [of x] c1 unfolding callsAtMost_def by blast
    have "k \<le> k2 + n" using l1 l2 n by simp
    then show ?thesis using r1 r2 c2 by (simp add: bind_def)
  qed
  then show ?thesis by (simp add: callsAtMost_def)
qed

lemma callsAtMost_if: "callsAtMost n a \<Longrightarrow> callsAtMost n b \<Longrightarrow> callsAtMost n (if c then a else b)"
  by simp

lemma callsAtMost_case_option:
  "callsAtMost n a \<Longrightarrow> (\<And>x. callsAtMost n (b x)) \<Longrightarrow>
   callsAtMost n (case v of None \<Rightarrow> a | Some x \<Rightarrow> b x)"
  by (cases v) simp_all

lemma callsAtMost_case_list:
  "callsAtMost n a \<Longrightarrow> (\<And>x xs. callsAtMost n (b x xs)) \<Longrightarrow>
   callsAtMost n (case v of [] \<Rightarrow> a | x # xs \<Rightarrow> b x xs)"
  by (cases v) simp_all

lemma callsAtMost_Let: "(\<And>x. callsAtMost n (b x)) \<Longrightarrow> callsAtMost n (Let v b)"
  by (simp add: Let_def)

lemmas callsAtMost_intros =
  callsAtMost_ret callsAtMost_bind callsAtMost_getEmails callsAtMost_searchEmails
  callsAtMost_updateEmail callsAtMost_if callsAtMost_case_option callsAtMost_case_list
  callsAtMost_Let

lemma no_loop_elsewhere:
  assumes none: "bulkBranch i = None"
  shows "callsAtMost 2 (execute llm i)"
proof -
  have nall: "\<not> truthyFlag (param p_all i)" if "action i \<in> set bulkActions"
    using none that by (simp add: bulkBranch_def Let_def split: if_splits)
  show ?thesis
  proof (cases "action i \<in> set bulkActions")
    case True
    note nall = nall [OF True]
    have "action i = ''mark_as_read'' \<or> action i = ''delete_emails'' \<or>
          action i = ''mark_important'' \<or> action i = ''archive_emails'' \<or>
          action i = ''restore_emails'' \<or> action i = ''unarchive_emails'' \<or>
          action i = ''mark_unread'' \<or> action i = ''remove_important''"
      using True by (simp add: bulkActions_def)
    then show ?thesis
    proof (elim disjE)
      assume a: "action i = ''mark_as_read''"
      show ?thesis
        using nall by (simp add: execute_def a markAsReadCase_def) (intro callsAtMost_intros; simp)
    next
      assume a: "action i = ''delete_emails''"
      show ?thesis
        using nall by (simp add: execute_def a deleteEmailsCase_def) (intro callsAtMost_intros; simp)
    next
      assume a: "action i = ''mark_important''"
      show ?thesis
        using nall by (simp add: execute_def a markImportantCase_def) (intro callsAtMost_intros; simp)
    next
      assume a: "action i = ''archive_emails''"
      have q: "truthyString (param p_query i) = None"
        using none a nall
        by (simp add: bulkBranch_def Let_def bulkActions_def split: option.splits if_splits)
      show ?thesis
        using nall q by (simp add: execute_def a archiveEmailsCase_def) (intro callsAtMost_intros; simp)
    next
      assume a: "action i = ''restore_emails''"
      have q: "truthyString (param p_sender i) = None \<and> truthyString (param p_query i) = None"
        using none a nall
        by (simp add: bulkBranch_def Let_def bulkActions_def split: option.splits if_splits)
      show ?thesis
        using nall q by (simp add: execute_def a restoreEmailsCase_def) (intro callsAtMost_intros; simp)
    next
      assume a: "action i = ''unarchive_emails''"
      have q: "truthyString (param p_sender i) = None \<and> truthyString (param p_query i) = None"
        using none a nall
        by (simp add: bulkBranch_def Let_def bulkActions_def split: option.splits if_splits)
      show ?thesis
        using nall q by (simp add: execute_def a restoreEmailsCase_def) (intro callsAtMost_intros; simp)
    next
      assume a: "action i = ''mark_unread''"
      show ?thesis
        using nall by (simp add: execute_def a markUnreadCase_def) (intro callsAtMost_intros; simp)
    next
      assume a: "action i = ''remove_important''"
      show ?thesis
        using nall by (simp add: execute_def a removeImportantCase_def) (intro callsAtMost_intros; simp)
    qed
  next
    case False
    then have nb: "action i \<noteq> ''mark_as_read''" "action i \<noteq> ''delete_emails''"
      "action i \<noteq> ''mark_important''" "action i \<noteq> ''archive_emails''"
      "action i \<noteq> ''restore_emails''" "action i \<noteq> ''unarchive_emails''"
      "action i \<noteq> ''mark_unread''" "action i \<noteq> ''remove_important''"
      by (auto simp add: bulkActions_def)
    show ?thesis
    proof (cases "action i = ''permanently_delete''")
      case True
      have q: "\<not> truthyFlag (param p_all i) \<and> truthyString (param p_query i) = None"
        using none True False
        by (simp add: bulkBranch_def Let_def bulkActions_def split: option.splits if_splits)
      show ?thesis
        using q by (simp add: execute_def True permanentlyDeleteCase_def)
          (intro callsAtMost_intros; simp)
    next
      case False
      show ?thesis
        using nb False
        by (simp add: execute_def Let_def readEmailsCase_def searchEmailsCase_def
            getImportantCase_def getRecentCase_def composeEmailCase_def replyEmailCase_def
            forwardEmailCase_def getArchivedCase_def switchTabCase_def defaultCase_def)
          (intro conjI impI callsAtMost_intros; simp)
    qed
  qed
qed

section \<open>Intent resolution\<close>

lemma clamp_range:
  "n \<noteq> NaN \<Longrightarrow> \<exists>c. Math_max (Finite 0) (Math_min (Finite 1) n) = Finite c \<and> 0 \<le> c \<and> c \<le> 1"
  by (cases n) auto

lemma numeric_ToNumber:
  assumes "numericConfidence (JsonObject r)"
  shows "\<exists>n. ToNumber coerce (orValue (raw_confidence r) (JNumber (Finite (1 / 2)))) = Some n \<and>
             n \<noteq> NaN"
proof (cases "raw_confidence r")
  case None
  then show ?thesis by (simp add: orValue_def)
next
  case (Some v)
  then show ?thesis
    using assms by (cases v) (auto simp add: numericConfidence_def orValue_def)
qed

text \<open>
  Claim C2, as the code has it. A raw confidence that is a finite number other than zero
  is clamped: below zero it gives 0, above one it gives 1, and in between it is kept. A
  confidence that is absent or falsy (null, false, zero, the empty string) gives one
  half. Whenever the reply is not an object, or the confidence of the object is absent,
  null, a boolean or a number, the confidence of the resolved intent is a number in
  \<open>[0, 1]\<close>. When the provider call fails, or its content is not JSON or is the JSON
  null, the resolver returns the intent \<open>unknown\<close> with confidence 0 and no
  parameters; the resolver returns an intent for every reply, so nothing is raised to the
  caller. An empty content is read as the empty object: the action is \<open>unknown\<close>, the
  parameter bag is empty and the confidence is one half.
\<close>

theorem resolver_confidence_and_fail_soft:
  "(nlu t = JsonObject r \<and> raw_confidence r = Some (JNumber (Finite c)) \<and> c \<noteq> 0 \<longrightarrow>
      confidence (processVoiceCommand coerce nlu t) =
        Finite (if c < 0 then 0 else if 1 < c then 1 else c)) \<and>
   (nlu t = JsonObject r \<and>
    (raw_confidence r = None \<or> (\<exists>v. raw_confidence r = Some v \<and> \<not> truthy v)) \<longrightarrow>
      confidence (processVoiceCommand coerce nlu t) = Finite (1 / 2)) \<and>
   (numericConfidence (nlu t) \<longrightarrow>
      (\<exists>x. confidence (processVoiceCommand coerce nlu t) = Finite x \<and> 0 \<le> x \<and> x \<le> 1)) \<and>
   (nlu t = ProviderError \<or> nlu t = NotJson \<or> nlu t = JsonNull \<longrightarrow>
      processVoiceCommand coerce nlu t = unknownIntent) \<and>
   (nlu t = NoContent \<longrightarrow>
      processVoiceCommand coerce nlu t =
        \<lparr>action = JString ''unknown'', parameters = Some noParameters,
         confidence = Finite (1 / 2)\<rparr>)"
proof -
  have clamp: "nlu t = JsonObject r \<and> raw_confidence r = Some (JNumber (Finite c)) \<and> c \<noteq> 0 \<longrightarrow>
      confidence (processVoiceCommand coerce nlu t) =
        Finite (if c < 0 then 0 else if 1 < c then 1 else c)"
    by (simp add: processVoiceCommand_def normalizeResult_def orValue_def)
  have dflt: "nlu t = JsonObject r \<and>
    (raw_confidence r = None \<or> (\<exists>v. raw_confidence r = Some v \<and> \<not> truthy v)) \<longrightarrow>
      confidence (processVoiceCommand coerce nlu t) = Finite (1 / 2)"
    by (auto simp add: processVoiceCommand_def normalizeResult_def orValue_def)
  have range: "numericConfidence (nlu t) \<longrightarrow>
      (\<exists>x. confidence (processVoiceCommand coerce nlu t) = Finite x \<and> 0 \<le> x \<and> x \<le> 1)"
  proof (cases "nlu t")
    case (JsonObject q)
    show ?thesis
    proof
      assume "numericConfidence (nlu t)"
      then obtain n where n: "ToNumber coerce (orValue (raw_confidence q) (JNumber (Finite (1 / 2)))) =
          Some n" and nn: "n \<noteq> NaN"
        using numeric_ToNumber [of q coerce] JsonObject by auto
      show "\<exists>x. confidence (processVoiceCommand coerce nlu t) = Finite x \<and> 0 \<le> x \<and> x \<le> 1"
        using clamp_range [OF nn]
        by (simp add: processVoiceCommand_def JsonObject normalizeResult_def n)
    qed
  next
    case NoContent
    have "confidence (processVoiceCommand coerce nlu t) = Finite (1 / 2)"
      by (simp add: processVoiceCommand_def NoContent normalizeResult_def emptyObject_def
          orValue_def)
    moreover have "(0::real) \<le> 1 / 2 \<and> (1::real) / 2 \<le> 1" by simp
    ultimately show ?thesis by blast
  qed (simp_all add: processVoiceCommand_def unknownIntent_def)
  have soft: "nlu t = ProviderError \<or> nlu t = NotJson \<or> nlu t = JsonNull \<longrightarrow>
      processVoiceCommand coerce nlu t = unknownIntent"
    by (auto simp add: processVoiceCommand_def)
  have empty: "nlu t = NoContent \<longrightarrow>
      processVoiceCommand coerce nlu t =
        \<lparr>action = JString ''unknown'', parameters = Some noParameters,
         confidence = Finite (1 / 2)\<rparr>"
    by (simp add: processVoiceCommand_def normalizeResult_def emptyObject_def orValue_def)
  from clamp dflt range soft empty show ?thesis by blast
qed

text \<open>
  The theorem at four providers: raw confidences 1.7 and -0.3 come out as 1 and 0, a
  failing provider gives the unknown intent, a silent one the intent with confidence
  one half.
\<close>

theorem resolver_confidence_and_fail_soft_witness:
  "confidence (processVoiceCommand notANumber overconfidentProvider ''show unread'') = Finite 1 \<and>
   confidence (processVoiceCommand notANumber underconfidentProvider ''show unread'') = Finite 0 \<and>
   processVoiceCommand notANumber failingProvider ''show unread'' = unknownIntent \<and>
   processVoiceCommand notANumber silentProvider ''show unread'' =
     \<lparr>action = JString ''unknown'', parameters = Some noParameters, confidence = Finite (1 / 2)\<rparr>"
  using resolver_confidence_and_fail_soft [of overconfidentProvider "''show unread''"
      "\<lparr>raw_action = Some (JString ''get_unread''), raw_parameters = None,
        raw_confidence = Some (JNumber (Finite (17 / 10)))\<rparr>" "17 / 10" notANumber]
    resolver_confidence_and_fail_soft [of underconfidentProvider "''show unread''"
      "\<lparr>raw_action = Some (JString ''get_unread''), raw_parameters = None,
        raw_confidence = Some (JNumber (Finite (- 3 / 10)))\<rparr>" "- 3 / 10" notANumber]
    resolver_confidence_and_fail_soft [of failingProvider "''show unread''" _ _ notANumber]
    resolver_confidence_and_fail_soft [of silentProvider "''show unread''" _ _ notANumber]
  by (simp add: overconfidentProvider_def underconfidentProvider_def failingProvider_def
      silentProvider_def)

text \<open>
  As claim C2 is worded, an empty provider response gives confidence 0 and no
  parameters. The code gives confidence one half and an empty parameter bag.
\<close>

theorem empty_reply_counterexample:
  "processVoiceCommand notANumber silentProvider ''show unread'' \<noteq>
     \<lparr>action = JString ''unknown'', parameters = None, confidence = Finite 0\<rparr> \<and>
   confidence (processVoiceCommand notANumber silentProvider ''show unread'') \<noteq> Finite 0"
  by (simp add: processVoiceCommand_def silentProvider_def normalizeResult_def emptyObject_def
      orValue_def)

text \<open>
  The clamp lets \<open>NaN\<close> through: a confidence such as \<open>"high"\<close>, which is truthy and
  not a number, comes out of \<open>Math.max(0, Math.min(1, x))\<close> as \<open>NaN\<close>.
\<close>

lemma non_numeric_confidence_is_NaN:
  "confidence (processVoiceCommand notANumber vagueProvider ''show unread'') = NaN"
  by (simp add: processVoiceCommand_def vagueProvider_def normalizeResult_def orValue_def
      notANumber_def)

section \<open>Restoring by query\<close>

lemma filter_isDeleted_search:
  "filter isDeleted (orderByReceivedAtDesc (filter (searchMatches q) rows)) = []"
  by (simp add: filter_empty_conv searchMatches_def Let_def)

text \<open>
  Claim C1 asks that \<open>restore_emails\<close> with a query restore the archived emails that
  match it. The code takes its candidates from \<open>searchEmails\<close>, which returns no
  archived email, and keeps the archived ones among them: none. So for every store and
  every query the branch restores nothing, reports zero, and leaves the store as it was,
  also when an archived email matches the query.
\<close>

theorem restore_by_query_restores_nothing:
  assumes act: "action i = ''restore_emails'' \<or> action i = ''unarchive_emails''"
    and nall: "\<not> truthyFlag (param p_all i)"
    and nsender: "truthyString (param p_sender i) = None"
    and query: "truthyString (param p_query i) = Some q"
  shows "emails (snd (execute llm i s)) = emails s \<and>
         (callsUntilError s = None \<longrightarrow>
            execute llm i s =
              (Returned (withSummary
                 (''Restored 0 archived emails matching '' @ dquote @ q @ dquote @
                  '' back to your inbox.'') (initialResult i)), s))"
proof -
  have run: "execute llm i s =
               bind (searchEmails q)
                 (\<lambda>searchResults. ret (withSummary
                    (''Restored 0 archived emails matching '' @ dquote @ q @ dquote @
                     '' back to your inbox.'') (initialResult i))) s"
    using nall nsender query
    by (simp add: execute_restore [OF act] restoreEmailsCase_def bind_def searchEmails_def
        storeCall_def filter_isDeleted_search showNat_0 ret_def
        split: option.splits nat.splits)
  show ?thesis
  proof (cases "callsUntilError s")
    case None
    then show ?thesis by (simp add: run bind_def searchEmails_healthy ret_def)
  next
    case (Some k)
    then show ?thesis
      by (cases k)
        (simp_all add: run bind_def searchEmails_def storeCall_exhausted storeCall_counted
          ret_def)
  qed
qed

lemma archivedInvoice_matches: "ilike (subject archivedInvoice) ''%invoice%''"
  by code_simp

text \<open>
  The store holds an archived email whose subject matches "invoice"; "restore invoices"
  leaves it archived and reports zero.
\<close>

theorem restore_by_query_restores_nothing_witness:
  "isDeleted archivedInvoice \<and> archivedInvoice \<in> set (emails invoiceStore) \<and>
   ilike (subject archivedInvoice) ''%invoice%'' \<and>
   execute exampleLlm restoreInvoices invoiceStore =
     (Returned (withSummary
        (''Restored 0 archived emails matching '' @ dquote @ ''invoice'' @ dquote @
         '' back to your inbox.'') (initialResult restoreInvoices)), invoiceStore)"
  using restore_by_query_restores_nothing [of restoreInvoices "''invoice''" exampleLlm invoiceStore]
    archivedInvoice_matches
  by (simp add: restoreInvoices_def mkIntent_def noParameters_def param_def truthyFlag_def
      truthyString_def invoiceStore_def mkStore_def archivedInvoice_def mkEmail_def)

section \<open>Marking one email as read\<close>

text \<open>
  Claim C9, as the code has it. For \<open>mark_as_read\<close> without \<open>all\<close> and with an
  \<open>emailId\<close> \<open>n\<close> other than zero that no email carries, the emails are left as they
  were and, unless the store rejects the update call, the summary is the success
  message: the result of the update is not looked at. On a store that never fails the
  whole store is unchanged.
\<close>

theorem mark_as_read_missing_id_reports_success:
  assumes act: "action i = ''mark_as_read''"
    and nall: "\<not> truthyFlag (param p_all i)"
    and idn: "param p_emailId i = Some n"
    and nz: "n \<noteq> 0"
    and absent: "\<forall>e \<in> set (emails s). email_id e \<noteq> n"
  shows "emails (snd (execute llm i s)) = emails s \<and>
         (callsUntilError s = None \<longrightarrow>
            execute llm i s =
              (Returned (withSummary ''Done! Marked that email as read.'' (initialResult i)), s)) \<and>
         (callsUntilError s \<noteq> Some 0 \<longrightarrow>
            fst (execute llm i s) =
              Returned (withSummary ''Done! Marked that email as read.'' (initialResult i)))"
proof -
  have run: "execute llm i s =
               bind (updateEmail n (noUpdates\<lparr>u_isRead := Some True\<rparr>))
                 (\<lambda>_. ret (withSummary ''Done! Marked that email as read.'' (initialResult i))) s"
    using nall idn nz
    by (simp add: execute_mark_as_read [OF act] markAsReadCase_def truthyNumber_def)
  have same: "updateRows n u (emails s) = emails s" for u
    using absent by (rule updateRows_absent)
  show ?thesis
  proof (cases "callsUntilError s")
    case None
    then show ?thesis
      by (simp add: run bind_def updateEmail_healthy same ret_def)
  next
    case (Some k)
    then show ?thesis
      by (cases k)
        (simp_all add: run bind_def updateEmail_def storeCall_exhausted storeCall_counted same
          ret_def)
  qed
qed

text \<open>No email of the example store has id 7, and "mark email 7 as read" reports success.\<close>

theorem mark_as_read_missing_id_reports_success_witness:
  "rowIds invoiceStore = [1, 2] \<and>
   execute exampleLlm markSevenRead invoiceStore =
     (Returned (withSummary ''Done! Marked that email as read.'' (initialResult markSevenRead)),
      invoiceStore)"
  using mark_as_read_missing_id_reports_success [of markSevenRead 7 invoiceStore exampleLlm]
  by (simp add: markSevenRead_def mkIntent_def noParameters_def param_def truthyFlag_def
      rowIds_def invoiceStore_def mkStore_def archivedInvoice_def inboxInvoice_def mkEmail_def)

text \<open>
  As claim C9 is worded it covers every \<open>n\<close>. No email has id 0, yet
  \<open>emailId: 0\<close> is falsy: the dispatcher takes its last branch and asks which emails
  are meant instead of reporting success.
\<close>

theorem mark_as_read_id_zero_counterexample:
  "rowIds invoiceStore = [1, 2] \<and>
   execute exampleLlm markZeroRead invoiceStore =
     (Returned (withSummary
        (''I'd be happy to mark emails as read. Just let me know which ones - '' @
         ''you can say 'mark all as read' or specify particular emails.'')
        (initialResult markZeroRead)), invoiceStore) \<and>
   fst (execute exampleLlm markZeroRead invoiceStore) \<noteq>
     Returned (withSummary ''Done! Marked that email as read.'' (initialResult markZeroRead))"
  by (simp add: execute_def markAsReadCase_def markZeroRead_def mkIntent_def noParameters_def
      param_def truthyFlag_def truthyNumber_def ret_def withSummary_def initialResult_def
      rowIds_def invoiceStore_def mkStore_def archivedInvoice_def inboxInvoice_def mkEmail_def)

section \<open>Recent emails\<close>

lemma getRecentCase_run:
  "getRecentCase llm i s =
     (case callsUntilError s of
        Some 0 \<Rightarrow> (Thrown, afterRejection s)
      | b \<Rightarrow>
         (let recent = take 10 (orderByReceivedAtDesc (filter notDeleted (emails s)))
          in (Returned
                \<lparr>r_intent = i, r_emails = Some recent,
                 r_summary = Some (if recent = [] then ''No recent emails found.''
                    else ''Here are your '' @ orString (param p_timeframe i) ''recent'' @
                         '' emails. '' @ llm recent),
                 r_switchTab = None\<rparr>,
              s\<lparr>callsUntilError := map_option (\<lambda>k. k - 1) b\<rparr>)))"
proof (cases "callsUntilError s")
  case None
  then show ?thesis
    by (simp add: getRecentCase_def Let_def bind_def getEmails_healthy selectEmails_recent ret_def
        withSummary_def withEmails_def initialResult_def generateEmailSummary_def)
next
  case (Some k)
  then show ?thesis
    by (cases k)
      (simp_all add: getRecentCase_def Let_def bind_def getEmails_def storeCall_exhausted
        storeCall_counted selectEmails_recent ret_def withSummary_def withEmails_def
        initialResult_def generateEmailSummary_def)
qed

text \<open>
  Claim C8. Any two \<open>get_recent\<close> intents, whatever their parameters, produce the same
  email list and leave the same store behind. That store holds the same emails, the same
  command log and the same serial counters as before: the one store call of the branch
  is a read, and on a store that rejects no call the store is left exactly as it was.
  Unless the store rejects the read, the list holds the ten most recently received
  emails that are not deleted, and the timeframe word (\<open>recent\<close> when it is absent or
  empty) appears only in the summary text.
\<close>

theorem get_recent_ignores_timeframe:
  assumes a1: "action i1 = ''get_recent''" and a2: "action i2 = ''get_recent''"
  shows "map_outcome r_emails (fst (execute llm i1 s)) =
           map_outcome r_emails (fst (execute llm i2 s)) \<and>
         snd (execute llm i1 s) = snd (execute llm i2 s) \<and>
         snd (execute llm i1 s) =
           (case callsUntilError s of
              None \<Rightarrow> s
            | Some 0 \<Rightarrow> afterRejection s
            | Some (Suc k) \<Rightarrow> s\<lparr>callsUntilError := Some k\<rparr>) \<and>
         emails (snd (execute llm i1 s)) = emails s \<and>
         voiceCommands (snd (execute llm i1 s)) = voiceCommands s \<and>
         nextEmailId (snd (execute llm i1 s)) = nextEmailId s \<and>
         nextVoiceCommandId (snd (execute llm i1 s)) = nextVoiceCommandId s \<and>
         (callsUntilError s \<noteq> Some 0 \<longrightarrow>
            (\<exists>recent.
               map_outcome r_emails (fst (execute llm i1 s)) = Returned (Some recent) \<and>
               mostRecent 10 notDeleted (emails s) recent \<and>
               map_outcome r_summary (fst (execute llm i1 s)) =
                 Returned (Some (if recent = [] then ''No recent emails found.''
                    else ''Here are your '' @ orString (param p_timeframe i1) ''recent'' @
                         '' emails. '' @ llm recent))))"
proof -
  have e1: "execute llm i1 s = getRecentCase llm i1 s" using a1 by (simp add: execute_get_recent)
  have e2: "execute llm i2 s = getRecentCase llm i2 s" using a2 by (simp add: execute_get_recent)
  have mr: "mostRecent 10 notDeleted (emails s)
              (take 10 (orderByReceivedAtDesc (filter notDeleted (emails s))))"
    by (rule mostRecent_take)
  show ?thesis
  proof (cases "callsUntilError s")
    case None
    then show ?thesis using mr by (simp add: e1 e2 getRecentCase_run Let_def)
  next
    case (Some k)
    then show ?thesis using mr by (cases k) (simp_all add: e1 e2 getRecentCase_run Let_def)
  qed
qed

lemma inbox_recent:
  "take 10 (orderByReceivedAtDesc (filter notDeleted (emails (inboxStore b)))) =
     [mailB, mailC, mailA]"
  by (simp add: inboxStore_def mkStore_def orderByReceivedAtDesc_def notDeleted_def mailA_def
      mailB_def mailC_def mkEmail_def)

text \<open>
  "Recent emails of today" and a bare "recent emails" on the example inbox: the same
  three emails, newest first, summaries that differ in the timeframe word only, and the
  store as it was.
\<close>

theorem get_recent_ignores_timeframe_witness:
  "map_outcome r_emails (fst (execute exampleLlm recentToday (inboxStore None))) =
     Returned (Some [mailB, mailC, mailA]) \<and>
   map_outcome r_emails (fst (execute exampleLlm recentPlain (inboxStore None))) =
     Returned (Some [mailB, mailC, mailA]) \<and>
   map_outcome r_summary (fst (execute exampleLlm recentToday (inboxStore None))) =
     Returned (Some ''Here are your today emails. digest'') \<and>
   map_outcome r_summary (fst (execute exampleLlm recentPlain (inboxStore None))) =
     Returned (Some ''Here are your recent emails. digest'') \<and>
   snd (execute exampleLlm recentToday (inboxStore None)) = inboxStore None"
  using get_recent_ignores_timeframe [of recentToday recentPlain exampleLlm "inboxStore None"]
    get_recent_ignores_timeframe [of recentPlain recentToday exampleLlm "inboxStore None"]
  by (simp add: recentToday_def recentPlain_def mkIntent_def execute_get_recent
      getRecentCase_run Let_def budget_inboxStore inbox_recent exampleLlm_def
      param_def noParameters_def orString_def option_update_None)

section \<open>The command log\<close>











section \<open>Ingestion\<close>

lemma messageId_processed [simp]:
  "pe_messageId (processPostmarkWebhook parse wd) = MessageID wd"
  by (simp add: processPostmarkWebhook_def Let_def)

lemma messageId_emailData [simp]: "ins_messageId (emailData p) = pe_messageId p"
  by (simp add: emailData_def)

lemma messageId_newEmail [simp]: "messageId (newEmail n now d) = ins_messageId d"
  by (simp add: newEmail_def)

lemma webhook_duplicate:
  assumes dup: "\<exists>e \<in> set (emails s). messageId e = MessageID wd"
  shows "emails (snd (postmarkWebhook parse now (Some wd) s)) = emails s \<and>
         (callsUntilError s = None \<longrightarrow>
            postmarkWebhook parse now (Some wd) s =
              (Status200 \<lparr>wr_message = ''Email already processed'', wr_emailId = None\<rparr>, s)) \<and>
         (callsUntilError s \<noteq> Some 0 \<longrightarrow>
            fst (postmarkWebhook parse now (Some wd) s) =
              Status200 \<lparr>wr_message = ''Email already processed'', wr_emailId = None\<rparr>)"
proof -
  obtain e where f: "find (\<lambda>e. messageId e = MessageID wd) (emails s) = Some e"
    using find_present [OF dup] by blast
  show ?thesis
  proof (cases "callsUntilError s")
    case None
    then show ?thesis
      by (simp add: postmarkWebhook_def Let_def bind_def getEmailByMessageId_def
          storeCall_healthy f ret_def)
  next
    case (Some k)
    then show ?thesis
      by (cases k)
        (simp_all add: postmarkWebhook_def Let_def bind_def getEmailByMessageId_def
          storeCall_exhausted storeCall_counted f ret_def)
  qed
qed

lemma webhook_fresh:
  assumes healthy: "callsUntilError s = None"
    and fresh: "\<forall>e \<in> set (emails s). messageId e \<noteq> MessageID wd"
  shows "postmarkWebhook parse now (Some wd) s =
           (Status200 \<lparr>wr_message = ''Email processed successfully'',
                       wr_emailId = Some (nextEmailId s)\<rparr>,
            s\<lparr>emails := emails s @
                  [newEmail (nextEmailId s) now (emailData (processPostmarkWebhook parse wd))],
              nextEmailId := nextEmailId s + 1\<rparr>)"
proof -
  have f: "find (\<lambda>e. messageId e = MessageID wd) (emails s) = None"
    using fresh by (simp add: find_None_iff)
  show ?thesis
    using healthy fresh
    by (simp add: postmarkWebhook_def Let_def bind_def getEmailByMessageId_def createEmail_def
        storeCall_healthy f ret_def newEmail_def)
qed

text \<open>
  Claim C7. When the store already holds an email with the payload's message id, the
  webhook leaves every email as it is and creates none; unless the store rejects the
  lookup it answers 200 "Email already processed", and on a store that never fails the
  whole store is unchanged. Hence, starting from a store without that message id,
  ingesting it twice (the second payload may differ in everything but the message id)
  leaves exactly one email with that message id: the second request changes nothing.
\<close>

theorem ingest_idempotent:
  "((\<exists>e \<in> set (emails s). messageId e = MessageID wd) \<longrightarrow>
      emails (snd (postmarkWebhook parse now (Some wd) s)) = emails s \<and>
      (callsUntilError s = None \<longrightarrow>
         postmarkWebhook parse now (Some wd) s =
           (Status200 \<lparr>wr_message = ''Email already processed'', wr_emailId = None\<rparr>, s)) \<and>
      (callsUntilError s \<noteq> Some 0 \<longrightarrow>
         fst (postmarkWebhook parse now (Some wd) s) =
           Status200 \<lparr>wr_message = ''Email already processed'', wr_emailId = None\<rparr>)) \<and>
   (callsUntilError s = None \<and> (\<forall>e \<in> set (emails s). messageId e \<noteq> MessageID wd) \<and>
    MessageID wdb = MessageID wd \<longrightarrow>
      length (filter (\<lambda>e. messageId e = MessageID wd)
        (emails (snd (postmarkWebhook parseb nowb (Some wdb)
           (snd (postmarkWebhook parse now (Some wd) s)))))) = 1 \<and>
      snd (postmarkWebhook parseb nowb (Some wdb) (snd (postmarkWebhook parse now (Some wd) s))) =
        snd (postmarkWebhook parse now (Some wd) s))"
proof (intro conjI impI)
  assume dup: "\<exists>e \<in> set (emails s). messageId e = MessageID wd"
  show "emails (snd (postmarkWebhook parse now (Some wd) s)) = emails s"
    using webhook_duplicate [OF dup] by blast
  show "postmarkWebhook parse now (Some wd) s =
           (Status200 \<lparr>wr_message = ''Email already processed'', wr_emailId = None\<rparr>, s)"
    if "callsUntilError s = None"
    using webhook_duplicate [OF dup] that by blast
  show "fst (postmarkWebhook parse now (Some wd) s) =
           Status200 \<lparr>wr_message = ''Email already processed'', wr_emailId = None\<rparr>"
    if "callsUntilError s \<noteq> Some 0"
    using webhook_duplicate [OF dup] that by blast
next
  assume h: "callsUntilError s = None \<and> (\<forall>e \<in> set (emails s). messageId e \<noteq> MessageID wd) \<and>
    MessageID wdb = MessageID wd"
  let ?e = "newEmail (nextEmailId s) now (emailData (processPostmarkWebhook parse wd))"
  let ?s1 = "s\<lparr>emails := emails s @ [?e], nextEmailId := nextEmailId s + 1\<rparr>"
  have first: "snd (postmarkWebhook parse now (Some wd) s) = ?s1"
    using h by (simp add: webhook_fresh)
  have healthy1: "callsUntilError ?s1 = None" using h by simp
  have dup1: "\<exists>e \<in> set (emails ?s1). messageId e = MessageID wdb"
    using h by simp
  have second: "postmarkWebhook parseb nowb (Some wdb) ?s1 =
      (Status200 \<lparr>wr_message = ''Email already processed'', wr_emailId = None\<rparr>, ?s1)"
    using webhook_duplicate [OF dup1] healthy1 by blast
  have count: "filter (\<lambda>e. messageId e = MessageID wd) (emails ?s1) = [?e]"
    using h by (simp add: filter_empty_conv)
  show "length (filter (\<lambda>e. messageId e = MessageID wd)
        (emails (snd (postmarkWebhook parseb nowb (Some wdb)
           (snd (postmarkWebhook parse now (Some wd) s)))))) = 1"
    by (simp only: first second snd_conv count) simp
  show "snd (postmarkWebhook parseb nowb (Some wdb) (snd (postmarkWebhook parse now (Some wd) s))) =
        snd (postmarkWebhook parse now (Some wd) s)"
    by (simp only: first second snd_conv)
qed

text \<open>
  The example inbox already holds message \<open>m-b\<close>: a payload with that id is a no-op.
  Message \<open>m-d\<close> is new: after two deliveries one email carries it.
\<close>

theorem ingest_idempotent_witness:
  "postmarkWebhook noForwarding 7000 (Some repeatedPayload) (inboxStore None) =
     (Status200 \<lparr>wr_message = ''Email already processed'', wr_emailId = None\<rparr>,
      inboxStore None) \<and>
   length (filter (\<lambda>e. messageId e = MessageID freshPayload)
     (emails (snd (postmarkWebhook noForwarding 8000 (Some freshPayload)
        (snd (postmarkWebhook noForwarding 7000 (Some freshPayload) (inboxStore None))))))) = 1"
proof -
  have healthy: "callsUntilError (inboxStore None) = None"
    by (simp add: inboxStore_def mkStore_def)
  have dup: "\<exists>e \<in> set (emails (inboxStore None)). messageId e = MessageID repeatedPayload"
    by (simp add: repeatedPayload_def mkPayload_def inboxStore_def mkStore_def mailA_def
        mailB_def mailC_def mkEmail_def)
  have fresh: "\<forall>e \<in> set (emails (inboxStore None)). messageId e \<noteq> MessageID freshPayload"
    by (simp add: freshPayload_def mkPayload_def inboxStore_def mkStore_def mailA_def
        mailB_def mailC_def mkEmail_def)
  note again = ingest_idempotent [where s = "inboxStore None" and wd = repeatedPayload and
        parse = noForwarding and now = 7000, THEN conjunct1, THEN mp, OF dup,
        THEN conjunct2, THEN conjunct1, THEN mp, OF healthy]
  note twice = ingest_idempotent [where s = "inboxStore None" and wd = freshPayload and
        wdb = freshPayload and parse = noForwarding and now = 7000 and parseb = noForwarding
        and nowb = 8000, THEN conjunct2, THEN mp, OF conjI [OF healthy conjI [OF fresh refl]],
        THEN conjunct1]
  from again twice show ?thesis by (rule conjI)
qed

section \<open>Speech generation\<close>

lemma speechCalls_checkQuotaStatus:
  "speechCalls (snd (checkQuotaStatus env vm)) = speechCalls vm"
  by (simp add: checkQuotaStatus_def speechCalls_def Let_def
      split: option.splits subscription_reply.splits)

lemma checkQuotaStatus_no_key:
  "truthyString (apiKey env) = None \<Longrightarrow> checkQuotaStatus env vm = (None, vm)"
  by (simp add: checkQuotaStatus_def)

text \<open>
  Claim C6. Speech generation ends in the local-synthesis directive (success, no audio,
  \<open>useWebSpeech\<close>) in each of three situations. Without a credential the directive is
  returned and the manager is left as it was: no request of any kind is sent. When the
  quota check gives no quota, or one whose remaining capacity is below
  \<open>Math.ceil(text.length * 1.1)\<close>, the directive is returned and no speech request is
  sent. When the quota suffices and the speech request fails, the failure is caught and
  the directive is returned after that one request. The message text names the quota in
  the first two situations and the service in the third.
\<close>

theorem speech_falls_back_in_three_tiers:
  "(truthyString (apiKey env) = None \<longrightarrow>
      generateSpeechWithFallback fmul env t vm =
        (\<lparr>success = True, audioBuffer = None, useWebSpeech = Some True,
          message = Some ''Using browser speech synthesis due to service quota limitations''\<rparr>,
         vm)) \<and>
   (fst (checkQuotaStatus env vm) = None \<or>
    (\<exists>q. fst (checkQuotaStatus env vm) = Some q \<and>
         charactersRemaining q < Math_ceil (fmul (real (length t)) (11 / 10))) \<longrightarrow>
      localSynthesis (fst (generateSpeechWithFallback fmul env t vm)) \<and>
      message (fst (generateSpeechWithFallback fmul env t vm)) =
        Some ''Using browser speech synthesis due to service quota limitations'' \<and>
      speechCalls (snd (generateSpeechWithFallback fmul env t vm)) = speechCalls vm) \<and>
   ((\<exists>q. fst (checkQuotaStatus env vm) = Some q \<and>
         Math_ceil (fmul (real (length t)) (11 / 10)) \<le> charactersRemaining q) \<and>
    speech env t = SpeechFails \<longrightarrow>
      localSynthesis (fst (generateSpeechWithFallback fmul env t vm)) \<and>
      message (fst (generateSpeechWithFallback fmul env t vm)) =
        Some ''Using browser speech synthesis due to service limitations'' \<and>
      speechCalls (snd (generateSpeechWithFallback fmul env t vm)) = speechCalls vm + 1)"
proof (intro conjI impI)
  assume "truthyString (apiKey env) = None"
  then show "generateSpeechWithFallback fmul env t vm =
        (\<lparr>success = True, audioBuffer = None, useWebSpeech = Some True,
          message = Some ''Using browser speech synthesis due to service quota limitations''\<rparr>,
         vm)"
    by (simp add: generateSpeechWithFallback_def canHandleRequest_def checkQuotaStatus_no_key)
next
  assume low: "fst (checkQuotaStatus env vm) = None \<or>
    (\<exists>q. fst (checkQuotaStatus env vm) = Some q \<and>
         charactersRemaining q < Math_ceil (fmul (real (length t)) (11 / 10)))"
  obtain r vm1 where c: "checkQuotaStatus env vm = (r, vm1)" by (cases "checkQuotaStatus env vm")
  have calls: "speechCalls vm1 = speechCalls vm"
    using speechCalls_checkQuotaStatus [of env vm] c by simp
  have no: "canHandleRequest fmul env (length t) vm = (False, vm1)"
    using low c by (cases r) (auto simp add: canHandleRequest_def Let_def)
  show "localSynthesis (fst (generateSpeechWithFallback fmul env t vm))"
    by (simp add: generateSpeechWithFallback_def no localSynthesis_def)
  show "message (fst (generateSpeechWithFallback fmul env t vm)) =
        Some ''Using browser speech synthesis due to service quota limitations''"
    by (simp add: generateSpeechWithFallback_def no)
  show "speechCalls (snd (generateSpeechWithFallback fmul env t vm)) = speechCalls vm"
    by (simp add: generateSpeechWithFallback_def no calls)
next
  assume h: "(\<exists>q. fst (checkQuotaStatus env vm) = Some q \<and>
         Math_ceil (fmul (real (length t)) (11 / 10)) \<le> charactersRemaining q) \<and>
    speech env t = SpeechFails"
  obtain r vm1 where c: "checkQuotaStatus env vm = (r, vm1)" by (cases "checkQuotaStatus env vm")
  have calls: "speechCalls vm1 = speechCalls vm"
    using speechCalls_checkQuotaStatus [of env vm] c by simp
  have yes: "canHandleRequest fmul env (length t) vm = (True, vm1)"
    using h c by (cases r) (auto simp add: canHandleRequest_def Let_def)
  have sp: "generateSpeech env t vm1 =
              (SpeechFails, vm1\<lparr>requests := requests vm1 @ [TextToSpeechRequest]\<rparr>)"
    using h by (simp add: generateSpeech_def)
  show "localSynthesis (fst (generateSpeechWithFallback fmul env t vm))"
    by (simp add: generateSpeechWithFallback_def yes sp localSynthesis_def)
  show "message (fst (generateSpeechWithFallback fmul env t vm)) =
        Some ''Using browser speech synthesis due to service limitations''"
    by (simp add: generateSpeechWithFallback_def yes sp)
  show "speechCalls (snd (generateSpeechWithFallback fmul env t vm)) = speechCalls vm + 1"
    using calls by (simp add: generateSpeechWithFallback_def yes sp speechCalls_def)
qed

lemma ceil_hello: "Math_ceil (exactProduct 5 (11 / 10)) = 6"
  by (simp add: Math_ceil_def exactProduct_def)

lemma cached_quota:
  "checkQuotaStatus (ttsEnv (Some ''key'')) (cachedManager n) =
     (quotaInfo (cachedManager n), cachedManager n)"
  by (simp add: checkQuotaStatus_def ttsEnv_def cachedManager_def truthyString_def
      cacheFresh_def quotaCacheTime_def)

lemma speechCalls_cachedManager: "speechCalls (cachedManager n) = 0"
  by (simp add: speechCalls_def cachedManager_def)

text \<open>
  Saying "hello" needs \<open>\<lceil>5 * 1.1\<rceil> = 6\<close> characters: without a credential, with a
  cached quota of 5, and with a cached quota of 1000 and a failing provider.
\<close>

theorem speech_falls_back_in_three_tiers_witness:
  "generateSpeechWithFallback exactProduct (ttsEnv None) ''hello'' (cachedManager 1000) =
     (\<lparr>success = True, audioBuffer = None, useWebSpeech = Some True,
       message = Some ''Using browser speech synthesis due to service quota limitations''\<rparr>,
      cachedManager 1000) \<and>
   localSynthesis (fst (generateSpeechWithFallback exactProduct (ttsEnv (Some ''key'')) ''hello''
     (cachedManager 5))) \<and>
   speechCalls (snd (generateSpeechWithFallback exactProduct (ttsEnv (Some ''key'')) ''hello''
     (cachedManager 5))) = 0 \<and>
   localSynthesis (fst (generateSpeechWithFallback exactProduct (ttsEnv (Some ''key'')) ''hello''
     (cachedManager 1000))) \<and>
   speechCalls (snd (generateSpeechWithFallback exactProduct (ttsEnv (Some ''key'')) ''hello''
     (cachedManager 1000))) = 1"
proof -
  have nokey: "truthyString (apiKey (ttsEnv None)) = None"
    by (simp add: ttsEnv_def truthyString_def)
  have low: "fst (checkQuotaStatus (ttsEnv (Some ''key'')) (cachedManager 5)) = None \<or>
    (\<exists>q. fst (checkQuotaStatus (ttsEnv (Some ''key'')) (cachedManager 5)) = Some q \<and>
         charactersRemaining q < Math_ceil (exactProduct (real (length ''hello'')) (11 / 10)))"
    by (simp add: cached_quota ceil_hello) (simp add: cachedManager_def)
  have high: "(\<exists>q. fst (checkQuotaStatus (ttsEnv (Some ''key'')) (cachedManager 1000)) = Some q \<and>
         Math_ceil (exactProduct (real (length ''hello'')) (11 / 10)) \<le> charactersRemaining q) \<and>
    speech (ttsEnv (Some ''key'')) ''hello'' = SpeechFails"
    by (simp add: cached_quota ceil_hello) (simp add: cachedManager_def ttsEnv_def failingSpeech_def)
  note tier1 = speech_falls_back_in_three_tiers [of "ttsEnv None" exactProduct "''hello''"
      "cachedManager 1000", THEN conjunct1, THEN mp, OF nokey]
  note tier2 = speech_falls_back_in_three_tiers [of "ttsEnv (Some ''key'')" exactProduct
      "''hello''" "cachedManager 5", THEN conjunct2, THEN conjunct1, THEN mp, OF low]
  note tier3 = speech_falls_back_in_three_tiers [of "ttsEnv (Some ''key'')" exactProduct
      "''hello''" "cachedManager 1000", THEN conjunct2, THEN conjunct2, THEN mp, OF high]
  from tier1 tier2 tier3 show ?thesis
    by (simp add: speechCalls_cachedManager)
qed

section \<open>Bulk actions and store errors\<close>

text \<open>
  Claim C5, as the code has it. Take any branch of the switch that loops over emails
  (\<open>bulkBranch\<close>) and any store, whatever calls it rejects. The branch reads the emails
  it selects with one store call and makes one store call for each of them, newest
  first. When none of these calls is rejected the answer is 200, the count in its
  summary is the number of emails selected and the operation has been done to each of
  them and to no other row; the number of rows whose flags changed is the number of
  selected emails that did not carry the new flag value already, and a removing branch
  has removed as many rows as it reports. When the store rejects the read or the call
  for one of the emails, no further call is made: the answer is 500 and carries no
  summary and no count, the emails before that one keep what was done to them, that
  email and the later ones are untouched, and the store has used up one rejection only.
  A branch of the switch that is not a bulk branch makes at most two store calls.
\<close>

theorem bulk_actions_count_and_abort:
  assumes branch: "bulkBranch i = Some b"
    and ids: "distinct (map email_id (emails s))"
  shows "(\<exists>targets. selection (selects b) (emails s) targets \<and>
     (callsUntilError s = None \<or> (callsUntilError s = Some k \<and> length targets < k) \<longrightarrow>
        respond (execute llm i s) =
          (Status200 (withSummary (reports b (length targets)) (initialResult i)),
           s\<lparr>emails := applyTo (applies b) targets (emails s),
             callsUntilError :=
               map_option (\<lambda>k. k - (length targets + 1)) (callsUntilError s)\<rparr>) \<and>
        length targets = length (filter (selects b) (emails s)) \<and>
        (applies b = SetFlags u \<longrightarrow>
           changedFlags (emails s) (applyTo (applies b) targets (emails s)) = altered u targets) \<and>
        (applies b = RemoveRow \<longrightarrow>
           length (applyTo (applies b) targets (emails s)) + length targets = length (emails s))) \<and>
     (callsUntilError s = Some k \<and> k \<le> length targets \<longrightarrow>
        respond (execute llm i s) =
          (Status500 ''Failed to process voice command'',
           afterRejection
             (s\<lparr>emails := applyTo (applies b) (take (k - 1) targets) (emails s)\<rparr>)))) \<and>
    (bulkBranch j = None \<longrightarrow> callsAtMost 2 (execute llm j))"
proof -
  let ?U = "orderByReceivedAtDesc (filter (selects b) (emails s))"
  have rows: "distinct (emails s)" using ids by (rule distinct_map [THEN iffD1, THEN conjunct1])
  have sub: "set ?U \<subseteq> set (emails s)" by auto
  have dis: "distinct ?U" using rows by (simp add: orderByReceivedAtDesc_def)
  have subj: "set (take n ?U) \<subseteq> set (emails s)" for n
    using set_take_subset [of n ?U] sub by blast
  have full: "applyAll (applies b) ?U (emails s) = applyTo (applies b) ?U (emails s)"
    using ids sub by (rule applyAll_members)
  have part: "applyAll (applies b) (take n ?U) (emails s) = applyTo (applies b) (take n ?U) (emails s)"
    for n using ids subj by (rule applyAll_members)
  have run: "execute llm i s = bulkProgram b i s"
    by (simp add: bulk_branch_shape [OF branch])
  have ok: "callsUntilError s = None \<or> (callsUntilError s = Some k \<and> length ?U < k) \<longrightarrow>
        respond (execute llm i s) =
          (Status200 (withSummary (reports b (length ?U)) (initialResult i)),
           s\<lparr>emails := applyTo (applies b) ?U (emails s),
             callsUntilError := map_option (\<lambda>k. k - (length ?U + 1)) (callsUntilError s)\<rparr>)"
    by (auto simp add: run bulkProgram_run full)
  have cnt: "length ?U = length (filter (selects b) (emails s))" by simp
  have chg: "applies b = SetFlags u \<longrightarrow>
           changedFlags (emails s) (applyTo (applies b) ?U (emails s)) = altered u ?U"
    using changedFlags_applyTo [OF ids sub dis] by simp
  have rem: "applies b = RemoveRow \<longrightarrow>
           length (applyTo (applies b) ?U (emails s)) + length ?U = length (emails s)"
    using removed_applyTo [OF ids sub dis] by simp
  have bad: "callsUntilError s = Some k \<and> k \<le> length ?U \<longrightarrow>
        respond (execute llm i s) =
          (Status500 ''Failed to process voice command'',
           afterRejection (s\<lparr>emails := applyTo (applies b) (take (k - 1) ?U) (emails s)\<rparr>))"
    by (auto simp add: run bulkProgram_run part)
  have rest: "bulkBranch j = None \<longrightarrow> callsAtMost 2 (execute llm j)"
    by (simp add: no_loop_elsewhere)
  from selection_orderBy [of "selects b" "emails s"] ok cnt chg rem bad rest
  show ?thesis by blast
qed

lemma markAllRead_branch:
  "bulkBranch markAllRead =
     Some \<lparr>selects = unread, applies = SetFlags (noUpdates\<lparr>u_isRead := Some True\<rparr>),
           reports = bulkSummary ''mark_as_read''\<rparr>"
  by (simp add: bulkBranch_def Let_def markAllRead_def mkIntent_def bulkActions_def
      truthyFlag_def param_def noParameters_def bulkFilter_def bulkUpdate_def)

lemma inbox_unread_selection:
  assumes "selection unread (emails (inboxStore b)) targets"
  shows "targets = [mailB, mailA]"
proof -
  have m: "mset targets = mset [mailB, mailA]"
    using assms inbox_unread [of b] mset_orderBy [of "filter unread (emails (inboxStore b))"]
    by (simp add: selection_def del: mset_orderBy)
  have ne: "mailA \<noteq> mailB" by (simp add: mailA_def mailB_def mkEmail_def)
  have "length targets = 2" using mset_eq_length [OF m] by simp
  then obtain x y where t: "targets = [x, y]"
    by (metis (no_types) length_0_conv length_Suc_conv numeral_2_eq_2)
  have "set targets = {mailB, mailA}" using mset_eq_setD [OF m] by simp
  moreover have "distinct targets"
    using mset_eq_imp_distinct_iff [OF m] ne by simp
  ultimately have "(x = mailB \<and> y = mailA) \<or> (x = mailA \<and> y = mailB)"
    using t by (auto simp add: doubleton_eq_iff)
  moreover have "\<not> newestFirst [mailA, mailB]"
    by (simp add: newestFirst_def mailA_def mailB_def mkEmail_def)
  ultimately show ?thesis using assms t by (auto simp add: selection_def)
qed

lemma inbox_all_marked:
  "applyTo (SetFlags (noUpdates\<lparr>u_isRead := Some True\<rparr>)) [mailB, mailA] (emails (inboxStore b)) =
     [mailA\<lparr>isRead := True\<rparr>, mailB\<lparr>isRead := True\<rparr>, mailC]"
  by (simp add: applyTo_def emails_inboxStore mailA_def mailB_def mailC_def mkEmail_def)

lemma inbox_newer_marked:
  "applyTo (SetFlags (noUpdates\<lparr>u_isRead := Some True\<rparr>)) [mailB] (emails (inboxStore b)) =
     [mailA, mailB\<lparr>isRead := True\<rparr>, mailC]"
  by (simp add: applyTo_def emails_inboxStore mailA_def mailB_def mailC_def mkEmail_def)

lemma altered_inbox_unread: "altered (noUpdates\<lparr>u_isRead := Some True\<rparr>) [mailB, mailA] = 2"
  by (simp add: altered_def flags_def mailA_def mailB_def mkEmail_def)

lemma inboxStore_after_rejection:
  "afterRejection ((inboxStore (Some 2))\<lparr>emails := es\<rparr>) = (inboxStore None)\<lparr>emails := es\<rparr>"
  by (simp add: afterRejection_def inboxStore_def mkStore_def)

text \<open>
  "Mark everything as read" on the example inbox with its two unread emails. On a store
  that rejects nothing the summary says 2 and two emails change. On a store that
  accepts two calls and rejects the third only, the answer is 500, the newer unread
  email has been marked and the older one has not, although the store would have
  accepted a further call.
\<close>

theorem bulk_actions_count_and_abort_witness:
  "respond (execute exampleLlm markAllRead (inboxStore None)) =
     (Status200 (withSummary
        ''Perfect! I've marked all 2 unread emails as read. Your inbox is now clean.''
        (initialResult markAllRead)),
      (inboxStore None)\<lparr>emails := [mailA\<lparr>isRead := True\<rparr>, mailB\<lparr>isRead := True\<rparr>, mailC]\<rparr>) \<and>
   changedFlags (emails (inboxStore None))
     [mailA\<lparr>isRead := True\<rparr>, mailB\<lparr>isRead := True\<rparr>, mailC] = 2 \<and>
   respond (execute exampleLlm markAllRead (inboxStore (Some 2))) =
     (Status500 ''Failed to process voice command'',
      (inboxStore None)\<lparr>emails := [mailA, mailB\<lparr>isRead := True\<rparr>, mailC]\<rparr>)"
proof -
  let ?u = "noUpdates\<lparr>u_isRead := Some True\<rparr>"
  let ?b = "\<lparr>selects = unread, applies = SetFlags ?u, reports = bulkSummary ''mark_as_read''\<rparr>"
  note all = bulk_actions_count_and_abort [OF markAllRead_branch ids_inboxStore [of None],
      where llm = exampleLlm and k = 0 and u = ?u, THEN conjunct1]
  note cut = bulk_actions_count_and_abort [OF markAllRead_branch ids_inboxStore [of "Some 2"],
      where llm = exampleLlm and k = 2 and u = ?u, THEN conjunct1]
  from all obtain T where
    selT: "selection (selects ?b) (emails (inboxStore None)) T" and
    okT: "callsUntilError (inboxStore None) = None \<or>
          (callsUntilError (inboxStore None) = Some 0 \<and> length T < 0) \<longrightarrow>
        respond (execute exampleLlm markAllRead (inboxStore None)) =
          (Status200 (withSummary (reports ?b (length T)) (initialResult markAllRead)),
           (inboxStore None)\<lparr>emails := applyTo (applies ?b) T (emails (inboxStore None)),
             callsUntilError :=
               map_option (\<lambda>k. k - (length T + 1)) (callsUntilError (inboxStore None))\<rparr>) \<and>
        length T = length (filter (selects ?b) (emails (inboxStore None))) \<and>
        (applies ?b = SetFlags ?u \<longrightarrow>
           changedFlags (emails (inboxStore None))
             (applyTo (applies ?b) T (emails (inboxStore None))) = altered ?u T) \<and>
        (applies ?b = RemoveRow \<longrightarrow>
           length (applyTo (applies ?b) T (emails (inboxStore None))) + length T =
             length (emails (inboxStore None)))"
    by blast
  have T: "T = [mailB, mailA]" using selT by (simp add: inbox_unread_selection)
  from cut obtain V where
    selV: "selection (selects ?b) (emails (inboxStore (Some 2))) V" and
    badV: "callsUntilError (inboxStore (Some 2)) = Some 2 \<and> 2 \<le> length V \<longrightarrow>
        respond (execute exampleLlm markAllRead (inboxStore (Some 2))) =
          (Status500 ''Failed to process voice command'',
           afterRejection
             ((inboxStore (Some 2))\<lparr>emails :=
                applyTo (applies ?b) (take (2 - 1) V) (emails (inboxStore (Some 2)))\<rparr>))"
    by blast
  have V: "V = [mailB, mailA]" using selV by (simp add: inbox_unread_selection)
  have healthy: "callsUntilError (inboxStore None) = None \<or>
          (callsUntilError (inboxStore None) = Some 0 \<and> length T < 0)"
    by (simp add: budget_inboxStore)
  have short: "callsUntilError (inboxStore (Some 2)) = Some 2 \<and> 2 \<le> length V"
    by (simp add: budget_inboxStore V)
  from okT [THEN mp, OF healthy, THEN conjunct1]
  have w1: "respond (execute exampleLlm markAllRead (inboxStore None)) =
     (Status200 (withSummary
        ''Perfect! I've marked all 2 unread emails as read. Your inbox is now clean.''
        (initialResult markAllRead)),
      (inboxStore None)\<lparr>emails := [mailA\<lparr>isRead := True\<rparr>, mailB\<lparr>isRead := True\<rparr>, mailC]\<rparr>)"
    by (simp add: T inbox_all_marked budget_inboxStore option_update_None bulkSummary_def
        showNat_2 [unfolded numeral_2_eq_2])
  from okT [THEN mp, OF healthy, THEN conjunct2, THEN conjunct2, THEN conjunct1]
  have w2: "changedFlags (emails (inboxStore None))
     [mailA\<lparr>isRead := True\<rparr>, mailB\<lparr>isRead := True\<rparr>, mailC] = 2"
    by (simp add: T inbox_all_marked altered_inbox_unread)
  from badV [THEN mp, OF short]
  have w3: "respond (execute exampleLlm markAllRead (inboxStore (Some 2))) =
     (Status500 ''Failed to process voice command'',
      (inboxStore None)\<lparr>emails := [mailA, mailB\<lparr>isRead := True\<rparr>, mailC]\<rparr>)"
    by (simp add: V inbox_newer_marked inboxStore_after_rejection)
  from w1 w2 w3 show ?thesis by (intro conjI)
qed

text \<open>
  As claim C5 is worded, the summary states the number of records whose flag changed,
  also after a store error. When the store rejects the third call, the newer unread
  email has been marked, the older one has not, and the response is the bare 500 with no
  summary. And without any store error "mark all as important" reports the three emails
  it selected although one of them was important already and only two changed.
\<close>

theorem bulk_count_counterexample:
  "respond (execute exampleLlm markAllRead (inboxStore (Some 2))) =
     (Status500 ''Failed to process voice command'',
      (inboxStore None)\<lparr>emails := [mailA, mailB\<lparr>isRead := True\<rparr>, mailC]\<rparr>) \<and>
   execute exampleLlm markAllImportant (inboxStore None) =
     (Returned (withSummary ''Marked all 3 emails as important.''
        (initialResult markAllImportant)),
      (inboxStore None)\<lparr>emails :=
         [mailA\<lparr>isImportant := True\<rparr>, mailB\<lparr>isImportant := True\<rparr>, mailC]\<rparr>) \<and>
   changedFlags [mailA, mailB, mailC]
     [mailA\<lparr>isImportant := True\<rparr>, mailB\<lparr>isImportant := True\<rparr>, mailC] = 2"
proof -
  have first: "respond (execute exampleLlm markAllRead (inboxStore (Some 2))) =
     (Status500 ''Failed to process voice command'',
      (inboxStore None)\<lparr>emails := [mailA, mailB\<lparr>isRead := True\<rparr>, mailC]\<rparr>)"
    by (simp add: bulk_branch_shape [OF markAllRead_branch] bulkProgram_run budget_inboxStore
        inbox_unread_count inbox_unread applyOp_def inbox_first_marked
        inboxStore_after_rejection)
  have third: "changedFlags [mailA, mailB, mailC]
     [mailA\<lparr>isImportant := True\<rparr>, mailB\<lparr>isImportant := True\<rparr>, mailC] = 2"
    by (simp add: changedFlags_def flags_def mailA_def mailB_def mailC_def mkEmail_def)
  from first markAllImportant_run third show ?thesis by (intro conjI)
qed

section \<open>Flag actions and their targets\<close>

text \<open>
  Claim C3, as the code has it, on a store that does not fail. For each of the four flag
  actions: when \<open>all\<close> is set the flag is applied to every selected email (the unread
  ones that are not deleted for \<open>mark_as_read\<close>, the important ones that are not
  deleted for \<open>remove_important\<close>, every email that is not deleted for the other two)
  and their number is reported; otherwise, when an \<open>emailId\<close> other than zero is given,
  the flag is applied to the email with that id. With neither, \<open>mark_unread\<close>,
  \<open>mark_important\<close> and \<open>remove_important\<close> apply the flag to the single most recently
  received email of their selection, or report that there is nothing to do and change
  nothing when the selection is empty; \<open>mark_as_read\<close> asks which emails are meant and
  changes nothing.
\<close>

theorem flag_actions_select_their_target:
  assumes act: "action i \<in> set flagActions"
    and healthy: "callsUntilError s = None"
    and ids: "distinct (map email_id (emails s))"
  shows
   "(truthyFlag (param p_all i) \<longrightarrow>
       execute llm i s =
         (Returned (withSummary
            (bulkSummary (action i) (length (filter (bulkFilter (action i)) (emails s))))
            (initialResult i)),
          s\<lparr>emails := map (\<lambda>e. if bulkFilter (action i) e
                               then setUpdates (bulkUpdate (action i)) e else e) (emails s)\<rparr>)) \<and>
    (\<not> truthyFlag (param p_all i) \<and> param p_emailId i = Some n \<and> n \<noteq> 0 \<longrightarrow>
       execute llm i s =
         (Returned (withSummary (pointSummary (action i)) (initialResult i)),
          s\<lparr>emails := map (\<lambda>e. if email_id e = n
                               then setUpdates (bulkUpdate (action i)) e else e) (emails s)\<rparr>)) \<and>
    (\<not> truthyFlag (param p_all i) \<and> truthyNumber (param p_emailId i) = None \<and>
     action i \<in> set fallbackActions \<longrightarrow>
       (filter (bulkFilter (action i)) (emails s) = [] \<and>
        execute llm i s =
          (Returned (withSummary (nothingSummary (action i)) (initialResult i)), s)) \<or>
       (\<exists>e. mostRecent 1 (bulkFilter (action i)) (emails s) [e] \<and>
            execute llm i s =
              (Returned (withSummary (recentSummary (action i)) (initialResult i)),
               s\<lparr>emails := map (\<lambda>r. if r = e then setUpdates (bulkUpdate (action i)) r else r)
                                (emails s)\<rparr>))) \<and>
    (\<not> truthyFlag (param p_all i) \<and> truthyNumber (param p_emailId i) = None \<and>
     action i = ''mark_as_read'' \<longrightarrow>
       execute llm i s =
         (Returned (withSummary markAsReadClarification (initialResult i)), s))"
proof (intro conjI impI)
  assume allp: "truthyFlag (param p_all i)"
  show "execute llm i s =
         (Returned (withSummary
            (bulkSummary (action i) (length (filter (bulkFilter (action i)) (emails s))))
            (initialResult i)),
          s\<lparr>emails := map (\<lambda>e. if bulkFilter (action i) e
                               then setUpdates (bulkUpdate (action i)) e else e) (emails s)\<rparr>)"
    by (simp add: bulk_all_run [OF flag_is_bulk [OF act] allp] healthy
        updateAll_selected [OF ids])
next
  assume h: "\<not> truthyFlag (param p_all i) \<and> param p_emailId i = Some n \<and> n \<noteq> 0"
  then have idn: "truthyNumber (param p_emailId i) = Some n"
    by (simp add: truthyNumber_def)
  show "execute llm i s =
         (Returned (withSummary (pointSummary (action i)) (initialResult i)),
          s\<lparr>emails := map (\<lambda>e. if email_id e = n
                               then setUpdates (bulkUpdate (action i)) e else e) (emails s)\<rparr>)"
    using h
    by (simp add: point_shape [OF act _ idn] bind_def updateEmail_healthy [OF healthy]
        updateRows_def ret_def)
next
  assume h: "\<not> truthyFlag (param p_all i) \<and> truthyNumber (param p_emailId i) = None \<and>
     action i \<in> set fallbackActions"
  let ?F = "bulkFilter (action i)"
  let ?U = "orderByReceivedAtDesc (filter ?F (emails s))"
  have shape: "execute llm i s =
      (case take 1 ?U of
         [] \<Rightarrow> (Returned (withSummary (nothingSummary (action i)) (initialResult i)), s)
       | e # _ \<Rightarrow>
           (Returned (withSummary (recentSummary (action i)) (initialResult i)),
            s\<lparr>emails := updateRows (email_id e) (bulkUpdate (action i)) (emails s)\<rparr>))"
    using h
    by (simp add: fallback_shape bind_def storeCall_healthy [OF healthy]
        updateEmail_healthy [OF healthy] ret_def split: list.splits)
  show "(filter ?F (emails s) = [] \<and>
        execute llm i s =
          (Returned (withSummary (nothingSummary (action i)) (initialResult i)), s)) \<or>
       (\<exists>e. mostRecent 1 ?F (emails s) [e] \<and>
            execute llm i s =
              (Returned (withSummary (recentSummary (action i)) (initialResult i)),
               s\<lparr>emails := map (\<lambda>r. if r = e then setUpdates (bulkUpdate (action i)) r else r)
                                (emails s)\<rparr>))"
  proof (cases ?U)
    case Nil
    then have "filter ?F (emails s) = []" by simp
    then show ?thesis using shape by simp
  next
    case (Cons e rest)
    then have t: "take 1 ?U = [e]" by simp
    have "e \<in> set ?U" using Cons by simp
    then have mem: "e \<in> set (emails s)" by simp
    have mr: "mostRecent 1 ?F (emails s) [e]"
      using mostRecent_take [of 1 ?F "emails s"] t by simp
    have "execute llm i s =
              (Returned (withSummary (recentSummary (action i)) (initialResult i)),
               s\<lparr>emails := map (\<lambda>r. if r = e then setUpdates (bulkUpdate (action i)) r else r)
                                (emails s)\<rparr>)"
      using shape t by (simp add: updateRows_single [OF ids mem])
    with mr show ?thesis by blast
  qed
next
  assume h: "\<not> truthyFlag (param p_all i) \<and> truthyNumber (param p_emailId i) = None \<and>
     action i = ''mark_as_read''"
  then show "execute llm i s =
         (Returned (withSummary markAsReadClarification (initialResult i)), s)"
    by (simp add: mark_as_read_clarifies)
qed

text \<open>
  On the example inbox: "mark all as unread" reports 3, "remove the important flag of
  email 3" changes that email, a bare "mark important" marks the newest email, and a bare
  "mark as read" asks back.
\<close>

theorem flag_actions_select_their_target_witness:
  "execute exampleLlm markAllUnread (inboxStore None) =
     (Returned (withSummary ''Marked all 3 emails as unread.'' (initialResult markAllUnread)),
      (inboxStore None)\<lparr>emails := [mailA, mailB, mailC\<lparr>isRead := False\<rparr>]\<rparr>) \<and>
   execute exampleLlm removeImportantThree (inboxStore None) =
     (Returned (withSummary ''Removed important flag from email.''
        (initialResult removeImportantThree)),
      (inboxStore None)\<lparr>emails := [mailA, mailB, mailC\<lparr>isImportant := False\<rparr>]\<rparr>) \<and>
   mostRecent 1 notDeleted (emails (inboxStore None)) [mailB] \<and>
   execute exampleLlm markImportantPlain (inboxStore None) =
     (Returned (withSummary ''Most recent email marked as important.''
        (initialResult markImportantPlain)),
      (inboxStore None)\<lparr>emails := [mailA, mailB\<lparr>isImportant := True\<rparr>, mailC]\<rparr>) \<and>
   execute exampleLlm markReadPlain (inboxStore None) =
     (Returned (withSummary markAsReadClarification (initialResult markReadPlain)),
      inboxStore None)"
proof -
  have h: "callsUntilError (inboxStore None) = None" by (simp add: budget_inboxStore)
  have a1: "action markAllUnread \<in> set flagActions"
    and p1: "truthyFlag (param p_all markAllUnread)"
    and n1: "action markAllUnread = ''mark_unread''"
    by (simp_all add: markAllUnread_def mkIntent_def flagActions_def truthyFlag_def param_def
        noParameters_def)
  have a2: "action removeImportantThree \<in> set flagActions"
    and p2: "\<not> truthyFlag (param p_all removeImportantThree) \<and>
             param p_emailId removeImportantThree = Some 3 \<and> (3::int) \<noteq> 0"
    and n2: "action removeImportantThree = ''remove_important''"
    by (simp_all add: removeImportantThree_def mkIntent_def flagActions_def truthyFlag_def
        param_def noParameters_def)
  have a4: "action markReadPlain \<in> set flagActions"
    and p4: "\<not> truthyFlag (param p_all markReadPlain) \<and>
             truthyNumber (param p_emailId markReadPlain) = None \<and>
             action markReadPlain = ''mark_as_read''"
    by (simp_all add: markReadPlain_def mkIntent_def flagActions_def truthyFlag_def
        truthyNumber_def param_def noParameters_def)
  note all = flag_actions_select_their_target [where llm = exampleLlm, OF a1 h ids_inboxStore,
      THEN conjunct1, THEN mp, OF p1]
  note point = flag_actions_select_their_target [where llm = exampleLlm and n = 3,
      OF a2 h ids_inboxStore, THEN conjunct2, THEN conjunct1, THEN mp, OF p2]
  note ask = flag_actions_select_their_target [where llm = exampleLlm, OF a4 h ids_inboxStore,
      THEN conjunct2, THEN conjunct2, THEN conjunct2, THEN mp, OF p4]
  have s1: "bulkSummary ''mark_unread'' 3 = ''Marked all 3 emails as unread.''"
    by (simp add: bulkSummary_def showNat_3)
  have c1: "length (filter (bulkFilter ''mark_unread'') (emails (inboxStore None))) = 3"
    by (simp add: bulkFilter_def inbox_notDeleted_count)
  have s2: "pointSummary ''remove_important'' = ''Removed important flag from email.''"
    by (simp add: pointSummary_def)
  from all have w1: "execute exampleLlm markAllUnread (inboxStore None) =
     (Returned (withSummary ''Marked all 3 emails as unread.'' (initialResult markAllUnread)),
      (inboxStore None)\<lparr>emails := [mailA, mailB, mailC\<lparr>isRead := False\<rparr>]\<rparr>)"
    by (simp add: n1 c1 s1 inbox_all_unread cong: if_cong)
  from point have w2: "execute exampleLlm removeImportantThree (inboxStore None) =
     (Returned (withSummary ''Removed important flag from email.''
        (initialResult removeImportantThree)),
      (inboxStore None)\<lparr>emails := [mailA, mailB, mailC\<lparr>isImportant := False\<rparr>]\<rparr>)"
    by (simp add: n2 s2 inbox_third_plain cong: if_cong)
  from w1 w2 inbox_newest markImportantPlain_run ask show ?thesis
    by (intro conjI)
qed

text \<open>
  As claim C3 is worded, \<open>mark_as_read\<close> without \<open>all\<close> and without an id marks the
  most recently received email. The inbox is not empty, and the code asks which emails
  are meant and leaves the store as it was.
\<close>

theorem mark_as_read_has_no_fallback_counterexample:
  "orderByReceivedAtDesc (filter notDeleted (emails (inboxStore None))) = [mailB, mailC, mailA] \<and>
   execute exampleLlm markReadPlain (inboxStore None) =
     (Returned (withSummary
        (''I'd be happy to mark emails as read. Just let me know which ones - '' @
         ''you can say 'mark all as read' or specify particular emails.'')
        (initialResult markReadPlain)), inboxStore None)"
  by (simp add: inbox_notDeleted execute_def markAsReadCase_def markReadPlain_def mkIntent_def
      param_def noParameters_def truthyFlag_def truthyNumber_def ret_def)

section \<open>Archive and delete\<close>

text \<open>
  Claim C4, as the code has it, on a store that does not fail. With \<open>all\<close> set, both
  \<open>delete_emails\<close> and \<open>archive_emails\<close> set \<open>isDeleted\<close> on every email that is not
  deleted and report their number. Without \<open>all\<close>, \<open>archive_emails\<close> with a non-empty
  query archives exactly the emails the search returns and reports their number, and
  without a query it asks which emails are meant and changes nothing. Without \<open>all\<close>,
  \<open>delete_emails\<close> with an \<open>emailId\<close> other than zero archives the email with that id,
  and with neither an id nor a query it asks which emails are meant and changes nothing.
  Whatever the parameters and whether or not the store fails, neither action removes a
  row: the ids of the rows stay the same, in the same order.
\<close>

theorem archive_and_delete_targets:
  assumes healthy: "callsUntilError s = None" and ids: "distinct (map email_id (emails s))"
  shows
   "((action i = ''delete_emails'' \<or> action i = ''archive_emails'') \<and>
     truthyFlag (param p_all i) \<longrightarrow>
       execute llm i s =
         (Returned (withSummary
            (bulkSummary (action i) (length (filter notDeleted (emails s)))) (initialResult i)),
          s\<lparr>emails := map (\<lambda>e. if notDeleted e then e\<lparr>isDeleted := True\<rparr> else e)
                           (emails s)\<rparr>)) \<and>
    (action i = ''archive_emails'' \<and> \<not> truthyFlag (param p_all i) \<and>
     truthyString (param p_query i) = Some q \<longrightarrow>
       execute llm i s =
         (Returned (withSummary
            (''Archived '' @ showNat (length (filter (searchMatches q) (emails s))) @
             '' emails matching '' @ dquote @ q @ dquote @ ''.'') (initialResult i)),
          s\<lparr>emails := map (\<lambda>e. if searchMatches q e then e\<lparr>isDeleted := True\<rparr> else e)
                           (emails s)\<rparr>)) \<and>
    (action i = ''archive_emails'' \<and> \<not> truthyFlag (param p_all i) \<and>
     truthyString (param p_query i) = None \<longrightarrow>
       execute llm i s = (Returned (withSummary archiveClarification (initialResult i)), s)) \<and>
    (action i = ''delete_emails'' \<and> \<not> truthyFlag (param p_all i) \<and>
     param p_emailId i = Some n \<and> n \<noteq> 0 \<longrightarrow>
       execute llm i s =
         (Returned (withSummary ''Email deleted successfully.'' (initialResult i)),
          s\<lparr>emails := map (\<lambda>e. if email_id e = n then e\<lparr>isDeleted := True\<rparr> else e)
                           (emails s)\<rparr>)) \<and>
    (action i = ''delete_emails'' \<and> \<not> truthyFlag (param p_all i) \<and>
     truthyNumber (param p_emailId i) = None \<and> truthyString (param p_query i) = None \<longrightarrow>
       execute llm i s = (Returned (withSummary deleteClarification (initialResult i)), s)) \<and>
    (action i = ''delete_emails'' \<or> action i = ''archive_emails'' \<longrightarrow>
       rowIds (snd (execute llm i anyStore)) = rowIds anyStore)"
proof (intro conjI impI)
  assume h: "(action i = ''delete_emails'' \<or> action i = ''archive_emails'') \<and>
     truthyFlag (param p_all i)"
  then have a: "action i \<in> set bulkActions" by (auto simp add: bulkActions_def)
  have f: "bulkFilter (action i) = notDeleted" and u: "bulkUpdate (action i) =
      noUpdates\<lparr>u_isDeleted := Some True\<rparr>"
    using h by (auto simp add: bulkFilter_def bulkUpdate_def)
  show "execute llm i s =
         (Returned (withSummary
            (bulkSummary (action i) (length (filter notDeleted (emails s)))) (initialResult i)),
          s\<lparr>emails := map (\<lambda>e. if notDeleted e then e\<lparr>isDeleted := True\<rparr> else e)
                           (emails s)\<rparr>)"
    using h
    by (simp add: bulk_all_run [OF a] healthy f u updateAll_selected [OF ids])
next
  assume h: "action i = ''archive_emails'' \<and> \<not> truthyFlag (param p_all i) \<and>
     truthyString (param p_query i) = Some q"
  then have "execute llm i s = archiveEmailsCase i s" by (simp add: execute_def)
  then show "execute llm i s =
         (Returned (withSummary
            (''Archived '' @ showNat (length (filter (searchMatches q) (emails s))) @
             '' emails matching '' @ dquote @ q @ dquote @ ''.'') (initialResult i)),
          s\<lparr>emails := map (\<lambda>e. if searchMatches q e then e\<lparr>isDeleted := True\<rparr> else e)
                           (emails s)\<rparr>)"
    using h by (simp add: archive_query_run [OF healthy ids])
next
  assume h: "action i = ''archive_emails'' \<and> \<not> truthyFlag (param p_all i) \<and>
     truthyString (param p_query i) = None"
  then show "execute llm i s = (Returned (withSummary archiveClarification (initialResult i)), s)"
    by (simp add: execute_def archiveEmailsCase_def archiveClarification_def ret_def)
next
  assume h: "action i = ''delete_emails'' \<and> \<not> truthyFlag (param p_all i) \<and>
     param p_emailId i = Some n \<and> n \<noteq> 0"
  then show "execute llm i s =
         (Returned (withSummary ''Email deleted successfully.'' (initialResult i)),
          s\<lparr>emails := map (\<lambda>e. if email_id e = n then e\<lparr>isDeleted := True\<rparr> else e)
                           (emails s)\<rparr>)"
    by (simp add: execute_def deleteEmailsCase_def truthyNumber_def bind_def
        updateEmail_healthy [OF healthy] updateRows_def ret_def)
next
  assume h: "action i = ''delete_emails'' \<and> \<not> truthyFlag (param p_all i) \<and>
     truthyNumber (param p_emailId i) = None \<and> truthyString (param p_query i) = None"
  then show "execute llm i s = (Returned (withSummary deleteClarification (initialResult i)), s)"
    by (simp add: execute_def deleteEmailsCase_def deleteClarification_def ret_def)
next
  assume h: "action i = ''delete_emails'' \<or> action i = ''archive_emails''"
  then have "execute llm i = deleteEmailsCase i \<or> execute llm i = archiveEmailsCase i"
    by (auto simp add: execute_def)
  then show "rowIds (snd (execute llm i anyStore)) = rowIds anyStore"
    using keepsD [OF keeps_rowIds_delete] keepsD [OF keeps_rowIds_archive] by auto
qed

text \<open>
  On the example inbox: "archive all" archives three emails, "archive reports" archives
  the one email that matches, a bare "delete" asks back, and the three rows are still
  there after an "archive all" that the store interrupts.
\<close>

theorem archive_and_delete_targets_witness:
  "execute exampleLlm archiveAll (inboxStore None) =
     (Returned (withSummary ''Archived all 3 emails. Your inbox is now clean.''
        (initialResult archiveAll)),
      (inboxStore None)\<lparr>emails :=
         [mailA\<lparr>isDeleted := True\<rparr>, mailB\<lparr>isDeleted := True\<rparr>, mailC\<lparr>isDeleted := True\<rparr>]\<rparr>) \<and>
   execute exampleLlm archiveReports (inboxStore None) =
     (Returned (withSummary (''Archived 1 emails matching '' @ dquote @ ''report'' @ dquote @ ''.'')
        (initialResult archiveReports)),
      (inboxStore None)\<lparr>emails := [mailA, mailB\<lparr>isDeleted := True\<rparr>, mailC]\<rparr>) \<and>
   execute exampleLlm deletePlain (inboxStore None) =
     (Returned (withSummary deleteClarification (initialResult deletePlain)), inboxStore None) \<and>
   rowIds (snd (execute exampleLlm archiveAll (inboxStore (Some 2)))) = [1, 2, 3]"
proof -
  have h: "callsUntilError (inboxStore None) = None" by (simp add: budget_inboxStore)
  have p1: "(action archiveAll = ''delete_emails'' \<or> action archiveAll = ''archive_emails'') \<and>
     truthyFlag (param p_all archiveAll)"
    and n1: "action archiveAll = ''archive_emails''"
    by (simp_all add: archiveAll_def mkIntent_def truthyFlag_def param_def noParameters_def)
  have p2: "action archiveReports = ''archive_emails'' \<and>
     \<not> truthyFlag (param p_all archiveReports) \<and>
     truthyString (param p_query archiveReports) = Some ''report''"
    by (simp add: archiveReports_def mkIntent_def truthyFlag_def truthyString_def param_def
        noParameters_def)
  have p3: "action deletePlain = ''delete_emails'' \<and> \<not> truthyFlag (param p_all deletePlain) \<and>
     truthyNumber (param p_emailId deletePlain) = None \<and>
     truthyString (param p_query deletePlain) = None"
    by (simp add: deletePlain_def mkIntent_def truthyFlag_def truthyString_def truthyNumber_def
        param_def noParameters_def)
  have p4: "action archiveAll = ''delete_emails'' \<or> action archiveAll = ''archive_emails''"
    using p1 by (rule conjunct1)
  note T = archive_and_delete_targets [where llm = exampleLlm, OF h ids_inboxStore]
  note all = T [where i = archiveAll, THEN conjunct1, THEN mp, OF p1]
  note query = T [where i = archiveReports and q = "''report''", THEN conjunct2, THEN conjunct1,
      THEN mp, OF p2]
  note plain = T [where i = deletePlain, THEN conjunct2, THEN conjunct2, THEN conjunct2,
      THEN conjunct2, THEN conjunct1, THEN mp, OF p3]
  note rows = T [where i = archiveAll and anyStore = "inboxStore (Some 2)", THEN conjunct2,
      THEN conjunct2, THEN conjunct2, THEN conjunct2, THEN conjunct2, THEN mp, OF p4]
  have s1: "bulkSummary ''archive_emails'' 3 = ''Archived all 3 emails. Your inbox is now clean.''"
    by (simp add: bulkSummary_def showNat_3)
  from all have w1: "execute exampleLlm archiveAll (inboxStore None) =
     (Returned (withSummary ''Archived all 3 emails. Your inbox is now clean.''
        (initialResult archiveAll)),
      (inboxStore None)\<lparr>emails :=
         [mailA\<lparr>isDeleted := True\<rparr>, mailB\<lparr>isDeleted := True\<rparr>, mailC\<lparr>isDeleted := True\<rparr>]\<rparr>)"
    by (simp add: n1 inbox_notDeleted_count s1 inbox_all_archived)
  from query have w2: "execute exampleLlm archiveReports (inboxStore None) =
     (Returned (withSummary (''Archived 1 emails matching '' @ dquote @ ''report'' @ dquote @ ''.'')
        (initialResult archiveReports)),
      (inboxStore None)\<lparr>emails := [mailA, mailB\<lparr>isDeleted := True\<rparr>, mailC]\<rparr>)"
    by (simp add: inbox_reports_count showNat_1 inbox_reports)
  from rows have w4: "rowIds (snd (execute exampleLlm archiveAll (inboxStore (Some 2)))) = [1, 2, 3]"
    by (simp add: rowIds_inboxStore)
  from w1 w2 plain w4 show ?thesis by (intro conjI)
qed

text \<open>
  As claim C4 is worded, \<open>delete_emails\<close> asks for clarification for every parameter
  shape but \<open>all\<close> and \<open>query\<close>, and archives the search matches for a query. With
  \<open>emailId: 2\<close> the code archives email 2; with the query "report", which email 2
  matches, it asks which emails are meant and archives nothing.
\<close>

theorem delete_emails_shapes_counterexample:
  "execute exampleLlm deleteSecond (inboxStore None) =
     (Returned (withSummary ''Email deleted successfully.'' (initialResult deleteSecond)),
      (inboxStore None)\<lparr>emails := [mailA, mailB\<lparr>isDeleted := True\<rparr>, mailC]\<rparr>) \<and>
   searchMatches ''report'' mailB \<and>
   execute exampleLlm deleteReports (inboxStore None) =
     (Returned (withSummary deleteClarification (initialResult deleteReports)), inboxStore None)"
proof -
  have h: "callsUntilError (inboxStore None) = None" by (simp add: budget_inboxStore)
  have one: "execute exampleLlm deleteSecond (inboxStore None) =
     (Returned (withSummary ''Email deleted successfully.'' (initialResult deleteSecond)),
      (inboxStore None)\<lparr>emails := [mailA, mailB\<lparr>isDeleted := True\<rparr>, mailC]\<rparr>)"
    by (simp add: execute_def deleteEmailsCase_def deleteSecond_def mkIntent_def param_def
        noParameters_def truthyFlag_def truthyNumber_def bind_def updateEmail_healthy [OF h]
        inbox_second_archived ret_def)
  have two: "execute exampleLlm deleteReports (inboxStore None) =
     (Returned (withSummary deleteClarification (initialResult deleteReports)), inboxStore None)"
    by (simp add: execute_def deleteEmailsCase_def deleteReports_def mkIntent_def param_def
        noParameters_def truthyFlag_def truthyNumber_def deleteClarification_def ret_def)
  from one mailB_is_a_report two show ?thesis by (intro conjI)
qed

end
